(* ===== verification/Prelude.thy ===== *)
theory Prelude
  imports Main
begin

text \<open>
  Shared vocabulary of the development: the type of grid cells, C++ integer division
  and remainder (which truncate towards zero, unlike HOL's \<open>div\<close> and \<open>mod\<close>), signed
  32-bit \<^verbatim>\<open>int\<close> operations that are undefined (\<open>None\<close>) on overflow, the
  named collection of rewrite rules the layout proofs share, and generic lemmas on
  folds and integer ranges used by several component theories.
\<close>

section \<open>Types of the model\<close>

text \<open>A cell of the square world grid, addressed as \<open>(i, j)\<close> as in \<open>std::pair<int,int>\<close>.\<close>

type_synonym cell = "int \<times> int"

text \<open>
  The facts about grid operations that the layout proofs use again and again are
  collected here; each component theory declares its own characteristic lemmas
  into the collection.
\<close>

named_theorems grid_simps "characteristic equations of the occupancy grid"

section \<open>C++ integer division and remainder\<close>

text \<open>
  In C++ \<open>a / b\<close> rounds towards zero and \<open>a % b\<close> has the sign of \<open>a\<close>, so that
  \<open>(a / b) * b + a % b = a\<close>. HOL's \<open>div\<close> and \<open>mod\<close> round towards minus
  infinity; the two agree on non-negative operands.
\<close>

definition cdiv :: "int \<Rightarrow> int \<Rightarrow> int" where
  "cdiv a b = sgn a * sgn b * (\<bar>a\<bar> div \<bar>b\<bar>)"

definition cmod :: "int \<Rightarrow> int \<Rightarrow> int" where
  "cmod a b = a - b * cdiv a b"

section \<open>C signed \<^verbatim>\<open>int\<close> arithmetic\<close>

text \<open>
  A signed 32-bit \<^verbatim>\<open>int\<close> operation is modelled on unbounded integers, its value
  \<open>None\<close> when the exact result leaves the 32-bit range (undefined behaviour in C).
\<close>

definition INT_MAX :: int where "INT_MAX = 2 ^ 31 - 1"
definition INT_MIN :: int where "INT_MIN = - (2 ^ 31)"

definition int32 :: "int \<Rightarrow> bool" where
  "int32 x \<longleftrightarrow> INT_MIN \<le> x \<and> x \<le> INT_MAX"

definition c_int :: "int \<Rightarrow> int option" where
  "c_int x = (if int32 x then Some x else None)"

definition c_add :: "int \<Rightarrow> int \<Rightarrow> int option" where
  "c_add a b = c_int (a + b)"

definition c_sub :: "int \<Rightarrow> int \<Rightarrow> int option" where
  "c_sub a b = c_int (a - b)"

definition c_mul :: "int \<Rightarrow> int \<Rightarrow> int option" where
  "c_mul a b = c_int (a * b)"

text \<open>\<^verbatim>\<open>abs\<close> of \<^verbatim>\<open><cstdlib>\<close>: undefined on \<^verbatim>\<open>INT_MIN\<close>, whose negation does not fit.\<close>

definition c_abs :: "int \<Rightarrow> int option" where
  "c_abs a = c_int \<bar>a\<bar>"

lemma cdiv_nonneg [simp]: "0 \<le> a \<Longrightarrow> 0 < b \<Longrightarrow> cdiv a b = a div b"
  by (cases "a = 0") (simp_all add: cdiv_def)

lemma cmod_nonneg [simp]: "0 \<le> a \<Longrightarrow> 0 < b \<Longrightarrow> cmod a b = a mod b"
  by (simp add: cmod_def minus_div_mult_eq_mod [symmetric] mult.commute)

lemma cdiv_cmod_eq: "cdiv a b * b + cmod a b = a"
  by (simp add: cmod_def)

text \<open>Comparing with a quotient by a positive divisor.\<close>

lemma le_zdiv_iff: "0 < (b::int) \<Longrightarrow> (a \<le> c div b) = (a * b \<le> c)"
proof
  assume b: "0 < b" and "a \<le> c div b"
  then have "a * b \<le> c div b * b" by (simp add: mult_right_mono)
  also have "\<dots> \<le> c" using b by (simp add: minus_mod_eq_div_mult [symmetric])
  finally show "a * b \<le> c" .
next
  assume b: "0 < b" and "a * b \<le> c"
  then have "(a * b) div b \<le> c div b" by (intro zdiv_mono1)
  with b show "a \<le> c div b" by simp
qed

lemma cdiv_neg_two: "cdiv (- 2) 2 = - 1"
  by (simp add: cdiv_def)

section \<open>Generic lemmas on folds and ranges\<close>

text \<open>A property kept by every step of a left fold is kept by the fold.\<close>

lemma fold_invariant_step:
  assumes "\<And>x s. x \<in> set xs \<Longrightarrow> P s \<Longrightarrow> P (f x s)" and "P s"
  shows "P (fold f xs s)"
  using assms by (induction xs arbitrary: s) auto

text \<open>A fold whose steps never touch a value leaves it unchanged.\<close>

lemma fold_frame:
  assumes "\<And>x s. x \<in> set xs \<Longrightarrow> g (f x s) = g s"
  shows "g (fold f xs s) = g s"
  using assms by (induction xs arbitrary: s) auto

lemma map_shift_upto: "map (\<lambda>a. c + a) [i..j] = [c + i..c + j]"
proof (induction i j rule: upto.induct)
  case (1 i j)
  show ?case
  proof (cases "i \<le> j")
    case True
    with "1.IH" show ?thesis by (simp add: upto_rec1 [of i j] upto_rec1 [of "c + i" "c + j"] add.assoc)
  next
    case False
    then show ?thesis by simp
  qed
qed

text \<open>Two nested loops with early exit test every pair of the product.\<close>

lemma list_all_product:
  "list_all (\<lambda>i. list_all (\<lambda>j. P i j) ys) xs \<longleftrightarrow> (\<forall>c \<in> set xs \<times> set ys. P (fst c) (snd c))"
  by (auto simp: list_all_iff)

section \<open>Pairwise disjoint lists of sets\<close>

definition pairwise_disjoint :: "'a set list \<Rightarrow> bool" where
  "pairwise_disjoint Fs \<longleftrightarrow> sorted_wrt (\<lambda>A B. A \<inter> B = {}) Fs"

lemma pairwise_disjoint_insert:
  "pairwise_disjoint (xs @ ys) \<Longrightarrow> (\<forall>A \<in> set xs \<union> set ys. A \<inter> F = {}) \<Longrightarrow>
     pairwise_disjoint (xs @ F # ys)"
  by (auto simp: pairwise_disjoint_def sorted_wrt_append)

lemma pairwise_disjoint_appendD:
  "pairwise_disjoint (xs @ ys) \<Longrightarrow> pairwise_disjoint xs"
  "pairwise_disjoint (xs @ ys) \<Longrightarrow> pairwise_disjoint ys"
  by (simp_all add: pairwise_disjoint_def sorted_wrt_append)

lemma pairwise_disjoint_remove_mid:
  "pairwise_disjoint (xs @ ys @ zs) \<Longrightarrow> pairwise_disjoint (xs @ zs)"
  "pairwise_disjoint (xs @ ys @ zs) \<Longrightarrow> pairwise_disjoint (xs @ ys)"
  by (simp_all add: pairwise_disjoint_def sorted_wrt_append)

lemma pairwise_disjoint_Nil [simp]: "pairwise_disjoint []"
  by (simp add: pairwise_disjoint_def)

lemma pairwise_disjoint_nth:
  assumes "pairwise_disjoint Fs" "i < length Fs" "j < length Fs" "i \<noteq> j"
  shows "Fs ! i \<inter> Fs ! j = {}"
proof (cases "i < j")
  case True
  with assms show ?thesis by (simp add: pairwise_disjoint_def sorted_wrt_iff_nth_less)
next
  case False
  with assms have "Fs ! j \<inter> Fs ! i = {}"
    by (simp add: pairwise_disjoint_def sorted_wrt_iff_nth_less)
  then show ?thesis by blast
qed

end
