(* ===== verification/Raster_Line.thy ===== *)
theory Raster_Line
  imports Prelude "HOL-Library.Monad_Syntax"
begin

text \<open>
  The line rasteriser of \<^verbatim>\<open>src/src/algorithms/algorithms.cpp\<close>
  (\<^verbatim>\<open>bresenhamLine\<close>). The C++ loop \<^verbatim>\<open>while (true)\<close> has no bound of its own, so it
  is modelled by \<^theory_text>\<open>partial_function (option)\<close>: \<open>None\<close> would mean that the loop
  runs forever. Beside it stands an abstract specification, \<open>bres_walk\<close>: the same
  decisions taken on two step counters \<open>a, b \<ge> 0\<close> in the first quadrant, with the
  error term computed from the counters instead of being accumulated. The refinement
  lemma shows that the C++ loop, started as \<^verbatim>\<open>bresenhamLine\<close> starts it, always
  returns, and returns the walk mapped back into the octant of the input. The
  properties of the line (end points, 8-connectivity, bounding box, distinct cells,
  horizontal and vertical lines, the range of the error term) are proved on the walk.
  The same loop at the width of C's \<^verbatim>\<open>int\<close> (\<open>bresenham_loop32\<close>, every operation
  undefined on overflow) is shown to compute what the unbounded model computes whenever
  the end points are below \<open>2^28\<close> in magnitude.
\<close>

section \<open>The C++ loop\<close>

text \<open>
  One iteration of the loop body: append the current cell, stop at the end point,
  otherwise take the x-step and the y-step that the doubled error \<open>e2\<close> selects.
  The arguments are the loop's locals \<open>dx sx dy sy x1 y1 x y err pts\<close>, with
  \<open>dy\<close> the negated vertical distance as in the source.
\<close>

partial_function (option) bresenham_loop ::
  "int \<Rightarrow> int \<Rightarrow> int \<Rightarrow> int \<Rightarrow> int \<Rightarrow> int \<Rightarrow> int \<Rightarrow> int \<Rightarrow> int \<Rightarrow> cell list \<Rightarrow> cell list option"
where
  "bresenham_loop dx sx dy sy x1 y1 x y err pts =
     (let pts' = pts @ [(x, y)] in
      if x = x1 \<and> y = y1 then Some pts'
      else
        let e2 = 2 * err;
            err1 = (if e2 \<ge> dy then err + dy else err);
            x' = (if e2 \<ge> dy then x + sx else x);
            err2 = (if e2 \<le> dx then err1 + dx else err1);
            y' = (if e2 \<le> dx then y + sy else y)
        in bresenham_loop dx sx dy sy x1 y1 x' y' err2 pts')"

definition bresenhamLine :: "int \<Rightarrow> int \<Rightarrow> int \<Rightarrow> int \<Rightarrow> cell list option" where
  "bresenhamLine x0 y0 x1 y1 =
     (let dx = \<bar>x1 - x0\<bar>;
          sx = (if x0 < x1 then 1 else - 1);
          dy = - \<bar>y1 - y0\<bar>;
          sy = (if y0 < y1 then 1 else - 1);
          err = dx + dy
      in bresenham_loop dx sx dy sy x1 y1 x0 y0 err [])"

text \<open>
  The same function with its \<^verbatim>\<open>int\<close> locals at 32 bits: \<^verbatim>\<open>abs\<close>, \<^verbatim>\<open>-\<close>,
  \<^verbatim>\<open>+\<close> and \<^verbatim>\<open>2*err\<close> are the C operations of \<open>Prelude\<close>, \<open>None\<close> on signed
  overflow. Here \<open>None\<close> is an overflow or a loop that never returns.
\<close>

partial_function (option) bresenham_loop32 ::
  "int \<Rightarrow> int \<Rightarrow> int \<Rightarrow> int \<Rightarrow> int \<Rightarrow> int \<Rightarrow> int \<Rightarrow> int \<Rightarrow> int \<Rightarrow> cell list \<Rightarrow> cell list option"
where
  "bresenham_loop32 dx sx dy sy x1 y1 x y err pts =
     (let pts' = pts @ [(x, y)] in
      if x = x1 \<and> y = y1 then Some pts'
      else do {
        e2 \<leftarrow> c_mul 2 err;
        (err1, x') \<leftarrow> (if e2 \<ge> dy then do { e \<leftarrow> c_add err dy; x' \<leftarrow> c_add x sx; Some (e, x') }
                       else Some (err, x));
        (err2, y') \<leftarrow> (if e2 \<le> dx then do { e \<leftarrow> c_add err1 dx; y' \<leftarrow> c_add y sy; Some (e, y') }
                       else Some (err1, y));
        bresenham_loop32 dx sx dy sy x1 y1 x' y' err2 pts'
      })"

definition bresenhamLine32 :: "int \<Rightarrow> int \<Rightarrow> int \<Rightarrow> int \<Rightarrow> cell list option" where
  "bresenhamLine32 x0 y0 x1 y1 = do {
     ddx \<leftarrow> c_sub x1 x0;
     dx \<leftarrow> c_abs ddx;
     let sx = (if x0 < x1 then 1 else - 1);
     ddy \<leftarrow> c_sub y1 y0;
     ady \<leftarrow> c_abs ddy;
     dy \<leftarrow> c_int (- ady);
     let sy = (if y0 < y1 then 1 else - 1);
     err \<leftarrow> c_add dx dy;
     bresenham_loop32 dx sx dy sy x1 y1 x0 y0 err []
   }"

section \<open>The abstract walk\<close>

text \<open>
  After \<open>a\<close> steps in x and \<open>b\<close> steps in y the accumulated error of the C++ loop is
  \<open>(b + 1) * DX - (a + 1) * DY\<close>, with \<open>DX, DY\<close> the absolute distances.
\<close>

definition walk_err :: "int \<Rightarrow> int \<Rightarrow> int \<Rightarrow> int \<Rightarrow> int" where
  "walk_err DX DY a b = (b + 1) * DX - (a + 1) * DY"

definition walk_ok :: "int \<Rightarrow> int \<Rightarrow> int \<Rightarrow> int \<Rightarrow> bool" where
  "walk_ok DX DY a b \<longleftrightarrow> 0 \<le> a \<and> a \<le> DX \<and> 0 \<le> b \<and> b \<le> DY"

definition x_step :: "int \<Rightarrow> int \<Rightarrow> int \<Rightarrow> int \<Rightarrow> bool" where
  "x_step DX DY a b \<longleftrightarrow> - DY \<le> 2 * walk_err DX DY a b"

definition y_step :: "int \<Rightarrow> int \<Rightarrow> int \<Rightarrow> int \<Rightarrow> bool" where
  "y_step DX DY a b \<longleftrightarrow> 2 * walk_err DX DY a b \<le> DX"

text \<open>The two decisions never overshoot the end point, and one of them is always taken.\<close>

lemma x_step_no_overshoot:
  assumes "walk_ok DX DY a b" "\<not> (a = DX \<and> b = DY)" "x_step DX DY a b"
  shows "a < DX"
proof (rule ccontr)
  assume "\<not> a < DX"
  with assms(1) have a: "a = DX" by (simp add: walk_ok_def)
  with assms(1,2) have b: "0 \<le> b" "b + 1 \<le> DY" by (auto simp: walk_ok_def)
  have "(b + 1) * DX \<le> DY * DX"
    using b assms(1) by (intro mult_right_mono) (auto simp: walk_ok_def)
  with assms(3) a have "DY \<le> 0"
    by (simp add: x_step_def walk_err_def algebra_simps)
  with b show False by simp
qed

lemma y_step_no_overshoot:
  assumes "walk_ok DX DY a b" "\<not> (a = DX \<and> b = DY)" "y_step DX DY a b"
  shows "b < DY"
proof (rule ccontr)
  assume "\<not> b < DY"
  with assms(1) have b: "b = DY" by (simp add: walk_ok_def)
  with assms(1,2) have a: "0 \<le> a" "a + 1 \<le> DX" by (auto simp: walk_ok_def)
  have "(a + 1) * DY \<le> DX * DY"
    using a assms(1) by (intro mult_right_mono) (auto simp: walk_ok_def)
  with assms(3) b have "DX \<le> 0"
    by (simp add: y_step_def walk_err_def algebra_simps)
  with a show False by simp
qed

lemma walk_progress:
  assumes "walk_ok DX DY a b"
  shows "x_step DX DY a b \<or> y_step DX DY a b"
  using assms by (auto simp: walk_ok_def x_step_def y_step_def)

definition walk_next :: "int \<Rightarrow> int \<Rightarrow> int \<Rightarrow> int \<Rightarrow> int \<times> int" where
  "walk_next DX DY a b =
     ((if x_step DX DY a b then a + 1 else a), (if y_step DX DY a b then b + 1 else b))"

lemma walk_next_ok:
  assumes "walk_ok DX DY a b" "\<not> (a = DX \<and> b = DY)"
  shows "walk_ok DX DY (fst (walk_next DX DY a b)) (snd (walk_next DX DY a b))"
  using assms x_step_no_overshoot [OF assms] y_step_no_overshoot [OF assms]
  by (auto simp: walk_ok_def walk_next_def)

lemma walk_next_decreases:
  assumes "walk_ok DX DY a b" "\<not> (a = DX \<and> b = DY)"
  shows "nat (DX - fst (walk_next DX DY a b)) + nat (DY - snd (walk_next DX DY a b))
           < nat (DX - a) + nat (DY - b)"
  using assms walk_progress [OF assms(1)] x_step_no_overshoot [OF assms]
    y_step_no_overshoot [OF assms]
  by (auto simp: walk_ok_def walk_next_def)

text \<open>
  The walk from counters \<open>(a, b)\<close> to \<open>(DX, DY)\<close>. Outside the region \<open>walk_ok\<close>
  it stops at once; inside it, it is total by \<open>walk_next_decreases\<close>.
\<close>

function bres_walk :: "int \<Rightarrow> int \<Rightarrow> int \<Rightarrow> int \<Rightarrow> (int \<times> int) list" where
  "bres_walk DX DY a b =
     (if (a = DX \<and> b = DY) \<or> \<not> walk_ok DX DY a b then [(a, b)]
      else (a, b) # bres_walk DX DY (fst (walk_next DX DY a b)) (snd (walk_next DX DY a b)))"
  by pat_completeness auto
termination
  by (relation "measure (\<lambda>(DX, DY, a, b). nat (DX - a) + nat (DY - b))")
     (auto simp: case_prod_beta intro!: walk_next_decreases)

declare bres_walk.simps [simp del]

lemma walk_err_next:
  "walk_err DX DY (fst (walk_next DX DY a b)) (snd (walk_next DX DY a b)) =
     walk_err DX DY a b + (if x_step DX DY a b then - DY else 0) + (if y_step DX DY a b then DX else 0)"
  by (simp add: walk_next_def walk_err_def algebra_simps)

text \<open>Maps counters of the first quadrant back to the octant of the input.\<close>

definition to_octant :: "int \<Rightarrow> int \<Rightarrow> int \<Rightarrow> int \<Rightarrow> int \<times> int \<Rightarrow> cell" where
  "to_octant x0 y0 sx sy ab = (x0 + sx * fst ab, y0 + sy * snd ab)"

lemma bres_walk_stop:
  "(a = DX \<and> b = DY) \<or> \<not> walk_ok DX DY a b \<Longrightarrow> bres_walk DX DY a b = [(a, b)]"
  by (simp add: bres_walk.simps)

lemma bres_walk_step:
  "\<not> ((a = DX \<and> b = DY) \<or> \<not> walk_ok DX DY a b) \<Longrightarrow>
     bres_walk DX DY a b = (a, b) # bres_walk DX DY (fst (walk_next DX DY a b)) (snd (walk_next DX DY a b))"
  by (simp add: bres_walk.simps)

lemma bresenham_loop_unfold_step:
  "\<not> (x = x1 \<and> y = y1) \<Longrightarrow>
   bresenham_loop dx sx dy sy x1 y1 x y err pts =
   bresenham_loop dx sx dy sy x1 y1 (if dy \<le> 2 * err then x + sx else x)
     (if 2 * err \<le> dx then y + sy else y)
     (err + (if dy \<le> 2 * err then dy else 0) + (if 2 * err \<le> dx then dx else 0))
     (pts @ [(x, y)])"
  by (subst bresenham_loop.simps) (auto simp: Let_def)

lemma bresenham_loop_unfold_stop:
  "bresenham_loop dx sx dy sy x y x y err pts = Some (pts @ [(x, y)])"
  by (subst bresenham_loop.simps) simp

lemma bresenham_loop_walk:
  assumes sx: "sx = 1 \<or> sx = - 1" and sy: "sy = 1 \<or> sy = - 1"
  shows "x1 = x0 + sx * DX \<Longrightarrow> y1 = y0 + sy * DY \<Longrightarrow> walk_ok DX DY a b \<Longrightarrow>
    bresenham_loop DX sx (- DY) sy x1 y1 (x0 + sx * a) (y0 + sy * b) (walk_err DX DY a b) pts
      = Some (pts @ map (to_octant x0 y0 sx sy) (bres_walk DX DY a b))"
proof (induction DX DY a b arbitrary: pts rule: bres_walk.induct)
  case (1 DX DY a b)
  note x1 = "1.prems"(1) and y1 = "1.prems"(2) and ok = "1.prems"(3)
  let ?x = "x0 + sx * a" and ?y = "y0 + sy * b" and ?err = "walk_err DX DY a b"
  let ?a' = "fst (walk_next DX DY a b)" and ?b' = "snd (walk_next DX DY a b)"
  have end_iff: "(?x = x1 \<and> ?y = y1) = (a = DX \<and> b = DY)"
    using sx sy by (auto simp: x1 y1)
  show ?case
  proof (cases "a = DX \<and> b = DY")
    case True
    then show ?thesis
      by (simp add: bres_walk_stop to_octant_def x1 y1 bresenham_loop_unfold_stop)
  next
    case False
    let ?pts' = "pts @ [(?x, ?y)]"
    have ax: "(if - DY \<le> 2 * ?err then ?x + sx else ?x) = x0 + sx * ?a'"
      by (simp add: walk_next_def x_step_def distrib_left)
    have by': "(if 2 * ?err \<le> DX then ?y + sy else ?y) = y0 + sy * ?b'"
      by (simp add: walk_next_def y_step_def distrib_left)
    have e': "?err + (if - DY \<le> 2 * ?err then - DY else 0) + (if 2 * ?err \<le> DX then DX else 0)
        = walk_err DX DY ?a' ?b'"
      by (simp add: walk_err_next x_step_def y_step_def)
    have call: "bresenham_loop DX sx (- DY) sy x1 y1 ?x ?y ?err pts =
       bresenham_loop DX sx (- DY) sy x1 y1 (x0 + sx * ?a') (y0 + sy * ?b')
         (walk_err DX DY ?a' ?b') ?pts'"
    proof -
      have ne: "\<not> (?x = x1 \<and> ?y = y1)" using False end_iff by simp
      show ?thesis by (subst bresenham_loop_unfold_step [OF ne]) (simp only: ax by' e')
    qed
    have ok': "walk_ok DX DY ?a' ?b'"
      using walk_next_ok [OF ok False] .
    have IH: "bresenham_loop DX sx (- DY) sy x1 y1 (x0 + sx * ?a') (y0 + sy * ?b')
         (walk_err DX DY ?a' ?b') ?pts' = Some (?pts' @ map (to_octant x0 y0 sx sy) (bres_walk DX DY ?a' ?b'))"
      using "1.IH" False ok x1 y1 ok' by blast
    show ?thesis
      using False ok by (simp add: call IH bres_walk_step to_octant_def)
  qed
qed

section \<open>The C++ function refines the walk\<close>

lemma bresenhamLine_eq_walk:
  "bresenhamLine x0 y0 x1 y1 =
     Some (map (to_octant x0 y0 (if x0 < x1 then 1 else - 1) (if y0 < y1 then 1 else - 1))
               (bres_walk \<bar>x1 - x0\<bar> \<bar>y1 - y0\<bar> 0 0))"
proof -
  let ?sx = "if x0 < x1 then 1 else - 1 :: int" and ?sy = "if y0 < y1 then 1 else - 1 :: int"
  let ?DX = "\<bar>x1 - x0\<bar>" and ?DY = "\<bar>y1 - y0\<bar>"
  have "x1 = x0 + ?sx * ?DX" "y1 = y0 + ?sy * ?DY" by auto
  moreover have "walk_ok ?DX ?DY 0 0" by (simp add: walk_ok_def)
  moreover have "?DX + - ?DY = walk_err ?DX ?DY 0 0" by (simp add: walk_err_def)
  ultimately show ?thesis
    using bresenham_loop_walk [of ?sx ?sy x1 x0 ?DX y1 y0 ?DY 0 0 "[]"]
    by (simp add: bresenhamLine_def Let_def)
qed

section \<open>Properties of the walk\<close>

text \<open>
  Induction along one walk: the distances \<open>DX, DY\<close> stay fixed, only the counters move.
\<close>

lemma bres_walk_fixed_induct [case_names step]:
  assumes "\<And>a b. (\<lbrakk>walk_ok DX DY a b; \<not> (a = DX \<and> b = DY)\<rbrakk> \<Longrightarrow>
                      P (fst (walk_next DX DY a b)) (snd (walk_next DX DY a b))) \<Longrightarrow> P a b"
  shows "P a b"
proof -
  have "DX' = DX \<longrightarrow> DY' = DY \<longrightarrow> P a b" for DX' DY'
  proof (induction DX' DY' a b rule: bres_walk.induct)
    case (1 DX' DY' a b)
    show ?case
    proof (intro impI)
      assume eq: "DX' = DX" "DY' = DY"
      show "P a b" by (rule assms) (use "1.IH" eq in simp)
    qed
  qed
  then show ?thesis by simp
qed

lemma bres_walk_all:
  assumes "P a b"
    and step: "\<And>a b. P a b \<Longrightarrow> walk_ok DX DY a b \<Longrightarrow> \<not> (a = DX \<and> b = DY) \<Longrightarrow>
                 P (fst (walk_next DX DY a b)) (snd (walk_next DX DY a b))"
  shows "\<forall>p \<in> set (bres_walk DX DY a b). P (fst p) (snd p)"
  using assms(1)
proof (induction a b rule: bres_walk_fixed_induct [of DX DY])
  case (step a b)
  show ?case
  proof (cases "(a = DX \<and> b = DY) \<or> \<not> walk_ok DX DY a b")
    case True
    with step.prems show ?thesis by (simp add: bres_walk_stop)
  next
    case False
    with step show ?thesis by (simp add: bres_walk_step assms(2))
  qed
qed

lemma bres_walk_hd: "hd (bres_walk DX DY a b) = (a, b)"
  by (subst bres_walk.simps) simp

lemma bres_walk_not_Nil: "bres_walk DX DY a b \<noteq> []"
  by (subst bres_walk.simps) simp

lemma bres_walk_last: "walk_ok DX DY a b \<Longrightarrow> last (bres_walk DX DY a b) = (DX, DY)"
proof (induction a b rule: bres_walk_fixed_induct [of DX DY])
  case (step a b)
  then show ?case
    using walk_next_ok [of DX DY a b]
    by (cases "a = DX \<and> b = DY") (auto simp: bres_walk_stop bres_walk_step bres_walk_not_Nil)
qed

lemma bres_walk_ok_all:
  "walk_ok DX DY a b \<Longrightarrow> \<forall>p \<in> set (bres_walk DX DY a b). walk_ok DX DY (fst p) (snd p)"
  by (rule bres_walk_all) (auto intro: walk_next_ok)

text \<open>Each step moves one cell right, up, or diagonally, in counter coordinates.\<close>

definition walk_adjacent :: "int \<times> int \<Rightarrow> int \<times> int \<Rightarrow> bool" where
  "walk_adjacent p q \<longleftrightarrow>
     q = (fst p + 1, snd p) \<or> q = (fst p, snd p + 1) \<or> q = (fst p + 1, snd p + 1)"

lemma walk_next_adjacent:
  "walk_ok DX DY a b \<Longrightarrow> walk_adjacent (a, b) (walk_next DX DY a b)"
  using walk_progress [of DX DY a b] by (auto simp: walk_adjacent_def walk_next_def)

lemma bres_walk_successively: "successively walk_adjacent (bres_walk DX DY a b)"
proof (induction a b rule: bres_walk_fixed_induct [of DX DY])
  case (step a b)
  show ?case
  proof (cases "(a = DX \<and> b = DY) \<or> \<not> walk_ok DX DY a b")
    case True
    then show ?thesis by (simp add: bres_walk_stop)
  next
    case False
    then show ?thesis
      using step walk_next_adjacent [of DX DY a b]
      by (simp add: bres_walk_step successively_Cons bres_walk_hd bres_walk_not_Nil)
  qed
qed

lemma bres_walk_distinct: "distinct (bres_walk DX DY a b)"
proof -
  let ?s = "\<lambda>p :: int \<times> int. fst p + snd p"
  have "successively (\<lambda>p q. ?s p < ?s q) (bres_walk DX DY a b)"
    by (rule successively_mono [OF bres_walk_successively]) (auto simp: walk_adjacent_def)
  then have "sorted_wrt (<) (map ?s (bres_walk DX DY a b))"
    by (simp add: successively_map successively_conv_sorted_wrt [symmetric] transp_def)
  then show ?thesis
    by (simp add: strict_sorted_iff distinct_map)
qed

section \<open>The walk invariant: range of the error term and the driving axis\<close>

text \<open>
  At every cell of the walk the error term lies in \<open>[-2 DY, 2 DX]\<close>, and along the
  longer axis a step is always taken: this gives the number of cells.
\<close>

definition walk_inv :: "int \<Rightarrow> int \<Rightarrow> int \<Rightarrow> int \<Rightarrow> bool" where
  "walk_inv DX DY a b \<longleftrightarrow> walk_ok DX DY a b \<and>
     - 2 * DY \<le> walk_err DX DY a b \<and> walk_err DX DY a b \<le> 2 * DX \<and>
     (DY \<le> DX \<longrightarrow> x_step DX DY a b) \<and> (DX \<le> DY \<longrightarrow> y_step DX DY a b)"

lemma walk_inv_start: "0 \<le> DX \<Longrightarrow> 0 \<le> DY \<Longrightarrow> walk_inv DX DY 0 0"
  by (simp add: walk_inv_def walk_ok_def walk_err_def x_step_def y_step_def)

lemma walk_inv_next:
  assumes "walk_inv DX DY a b" "\<not> (a = DX \<and> b = DY)"
  shows "walk_inv DX DY (fst (walk_next DX DY a b)) (snd (walk_next DX DY a b))"
proof -
  have ok: "walk_ok DX DY a b" using assms(1) by (simp add: walk_inv_def)
  have "walk_ok DX DY (fst (walk_next DX DY a b)) (snd (walk_next DX DY a b))"
    by (rule walk_next_ok [OF ok assms(2)])
  moreover have "0 \<le> DX" "0 \<le> DY" using ok by (auto simp: walk_ok_def)
  ultimately show ?thesis
    using assms(1) walk_err_next [of DX DY a b]
    unfolding walk_inv_def x_step_def [of DX DY "fst _"] y_step_def [of DX DY "fst _"]
    by (auto simp: x_step_def y_step_def split: if_splits)
qed

lemma bres_walk_inv_all:
  "walk_inv DX DY a b \<Longrightarrow> \<forall>p \<in> set (bres_walk DX DY a b). walk_inv DX DY (fst p) (snd p)"
  by (rule bres_walk_all) (auto intro: walk_inv_next)

lemma bres_walk_length_x:
  "walk_inv DX DY a b \<Longrightarrow> DY \<le> DX \<Longrightarrow> length (bres_walk DX DY a b) = nat (DX - a) + 1"
proof (induction a b rule: bres_walk_fixed_induct [of DX DY])
  case (step a b)
  have ok: "walk_ok DX DY a b" and xs: "x_step DX DY a b"
    using step.prems by (auto simp: walk_inv_def)
  show ?case
  proof (cases "a = DX \<and> b = DY")
    case True
    then show ?thesis by (simp add: bres_walk_stop)
  next
    case False
    have "a < DX" by (rule x_step_no_overshoot [OF ok False xs])
    moreover have "walk_inv DX DY (fst (walk_next DX DY a b)) (snd (walk_next DX DY a b))"
      by (rule walk_inv_next [OF step.prems(1) False])
    ultimately show ?thesis
      using step ok False xs by (simp add: bres_walk_step walk_next_def)
  qed
qed

lemma bres_walk_length_y:
  "walk_inv DX DY a b \<Longrightarrow> DX \<le> DY \<Longrightarrow> length (bres_walk DX DY a b) = nat (DY - b) + 1"
proof (induction a b rule: bres_walk_fixed_induct [of DX DY])
  case (step a b)
  have ok: "walk_ok DX DY a b" and ys: "y_step DX DY a b"
    using step.prems by (auto simp: walk_inv_def)
  show ?case
  proof (cases "a = DX \<and> b = DY")
    case True
    then show ?thesis by (simp add: bres_walk_stop)
  next
    case False
    have "b < DY" by (rule y_step_no_overshoot [OF ok False ys])
    moreover have "walk_inv DX DY (fst (walk_next DX DY a b)) (snd (walk_next DX DY a b))"
      by (rule walk_inv_next [OF step.prems(1) False])
    ultimately show ?thesis
      using step ok False ys by (simp add: bres_walk_step walk_next_def)
  qed
qed

lemma bres_walk_length:
  "0 \<le> DX \<Longrightarrow> 0 \<le> DY \<Longrightarrow> length (bres_walk DX DY 0 0) = nat (max DX DY) + 1"
  using bres_walk_length_x [OF walk_inv_start] bres_walk_length_y [OF walk_inv_start]
  by (cases "DY \<le> DX") (auto simp: max_def)

section \<open>Lines along an axis\<close>

lemma bres_walk_horizontal:
  "0 \<le> a \<Longrightarrow> a \<le> DX \<Longrightarrow> bres_walk DX 0 a 0 = map (\<lambda>a. (a, 0)) [a..DX]"
proof (induction a "0::int" rule: bres_walk_fixed_induct [of DX 0])
  case (step a)
  show ?case
  proof (cases "a = DX")
    case True
    then show ?thesis by (simp add: bres_walk_stop)
  next
    case False
    with step.prems have "walk_next DX 0 a 0 = (a + 1, 0)"
      by (simp add: walk_next_def x_step_def y_step_def walk_err_def)
    with step False show ?thesis
      by (simp add: bres_walk_step walk_ok_def upto_rec1 [of a DX])
  qed
qed

lemma bres_walk_vertical:
  "0 \<le> b \<Longrightarrow> b \<le> DY \<Longrightarrow> bres_walk 0 DY 0 b = map (\<lambda>b. (0, b)) [b..DY]"
proof (induction "0::int" b rule: bres_walk_fixed_induct [of 0 DY])
  case (step b)
  show ?case
  proof (cases "b = DY")
    case True
    then show ?thesis by (simp add: bres_walk_stop)
  next
    case False
    with step.prems have "walk_next 0 DY 0 b = (0, b + 1)"
      by (simp add: walk_next_def x_step_def y_step_def walk_err_def)
    with step False show ?thesis
      by (simp add: bres_walk_step walk_ok_def upto_rec1 [of b DY])
  qed
qed

section \<open>Properties of \<open>bresenhamLine\<close>\<close>

lemma unit_signs: "(if (p::int) < q then 1 else - 1) = 1 \<or> (if p < q then 1 else - 1) = (- 1 :: int)"
  by simp

lemma to_octant_inj: "sx = 1 \<or> sx = - 1 \<Longrightarrow> sy = 1 \<or> sy = - 1 \<Longrightarrow> inj (to_octant x0 y0 sx sy)"
  by (auto simp: inj_def to_octant_def)

lemma to_octant_adjacent:
  "sx = 1 \<or> sx = - 1 \<Longrightarrow> sy = 1 \<or> sy = - 1 \<Longrightarrow> walk_adjacent p q \<Longrightarrow>
     to_octant x0 y0 sx sy p \<noteq> to_octant x0 y0 sx sy q \<and>
     \<bar>fst (to_octant x0 y0 sx sy q) - fst (to_octant x0 y0 sx sy p)\<bar> \<le> 1 \<and>
     \<bar>snd (to_octant x0 y0 sx sy q) - snd (to_octant x0 y0 sx sy p)\<bar> \<le> 1"
  by (auto simp: walk_adjacent_def to_octant_def)

lemma to_octant_end:
  "to_octant x0 y0 (if x0 < x1 then 1 else - 1) (if y0 < y1 then 1 else - 1)
     (\<bar>x1 - x0\<bar>, \<bar>y1 - y0\<bar>) = (x1, y1)"
  by (auto simp: to_octant_def)

text \<open>C7: the C++ loop always returns; the line starts at the source and ends at the destination.\<close>

theorem bresenhamLine_endpoints:
  "\<exists>ps. bresenhamLine x0 y0 x1 y1 = Some ps \<and> ps \<noteq> [] \<and> hd ps = (x0, y0) \<and> last ps = (x1, y1)"
proof -
  let ?w = "bres_walk \<bar>x1 - x0\<bar> \<bar>y1 - y0\<bar> 0 0"
  have "walk_ok \<bar>x1 - x0\<bar> \<bar>y1 - y0\<bar> 0 0" by (simp add: walk_ok_def)
  then have "last ?w = (\<bar>x1 - x0\<bar>, \<bar>y1 - y0\<bar>)" by (rule bres_walk_last)
  then show ?thesis
    by (simp add: bresenhamLine_eq_walk bres_walk_not_Nil hd_map last_map bres_walk_hd
        to_octant_end) (simp add: to_octant_def)
qed

text \<open>C8: consecutive cells are distinct 8-neighbours, and no cell is visited twice.\<close>

theorem bresenhamLine_connected:
  "\<exists>ps. bresenhamLine x0 y0 x1 y1 = Some ps \<and> distinct ps \<and>
     successively (\<lambda>p q. p \<noteq> q \<and> \<bar>fst q - fst p\<bar> \<le> 1 \<and> \<bar>snd q - snd p\<bar> \<le> 1) ps"
proof -
  let ?sx = "if x0 < x1 then 1 else - 1 :: int" and ?sy = "if y0 < y1 then 1 else - 1 :: int"
  let ?f = "to_octant x0 y0 ?sx ?sy" and ?w = "bres_walk \<bar>x1 - x0\<bar> \<bar>y1 - y0\<bar> 0 0"
  have sx: "?sx = 1 \<or> ?sx = - 1" and sy: "?sy = 1 \<or> ?sy = - 1" by simp_all
  have inj: "inj ?f" by (rule to_octant_inj [OF sx sy])
  have "distinct (map ?f ?w)"
    by (rule distinct_map [THEN iffD2]) (use bres_walk_distinct inj_on_subset [OF inj subset_UNIV] in blast)
  moreover have "successively (\<lambda>p q. ?f p \<noteq> ?f q \<and> \<bar>fst (?f q) - fst (?f p)\<bar> \<le> 1 \<and>
      \<bar>snd (?f q) - snd (?f p)\<bar> \<le> 1) ?w"
    by (rule successively_mono [OF bres_walk_successively])
       (rule to_octant_adjacent [OF sx sy])
  ultimately show ?thesis
    by (simp add: bresenhamLine_eq_walk successively_map)
qed

text \<open>The line has one cell per unit of its longer axis, end points included.\<close>

theorem bresenhamLine_length:
  "\<exists>ps. bresenhamLine x0 y0 x1 y1 = Some ps \<and>
     length ps = nat (max \<bar>x1 - x0\<bar> \<bar>y1 - y0\<bar>) + 1"
  by (simp add: bresenhamLine_eq_walk bres_walk_length)

text \<open>A horizontal segment is the run of cells from its left to its right end.\<close>

lemma bresenhamLine_horizontal:
  "x0 \<le> x1 \<Longrightarrow> bresenhamLine x0 y x1 y = Some (map (\<lambda>x. (x, y)) [x0..x1])"
proof -
  assume le: "x0 \<le> x1"
  let ?s = "if x0 < x1 then 1 else - 1 :: int"
  have "map (to_octant x0 y ?s (- 1)) (map (\<lambda>a. (a, 0)) [0..x1 - x0]) = map (\<lambda>x. (x, y)) [x0..x1]"
  proof (cases "x0 < x1")
    case True
    have "map (\<lambda>a. x0 + a) [0..x1 - x0] = [x0..x1]" by (simp add: map_shift_upto)
    then have "map (\<lambda>x. (x, y)) (map (\<lambda>a. x0 + a) [0..x1 - x0]) = map (\<lambda>x. (x, y)) [x0..x1]"
      by simp
    with True show ?thesis by (simp add: to_octant_def comp_def)
  next
    case False
    with le show ?thesis by (simp add: to_octant_def)
  qed
  with le show ?thesis
    by (simp add: bresenhamLine_eq_walk bres_walk_horizontal)
qed

text \<open>A vertical segment is likewise the run of cells from its lower to its upper end.\<close>

lemma bresenhamLine_vertical:
  "y0 \<le> y1 \<Longrightarrow> bresenhamLine x y0 x y1 = Some (map (\<lambda>y. (x, y)) [y0..y1])"
proof -
  assume le: "y0 \<le> y1"
  let ?s = "if y0 < y1 then 1 else - 1 :: int"
  have "map (to_octant x y0 (- 1) ?s) (map (\<lambda>b. (0, b)) [0..y1 - y0]) = map (\<lambda>y. (x, y)) [y0..y1]"
  proof (cases "y0 < y1")
    case True
    have "map (\<lambda>b. y0 + b) [0..y1 - y0] = [y0..y1]" by (simp add: map_shift_upto)
    then have "map (\<lambda>y. (x, y)) (map (\<lambda>b. y0 + b) [0..y1 - y0]) = map (\<lambda>y. (x, y)) [y0..y1]"
      by simp
    with True show ?thesis by (simp add: to_octant_def comp_def)
  next
    case False
    with le show ?thesis by (simp add: to_octant_def)
  qed
  with le show ?thesis
    by (simp add: bresenhamLine_eq_walk bres_walk_vertical)
qed

section \<open>The loop at 32 bits\<close>

lemma bresenham_loop32_unfold_stop:
  "bresenham_loop32 dx sx dy sy x y x y err pts = Some (pts @ [(x, y)])"
  by (subst bresenham_loop32.simps) simp

text \<open>When no operation of an iteration overflows, it does what the unbounded iteration does.\<close>

lemma bresenham_loop32_unfold_step:
  assumes "\<not> (x = x1 \<and> y = y1)" "int32 (2 * err)" "int32 (err + dy)" "int32 (x + sx)"
    "int32 (err + dy + dx)" "int32 (err + dx)" "int32 (y + sy)"
  shows "bresenham_loop32 dx sx dy sy x1 y1 x y err pts =
   bresenham_loop32 dx sx dy sy x1 y1 (if dy \<le> 2 * err then x + sx else x)
     (if 2 * err \<le> dx then y + sy else y)
     (err + (if dy \<le> 2 * err then dy else 0) + (if 2 * err \<le> dx then dx else 0))
     (pts @ [(x, y)])"
proof -
  have ne: "(x = x1 \<and> y = y1) = False" using assms(1) by simp
  have c: "c_mul 2 err = Some (2 * err)" "c_add err dy = Some (err + dy)" "c_add x sx = Some (x + sx)"
    "c_add (err + dy) dx = Some (err + dy + dx)" "c_add err dx = Some (err + dx)" "c_add y sy = Some (y + sy)"
    using assms(2-) by (simp_all add: c_add_def c_mul_def c_int_def)
  show ?thesis
    by (subst bresenham_loop32.simps, cases "dy \<le> 2 * err"; cases "2 * err \<le> dx") (simp_all add: Let_def ne c)
qed

lemma int32_walk_coord:
  "\<bar>x0\<bar> < 2^28 \<Longrightarrow> 0 \<le> a \<Longrightarrow> a < 2^29 \<Longrightarrow> sx = 1 \<or> sx = - 1 \<Longrightarrow> int32 (x0 + sx * a + sx)"
  by (auto simp: int32_def INT_MIN_def INT_MAX_def abs_less_iff)

lemma int32_walk_err:
  "- 2 * DY \<le> e \<Longrightarrow> e \<le> 2 * DX \<Longrightarrow> 0 \<le> DX \<Longrightarrow> 0 \<le> DY \<Longrightarrow> DX < 2^29 \<Longrightarrow> DY < 2^29 \<Longrightarrow>
   int32 (2 * e) \<and> int32 (e + - DY) \<and> int32 (e + - DY + DX) \<and> int32 (e + DX)"
  by (simp add: int32_def INT_MIN_def INT_MAX_def)

text \<open>
  Along the walk, with distances below \<open>2^29\<close> and a start below \<open>2^28\<close>, the 32-bit loop
  and the unbounded loop agree.
\<close>

lemma bresenham_loop32_walk:
  assumes sx: "sx = 1 \<or> sx = - 1" and sy: "sy = 1 \<or> sy = - 1"
    and b0: "\<bar>x0\<bar> < 2^28" "\<bar>y0\<bar> < 2^28"
  shows "DX < 2^29 \<Longrightarrow> DY < 2^29 \<Longrightarrow> x1 = x0 + sx * DX \<Longrightarrow> y1 = y0 + sy * DY \<Longrightarrow> walk_inv DX DY a b \<Longrightarrow>
    bresenham_loop32 DX sx (- DY) sy x1 y1 (x0 + sx * a) (y0 + sy * b) (walk_err DX DY a b) pts =
    bresenham_loop DX sx (- DY) sy x1 y1 (x0 + sx * a) (y0 + sy * b) (walk_err DX DY a b) pts"
proof (induction DX DY a b arbitrary: pts rule: bres_walk.induct)
  case (1 DX DY a b)
  note bd = "1.prems"(1,2) and x1 = "1.prems"(3) and y1 = "1.prems"(4) and inv = "1.prems"(5)
  let ?x = "x0 + sx * a" and ?y = "y0 + sy * b" and ?err = "walk_err DX DY a b"
  let ?a' = "fst (walk_next DX DY a b)" and ?b' = "snd (walk_next DX DY a b)"
  have ok: "walk_ok DX DY a b" using inv by (simp add: walk_inv_def)
  have end_iff: "(?x = x1 \<and> ?y = y1) = (a = DX \<and> b = DY)"
    using sx sy by (auto simp: x1 y1)
  show ?case
  proof (cases "a = DX \<and> b = DY")
    case True
    then show ?thesis by (simp add: x1 y1 bresenham_loop32_unfold_stop bresenham_loop_unfold_stop)
  next
    case False
    have ne: "\<not> (?x = x1 \<and> ?y = y1)" using False end_iff by simp
    have r: "0 \<le> a" "a \<le> DX" "0 \<le> b" "b \<le> DY" "- 2 * DY \<le> ?err" "?err \<le> 2 * DX"
      using inv by (simp_all add: walk_inv_def walk_ok_def)
    have e32: "int32 (2 * ?err) \<and> int32 (?err + - DY) \<and> int32 (?err + - DY + DX) \<and> int32 (?err + DX)"
      using int32_walk_err [of DY ?err DX] r bd by linarith
    have c32: "int32 (?x + sx)" "int32 (?y + sy)"
      using int32_walk_coord [OF b0(1) r(1) _ sx] int32_walk_coord [OF b0(2) r(3) _ sy] r bd by auto
    have ax: "(if - DY \<le> 2 * ?err then ?x + sx else ?x) = x0 + sx * ?a'"
      by (simp add: walk_next_def x_step_def distrib_left)
    have by': "(if 2 * ?err \<le> DX then ?y + sy else ?y) = y0 + sy * ?b'"
      by (simp add: walk_next_def y_step_def distrib_left)
    have e': "?err + (if - DY \<le> 2 * ?err then - DY else 0) + (if 2 * ?err \<le> DX then DX else 0)
        = walk_err DX DY ?a' ?b'"
      by (simp add: walk_err_next x_step_def y_step_def)
    have l: "bresenham_loop32 DX sx (- DY) sy x1 y1 ?x ?y ?err pts =
       bresenham_loop32 DX sx (- DY) sy x1 y1 (x0 + sx * ?a') (y0 + sy * ?b') (walk_err DX DY ?a' ?b')
         (pts @ [(?x, ?y)])"
      using e32 r by (subst bresenham_loop32_unfold_step [OF ne _ _ c32(1) _ _ c32(2)]) (simp_all only: ax by' e')
    have u: "bresenham_loop DX sx (- DY) sy x1 y1 ?x ?y ?err pts =
       bresenham_loop DX sx (- DY) sy x1 y1 (x0 + sx * ?a') (y0 + sy * ?b') (walk_err DX DY ?a' ?b')
         (pts @ [(?x, ?y)])"
      by (subst bresenham_loop_unfold_step [OF ne]) (simp only: ax by' e')
    have inv': "walk_inv DX DY ?a' ?b'" by (rule walk_inv_next [OF inv False])
    show ?thesis unfolding l u using "1.IH" False ok bd x1 y1 inv' by blast
  qed
qed

text \<open>
  C40: for end points of magnitude below \<open>2^28\<close> the C++ function run with 32-bit
  \<^verbatim>\<open>int\<close>s never overflows (\<open>abs\<close>, the differences, \<open>2 * err\<close> and every update
  included) and returns exactly the cells of the unbounded model; this justifies
  modelling the loop on unbounded integers for every grid the program draws.
\<close>

theorem bresenham_no_int32_overflow:
  assumes "\<bar>x0\<bar> < 2^28" "\<bar>y0\<bar> < 2^28" "\<bar>x1\<bar> < 2^28" "\<bar>y1\<bar> < 2^28"
  shows "bresenhamLine32 x0 y0 x1 y1 = bresenhamLine x0 y0 x1 y1"
proof -
  let ?sx = "if x0 < x1 then 1 else - 1 :: int" and ?sy = "if y0 < y1 then 1 else - 1 :: int"
  define DX DY where "DX = \<bar>x1 - x0\<bar>" and "DY = \<bar>y1 - y0\<bar>"
  have bd: "DX < 2^29" "DY < 2^29" using assms by (simp_all add: DX_def DY_def)
  have l: "x1 - x0 < 2^29" "- (2^29) < x1 - x0" "y1 - y0 < 2^29" "- (2^29) < y1 - y0" "0 \<le> DX" "0 \<le> DY"
    using bd by (simp_all add: DX_def DY_def abs_less_iff)
  have i: "int32 (x1 - x0)" "int32 (y1 - y0)" "int32 DX" "int32 (- DY)" "int32 DY" "int32 (DX + - DY)"
    using l bd by (simp_all add: int32_def INT_MIN_def INT_MAX_def)
  have ops: "c_sub x1 x0 = Some (x1 - x0)" "c_abs (x1 - x0) = Some DX" "c_sub y1 y0 = Some (y1 - y0)"
    "c_abs (y1 - y0) = Some DY" "c_int (- DY) = Some (- DY)" "c_add DX (- DY) = Some (walk_err DX DY 0 0)"
    using i by (simp_all add: c_sub_def c_abs_def c_add_def c_int_def walk_err_def DX_def [symmetric] DY_def [symmetric])
  have w: "bresenham_loop32 DX ?sx (- DY) ?sy x1 y1 (x0 + ?sx * 0) (y0 + ?sy * 0) (walk_err DX DY 0 0) [] =
           bresenham_loop DX ?sx (- DY) ?sy x1 y1 (x0 + ?sx * 0) (y0 + ?sy * 0) (walk_err DX DY 0 0) []"
    by (rule bresenham_loop32_walk [OF _ _ assms(1,2) bd])
       (auto simp: DX_def DY_def intro: walk_inv_start)
  have l32: "bresenhamLine32 x0 y0 x1 y1 = bresenham_loop32 DX ?sx (- DY) ?sy x1 y1 x0 y0 (walk_err DX DY 0 0) []"
    by (simp add: bresenhamLine32_def ops)
  have l: "bresenhamLine x0 y0 x1 y1 = bresenham_loop DX ?sx (- DY) ?sy x1 y1 x0 y0 (walk_err DX DY 0 0) []"
    by (simp add: bresenhamLine_def Let_def DX_def DY_def walk_err_def)
  show ?thesis using w by (simp add: l32 l)
qed

theorem bresenham_no_int32_overflow_witness:
  "\<bar>0::int\<bar> < 2^28 \<and> \<bar>0::int\<bar> < 2^28 \<and> \<bar>3::int\<bar> < 2^28 \<and> \<bar>1::int\<bar> < 2^28 \<and>
   bresenhamLine32 0 0 3 1 = bresenhamLine 0 0 3 1"
  using bresenham_no_int32_overflow [of 0 0 3 1] by simp

end
