(* ===== verification/Raster_Circle.thy ===== *)
theory Raster_Circle
  imports Prelude
begin

text \<open>
  The circle rasteriser of \<^verbatim>\<open>src/src/algorithms/algorithms.cpp\<close>
  (\<^verbatim>\<open>midpointCircle\<close>). The loop's locals \<open>x, y, dx, dy, err\<close> form the record
  \<open>midpoint_state\<close>; one pass of the loop body is \<open>midpoint_step\<close>, the eight mirrored
  points it appends are \<open>octant8\<close>. The loop terminates because \<open>y\<close> grows by one and
  \<open>x\<close> never grows. The invariant \<open>circle_inv\<close> ties the accumulated \<open>dx, dy, err\<close>
  to \<open>x, y, r\<close> and brackets every emitted octant point between the two midpoints
  \<open>(x \<plusminus> 1/2, y - 1/2)\<close> (all scaled by two to stay in the integers); from it follow
  the distance bounds of the emitted points. The \<^verbatim>\<open>int\<close> locals are unbounded
  integers: \<^verbatim>\<open>r << 1\<close> and \<^verbatim>\<open>err << 1\<close> overflow a 32-bit \<^verbatim>\<open>int\<close> once \<open>r\<close> reaches
  \<open>2^30\<close>, which no overflow bound here excludes (the program never calls the function).
\<close>

section \<open>The C++ loop\<close>

record midpoint_state =
  mx :: int
  my :: int
  mdx :: int
  mdy :: int
  merr :: int

text \<open>The eight points mirrored from the octant point \<open>(x, y)\<close>, in the order of the source.\<close>

definition octant8 :: "int \<Rightarrow> int \<Rightarrow> int \<Rightarrow> int \<Rightarrow> cell list" where
  "octant8 cx cy x y =
     [(cx + x, cy + y), (cx + y, cy + x), (cx - y, cy + x), (cx - x, cy + y),
      (cx - x, cy - y), (cx - y, cy - x), (cx + y, cy - x), (cx + x, cy - y)]"

text \<open>
  The updates after the points are emitted: \<open>y++; err += dy; dy += 2;\<close> and, when
  \<open>(err << 1) + dx > 0\<close>, \<open>x--; err += dx; dx += 2;\<close>. The shift \<open>err << 1\<close> is
  \<open>2 * err\<close> (the value range is bounded by \<open>circle_inv\<close>).
\<close>

definition midpoint_step :: "midpoint_state \<Rightarrow> midpoint_state" where
  "midpoint_step s =
     (let s1 = s\<lparr>my := my s + 1, merr := merr s + mdy s, mdy := mdy s + 2\<rparr>
      in if 2 * merr s1 + mdx s1 > 0
         then s1\<lparr>mx := mx s1 - 1, merr := merr s1 + mdx s1, mdx := mdx s1 + 2\<rparr>
         else s1)"

lemma midpoint_step_y [simp]: "my (midpoint_step s) = my s + 1"
  by (simp add: midpoint_step_def Let_def)

lemma midpoint_step_x_le: "mx (midpoint_step s) \<le> mx s"
  by (simp add: midpoint_step_def Let_def)

lemma midpoint_step_measure:
  "my s \<le> mx s \<Longrightarrow> nat (mx (midpoint_step s) - my (midpoint_step s) + 1) < nat (mx s - my s + 1)"
  using midpoint_step_x_le [of s] by simp

function circle_loop :: "int \<Rightarrow> int \<Rightarrow> midpoint_state \<Rightarrow> cell list \<Rightarrow> cell list" where
  "circle_loop cx cy s pts =
     (if my s \<le> mx s then circle_loop cx cy (midpoint_step s) (pts @ octant8 cx cy (mx s) (my s))
      else pts)"
  by pat_completeness auto
termination
  by (relation "measure (\<lambda>(cx, cy, s, pts). nat (mx s - my s + 1))")
     (use midpoint_step_measure in simp_all)

declare circle_loop.simps [simp del]

text \<open>\<open>r << 1\<close> is \<open>2 * r\<close>.\<close>

definition midpoint_start :: "int \<Rightarrow> midpoint_state" where
  "midpoint_start r = \<lparr>mx = r, my = 0, mdx = 1 - 2 * r, mdy = 0, merr = 0\<rparr>"

definition midpointCircle :: "int \<Rightarrow> int \<Rightarrow> int \<Rightarrow> cell list" where
  "midpointCircle cx cy r = circle_loop cx cy (midpoint_start r) []"

section \<open>Unfolding the loop\<close>

lemma circle_loop_stop: "\<not> my s \<le> mx s \<Longrightarrow> circle_loop cx cy s pts = pts"
  by (subst circle_loop.simps) simp

lemma circle_loop_step:
  "my s \<le> mx s \<Longrightarrow>
     circle_loop cx cy s pts = circle_loop cx cy (midpoint_step s) (pts @ octant8 cx cy (mx s) (my s))"
  by (subst circle_loop.simps) simp

text \<open>
  Induction along the loop with the centre fixed; the accumulated points are the
  accumulator of the source's \<^verbatim>\<open>pts\<close> vector.
\<close>

lemma circle_loop_fixed_induct [case_names step]:
  assumes "\<And>s pts. (my s \<le> mx s \<Longrightarrow> P (midpoint_step s) (pts @ octant8 cx cy (mx s) (my s))) \<Longrightarrow> P s pts"
  shows "P s pts"
proof -
  have "cx' = cx \<longrightarrow> cy' = cy \<longrightarrow> P s pts" for cx' cy'
  proof (induction cx' cy' s pts rule: circle_loop.induct)
    case (1 cx' cy' s pts)
    show ?case
    proof (intro impI)
      assume eq: "cx' = cx" "cy' = cy"
      show "P s pts" by (rule assms) (use "1.IH" eq in simp)
    qed
  qed
  then show ?thesis by simp
qed

lemma circle_loop_all:
  assumes "I s" "\<forall>p \<in> set pts. Q p"
    and keep: "\<And>s. I s \<Longrightarrow> my s \<le> mx s \<Longrightarrow> I (midpoint_step s)"
    and out: "\<And>s p. I s \<Longrightarrow> my s \<le> mx s \<Longrightarrow> p \<in> set (octant8 cx cy (mx s) (my s)) \<Longrightarrow> Q p"
  shows "\<forall>p \<in> set (circle_loop cx cy s pts). Q p"
  using assms(1,2)
proof (induction s pts rule: circle_loop_fixed_induct [where cx = cx and cy = cy])
  case (step s pts)
  show ?case
  proof (cases "my s \<le> mx s")
    case True
    have "I (midpoint_step s)" by (rule keep [OF step.prems(1) True])
    moreover have "\<forall>p \<in> set (pts @ octant8 cx cy (mx s) (my s)). Q p"
      using step.prems(2) out [OF step.prems(1) True] by auto
    ultimately show ?thesis
      using step.IH [OF True] by (simp add: circle_loop_step [OF True])
  next
    case False
    with step.prems show ?thesis by (simp add: circle_loop_stop)
  qed
qed

lemma circle_loop_prefix: "set pts \<subseteq> set (circle_loop cx cy s pts)"
proof (induction s pts rule: circle_loop_fixed_induct [where cx = cx and cy = cy])
  case (step s pts)
  then show ?case
    by (cases "my s \<le> mx s") (auto simp: circle_loop_step circle_loop_stop)
qed

lemma circle_loop_length:
  "\<exists>k. length (circle_loop cx cy s pts) = length pts + 8 * k \<and> k \<le> nat (mx s - my s + 1)"
proof (induction s pts rule: circle_loop_fixed_induct [where cx = cx and cy = cy])
  case (step s pts)
  show ?case
  proof (cases "my s \<le> mx s")
    case True
    with step obtain k where
      k: "length (circle_loop cx cy (midpoint_step s) (pts @ octant8 cx cy (mx s) (my s)))
            = length pts + 8 + 8 * k"
         "k \<le> nat (mx (midpoint_step s) - my s)"
      by (auto simp: octant8_def)
    have "nat (mx (midpoint_step s) - my s) \<le> nat (mx s - my s)"
      using midpoint_step_x_le [of s] by simp
    with True k show ?thesis
      by (intro exI [of _ "Suc k"]) (simp add: circle_loop_step)
  next
    case False
    then show ?thesis by (simp add: circle_loop_stop)
  qed
qed

section \<open>The loop invariant\<close>

text \<open>
  \<open>dx = 1 - 2x\<close>, \<open>dy = 2y\<close> and \<open>err = x\<^sup>2 + y\<^sup>2 - y - r\<^sup>2\<close> at every
  iteration; the octant point lies inside the circle of radius \<open>r\<close> around the midpoint
  \<open>(x + 1/2, y - 1/2)\<close> and, while the loop runs, outside it around \<open>(x - 1/2, y - 1/2)\<close>.
\<close>

definition circle_inv :: "int \<Rightarrow> midpoint_state \<Rightarrow> bool" where
  "circle_inv r s \<longleftrightarrow>
     mdx s = 1 - 2 * mx s \<and> mdy s = 2 * my s \<and>
     merr s = (mx s)\<^sup>2 + (my s)\<^sup>2 - my s - r\<^sup>2 \<and> 0 \<le> my s \<and> mx s \<le> r \<and>
     4 * r\<^sup>2 < (2 * mx s + 1)\<^sup>2 + (2 * my s - 1)\<^sup>2 \<and>
     (my s \<le> mx s \<longrightarrow> (2 * mx s - 1)\<^sup>2 + (2 * my s - 1)\<^sup>2 \<le> 4 * r\<^sup>2)"

lemma circle_inv_start: "1 \<le> r \<Longrightarrow> circle_inv r (midpoint_start r)"
  by (simp add: circle_inv_def midpoint_start_def power2_eq_square algebra_simps)

text \<open>The decision \<open>2 * err + dx > 0\<close> after \<open>y++\<close> is the midpoint test.\<close>

lemma midpoint_decision:
  "2 * (2 * (x\<^sup>2 + y\<^sup>2 - y - r\<^sup>2 + 2 * y) + (1 - 2 * x)) =
     (2 * x - 1)\<^sup>2 + (2 * (y + 1) - 1)\<^sup>2 - 4 * (r::int)\<^sup>2"
  by (simp add: power2_eq_square algebra_simps)

lemma pos_iff_double: "2 * (a::int) = b - c \<Longrightarrow> (0 < a) = (c < b)"
  by arith

lemma square_shift_down: "(2 * (x - 1) - 1)\<^sup>2 = (2 * x - 1)\<^sup>2 - 8 * x + (8::int)"
  by (simp add: power2_eq_square algebra_simps)

lemma square_shift_up: "(2 * (y + 1) - 1)\<^sup>2 = (2 * y - 1)\<^sup>2 + 8 * (y::int)"
  by (simp add: power2_eq_square algebra_simps)

lemma circle_inv_step:
  assumes inv: "circle_inv r s" and guard: "my s \<le> mx s"
  shows "circle_inv r (midpoint_step s)"
proof -
  define x y where "x = mx s" and "y = my s"
  have i: "mdx s = 1 - 2 * x" "mdy s = 2 * y" "merr s = x\<^sup>2 + y\<^sup>2 - y - r\<^sup>2" "0 \<le> y" "x \<le> r"
      "4 * r\<^sup>2 < (2 * x + 1)\<^sup>2 + (2 * y - 1)\<^sup>2" "(2 * x - 1)\<^sup>2 + (2 * y - 1)\<^sup>2 \<le> 4 * r\<^sup>2"
    using inv guard by (simp_all add: circle_inv_def x_def y_def)
  have g: "y \<le> x" using guard by (simp add: x_def y_def)
  have e: "2 * (2 * (merr s + mdy s) + mdx s) = (2 * x - 1)\<^sup>2 + (2 * (y + 1) - 1)\<^sup>2 - 4 * r\<^sup>2"
    using midpoint_decision [of x y r] by (simp only: i(1-3))
  have dec: "(0 < 2 * (merr s + mdy s) + mdx s) = (4 * r\<^sup>2 < (2 * x - 1)\<^sup>2 + (2 * (y + 1) - 1)\<^sup>2)"
    by (rule pos_iff_double [OF e])
  show ?thesis
  proof (cases "0 < 2 * (merr s + mdy s) + mdx s")
    case True
    have err: "x\<^sup>2 + y\<^sup>2 - y - r\<^sup>2 + 2 * y + (1 - 2 * x) = (x - 1)\<^sup>2 + (y + 1)\<^sup>2 - (y + 1) - r\<^sup>2"
      by (simp add: power2_eq_square algebra_simps)
    have "y + 1 \<le> x - 1 \<Longrightarrow> (2 * (x - 1) - 1)\<^sup>2 + (2 * (y + 1) - 1)\<^sup>2 \<le> 4 * r\<^sup>2"
      using i(7) square_shift_down [of x] square_shift_up [of y] by linarith
    moreover have "4 * r\<^sup>2 < (2 * (x - 1) + 1)\<^sup>2 + (2 * (y + 1) - 1)\<^sup>2"
      using True dec by (simp add: algebra_simps)
    ultimately show ?thesis
      using True i err
      by (simp add: midpoint_step_def Let_def circle_inv_def x_def [symmetric] y_def [symmetric]
          algebra_simps)
  next
    case False
    have err: "x\<^sup>2 + y\<^sup>2 - y - r\<^sup>2 + 2 * y = x\<^sup>2 + (y + 1)\<^sup>2 - (y + 1) - r\<^sup>2"
      by (simp add: power2_eq_square algebra_simps)
    have "4 * r\<^sup>2 < (2 * x + 1)\<^sup>2 + (2 * (y + 1) - 1)\<^sup>2"
      using i(4,6) square_shift_up [of y] by linarith
    moreover have "(2 * x - 1)\<^sup>2 + (2 * (y + 1) - 1)\<^sup>2 \<le> 4 * r\<^sup>2"
      using False dec by simp
    ultimately show ?thesis
      using False i err
      by (simp add: midpoint_step_def Let_def circle_inv_def x_def [symmetric] y_def [symmetric]
          algebra_simps)
  qed
qed

text \<open>Every octant point the loop emits for \<open>r \<ge> 1\<close> is within one unit of the circle.\<close>

lemma circle_inv_dist:
  assumes "circle_inv r s" "my s \<le> mx s" "1 \<le> r"
  shows "(r - 1)\<^sup>2 \<le> (mx s)\<^sup>2 + (my s)\<^sup>2 \<and> (mx s)\<^sup>2 + (my s)\<^sup>2 \<le> (r + 1)\<^sup>2"
proof -
  define x y where "x = mx s" and "y = my s"
  have i: "0 \<le> y" "y \<le> x" "x \<le> r"
      "4 * r\<^sup>2 < (2 * x + 1)\<^sup>2 + (2 * y - 1)\<^sup>2" "(2 * x - 1)\<^sup>2 + (2 * y - 1)\<^sup>2 \<le> 4 * r\<^sup>2"
    using assms by (simp_all add: circle_inv_def x_def y_def)
  have up: "x\<^sup>2 + y\<^sup>2 \<le> (r + 1)\<^sup>2"
    using i(1-3,5) by (simp add: power2_eq_square algebra_simps)
  have lo: "(r - 1)\<^sup>2 \<le> x\<^sup>2 + y\<^sup>2"
  proof (cases "r = 1")
    case True
    then show ?thesis by simp
  next
    case False
    with assms(3) i(1-4) show ?thesis by (simp add: power2_eq_square algebra_simps)
  qed
  from up lo show ?thesis by (simp add: x_def y_def)
qed

lemma octant8_dist:
  "p \<in> set (octant8 cx cy x y) \<Longrightarrow> (fst p - cx)\<^sup>2 + (snd p - cy)\<^sup>2 = x\<^sup>2 + y\<^sup>2"
  by (auto simp: octant8_def power2_eq_square)

section \<open>Mirror symmetry of the emitted points\<close>

definition swap_about :: "int \<Rightarrow> int \<Rightarrow> cell \<Rightarrow> cell" where
  "swap_about cx cy p = (cx + (snd p - cy), cy + (fst p - cx))"

definition flip_x :: "int \<Rightarrow> cell \<Rightarrow> cell" where
  "flip_x cx p = (2 * cx - fst p, snd p)"

definition flip_y :: "int \<Rightarrow> cell \<Rightarrow> cell" where
  "flip_y cy p = (fst p, 2 * cy - snd p)"

definition mirror_closed :: "int \<Rightarrow> int \<Rightarrow> cell set \<Rightarrow> cell \<Rightarrow> bool" where
  "mirror_closed cx cy A p \<longleftrightarrow>
     swap_about cx cy p \<in> A \<and> flip_x cx p \<in> A \<and> flip_y cy p \<in> A"

lemma octant8_mirror_closed:
  "p \<in> set (octant8 cx cy x y) \<Longrightarrow> mirror_closed cx cy (set (octant8 cx cy x y)) p"
  unfolding mirror_closed_def swap_about_def flip_x_def flip_y_def
  by (simp add: octant8_def) (elim disjE; simp add: octant8_def)

lemma circle_loop_mirror_closed:
  "p \<in> set (circle_loop cx cy s pts) \<Longrightarrow> p \<notin> set pts \<Longrightarrow>
     mirror_closed cx cy (set (circle_loop cx cy s pts)) p"
proof (induction s pts rule: circle_loop_fixed_induct [where cx = cx and cy = cy])
  case (step s pts)
  show ?case
  proof (cases "my s \<le> mx s")
    case True
    let ?blk = "octant8 cx cy (mx s) (my s)"
    let ?res = "circle_loop cx cy (midpoint_step s) (pts @ ?blk)"
    have res: "circle_loop cx cy s pts = ?res" by (rule circle_loop_step [OF True])
    show ?thesis
    proof (cases "p \<in> set ?blk")
      case True
      have "set ?blk \<subseteq> set ?res" using circle_loop_prefix [of "pts @ ?blk"] by auto
      with octant8_mirror_closed [OF True] show ?thesis
        by (auto simp: res mirror_closed_def)
    next
      case False
      with step.prems have "p \<in> set ?res" "p \<notin> set (pts @ ?blk)" by (auto simp: res)
      with step.IH [OF \<open>my s \<le> mx s\<close>] show ?thesis by (simp add: res)
    qed
  next
    case False
    with step.prems show ?thesis by (simp add: circle_loop_stop)
  qed
qed

section \<open>Properties of \<open>midpointCircle\<close>\<close>

lemma midpointCircle_first:
  "0 \<le> r \<Longrightarrow> set (octant8 cx cy r 0) \<subseteq> set (midpointCircle cx cy r)"
  using circle_loop_prefix [of "[] @ octant8 cx cy r 0" cx cy "midpoint_step (midpoint_start r)"]
  by (simp add: midpointCircle_def circle_loop_step midpoint_start_def)

text \<open>For every radius \<open>r \<ge> 0\<close> the four cardinal points are drawn.\<close>

theorem midpointCircle_cardinal:
  "0 \<le> r \<Longrightarrow>
     {(cx + r, cy), (cx - r, cy), (cx, cy + r), (cx, cy - r)} \<subseteq> set (midpointCircle cx cy r)"
  using midpointCircle_first [of r cx cy] by (auto simp: octant8_def)

theorem midpointCircle_cardinal_witness:
  "0 \<le> (2::int) \<and> {(3 + 2, 3), (3 - 2, 3), (3, 3 + 2), (3, 3 - 2)} \<subseteq> set (midpointCircle 3 3 2)"
  using midpointCircle_cardinal [of 2 3 3] by simp

text \<open>
  C37: for \<open>r \<ge> 1\<close> every drawn point lies within one unit of the circle:
  \<open>(r - 1)\<^sup>2 \<le> (px - cx)\<^sup>2 + (py - cy)\<^sup>2 \<le> (r + 1)\<^sup>2\<close>.
\<close>

theorem midpointCircle_tolerance:
  assumes "1 \<le> r" "p \<in> set (midpointCircle cx cy r)"
  shows "(r - 1)\<^sup>2 \<le> (fst p - cx)\<^sup>2 + (snd p - cy)\<^sup>2 \<and> (fst p - cx)\<^sup>2 + (snd p - cy)\<^sup>2 \<le> (r + 1)\<^sup>2"
proof -
  have "\<forall>p \<in> set (circle_loop cx cy (midpoint_start r) []).
          (r - 1)\<^sup>2 \<le> (fst p - cx)\<^sup>2 + (snd p - cy)\<^sup>2 \<and> (fst p - cx)\<^sup>2 + (snd p - cy)\<^sup>2 \<le> (r + 1)\<^sup>2"
  proof (rule circle_loop_all [where I = "circle_inv r"])
    show "circle_inv r (midpoint_start r)" by (rule circle_inv_start [OF assms(1)])
  next
    fix s assume "circle_inv r s" "my s \<le> mx s"
    then show "circle_inv r (midpoint_step s)" by (rule circle_inv_step)
  next
    fix s q assume "circle_inv r s" "my s \<le> mx s" "q \<in> set (octant8 cx cy (mx s) (my s))"
    then show "(r - 1)\<^sup>2 \<le> (fst q - cx)\<^sup>2 + (snd q - cy)\<^sup>2 \<and> (fst q - cx)\<^sup>2 + (snd q - cy)\<^sup>2 \<le> (r + 1)\<^sup>2"
      using circle_inv_dist [OF _ _ assms(1)] octant8_dist by metis
  qed simp
  with assms(2) show ?thesis by (simp add: midpointCircle_def)
qed

lemma midpointCircle_r1:
  "midpointCircle cx cy 1 = octant8 cx cy 1 0 @ octant8 cx cy 1 1"
  by (simp add: midpointCircle_def midpoint_start_def circle_loop_step circle_loop_stop
      midpoint_step_def)

theorem midpointCircle_tolerance_witness:
  "1 \<le> (1::int) \<and> (4, 4) \<in> set (midpointCircle 3 3 1) \<and>
   ((1::int) - 1)\<^sup>2 \<le> ((4::int) - 3)\<^sup>2 + ((4::int) - 3)\<^sup>2 \<and>
   ((4::int) - 3)\<^sup>2 + ((4::int) - 3)\<^sup>2 \<le> ((1::int) + 1)\<^sup>2"
proof -
  have m: "(4, 4) \<in> set (midpointCircle 3 3 (1::int))" by (simp add: midpointCircle_r1 octant8_def)
  show ?thesis using midpointCircle_tolerance [OF _ m] m by simp
qed

text \<open>A negative radius draws nothing: the loop guard \<open>x >= y\<close> fails at once.\<close>

theorem midpointCircle_negative: "r < 0 \<Longrightarrow> midpointCircle cx cy r = []"
  by (simp add: midpointCircle_def circle_loop_stop midpoint_start_def)

theorem midpointCircle_negative_witness: "(- 1 :: int) < 0 \<and> midpointCircle 7 7 (- 1) = []"
  using midpointCircle_negative [of "- 1" 7 7] by simp

text \<open>
  Radius 0 draws the centre eight times. The spec's distance band
  \<open>[(r - 1)\<^sup>2, (r + 1)\<^sup>2]\<close> would require distance at least 1 here, so the band holds
  only from \<open>r = 1\<close> on (C37).
\<close>

theorem midpointCircle_zero: "midpointCircle cx cy 0 = replicate 8 (cx, cy)"
  by (simp add: midpointCircle_def midpoint_start_def circle_loop_step circle_loop_stop
      midpoint_step_def octant8_def numeral_eq_Suc)

text \<open>At most \<open>8 (r + 1)\<close> points, in whole blocks of eight.\<close>

theorem midpointCircle_length:
  "\<exists>k. length (midpointCircle cx cy r) = 8 * k \<and> k \<le> nat (r + 1)"
  using circle_loop_length [of cx cy "midpoint_start r" "[]"]
  by (simp add: midpointCircle_def midpoint_start_def)

text \<open>The drawn set is symmetric under the eight symmetries of the square about the centre.\<close>

theorem midpointCircle_symmetric:
  "p \<in> set (midpointCircle cx cy r) \<Longrightarrow>
     swap_about cx cy p \<in> set (midpointCircle cx cy r) \<and>
     flip_x cx p \<in> set (midpointCircle cx cy r) \<and> flip_y cy p \<in> set (midpointCircle cx cy r)"
  using circle_loop_mirror_closed [of p cx cy "midpoint_start r" "[]"]
  by (simp add: midpointCircle_def mirror_closed_def)

theorem midpointCircle_symmetric_witness:
  "(4, 4) \<in> set (midpointCircle 3 3 1) \<and>
     swap_about 3 3 (4, 4) \<in> set (midpointCircle 3 3 1) \<and>
     flip_x 3 (4, 4) \<in> set (midpointCircle 3 3 1) \<and> flip_y 3 (4, 4) \<in> set (midpointCircle 3 3 (1::int))"
proof -
  have m: "(4, 4) \<in> set (midpointCircle 3 3 (1::int))" by (simp add: midpointCircle_r1 octant8_def)
  show ?thesis using midpointCircle_symmetric [OF m] m by simp
qed

end
