(* ===== verification/Occupancy.thy ===== *)
theory Occupancy
  imports Prelude
begin

text \<open>
  The occupancy grid of \<^verbatim>\<open>CityScene\<close> (\<^verbatim>\<open>src/src/scene/city_scene.cpp\<close>): the
  fields \<^verbatim>\<open>gridSize\<close> and \<^verbatim>\<open>occupiedGrid\<close> (a \<^verbatim>\<open>vector<vector<bool>>\<close>, here a list of
  rows), the test \<^verbatim>\<open>isGridCellFree\<close> and the update \<^verbatim>\<open>markGridCells\<close>. The record is
  extensible: the scene record of the layout theory extends it, so the two operations
  apply to the whole scene as the C++ methods do. The abstraction \<open>occ\<close> reads the
  grid as the set of reserved in-bounds cells; the refinement lemmas say that
  \<open>markGridCells\<close> adds the clipped square to that set and that \<open>isGridCellFree\<close>
  holds exactly when the square lies inside the grid and misses the set.
\<close>

section \<open>State and operations\<close>

record occupancy =
  gridSize :: int
  occupiedGrid :: "bool list list"

text \<open>\<^verbatim>\<open>occupiedGrid = vector(gridSize, vector(gridSize, false))\<close>.\<close>

definition initGrid :: "int \<Rightarrow> bool list list" where
  "initGrid n = replicate (nat n) (replicate (nat n) False)"

definition in_grid :: "int \<Rightarrow> int \<Rightarrow> int \<Rightarrow> bool" where
  "in_grid n i j \<longleftrightarrow> 0 \<le> i \<and> i < n \<and> 0 \<le> j \<and> j < n"

text \<open>The half-width \<open>size/2\<close> of the square, with C++ division.\<close>

definition half :: "int \<Rightarrow> int" where
  "half sz = cdiv sz 2"

definition isGridCellFree :: "'a occupancy_scheme \<Rightarrow> int \<Rightarrow> int \<Rightarrow> int \<Rightarrow> bool" where
  "isGridCellFree s x z sz =
     list_all (\<lambda>i. list_all (\<lambda>j.
         \<not> (i < 0 \<or> i \<ge> gridSize s \<or> j < 0 \<or> j \<ge> gridSize s \<or> occupiedGrid s ! nat i ! nat j))
       [z - half sz..z + half sz])
     [x - half sz..x + half sz]"

text \<open>\<^verbatim>\<open>occupiedGrid[i][j] = true\<close> when the cell is in bounds.\<close>

definition mark_cell :: "int \<Rightarrow> int \<Rightarrow> 'a occupancy_scheme \<Rightarrow> 'a occupancy_scheme" where
  "mark_cell i j s =
     (if i \<ge> 0 \<and> i < gridSize s \<and> j \<ge> 0 \<and> j < gridSize s
      then s\<lparr>occupiedGrid := (occupiedGrid s)[nat i := (occupiedGrid s ! nat i)[nat j := True]]\<rparr>
      else s)"

definition markGridCells :: "'a occupancy_scheme \<Rightarrow> int \<Rightarrow> int \<Rightarrow> int \<Rightarrow> 'a occupancy_scheme" where
  "markGridCells s x z sz =
     fold (\<lambda>i s. fold (\<lambda>j. mark_cell i j) [z - half sz..z + half sz] s)
       [x - half sz..x + half sz] s"

section \<open>Abstraction and well-formedness\<close>

definition grid_wf :: "'a occupancy_scheme \<Rightarrow> bool" where
  "grid_wf s \<longleftrightarrow> 0 \<le> gridSize s \<and> length (occupiedGrid s) = nat (gridSize s) \<and>
     (\<forall>row \<in> set (occupiedGrid s). length row = nat (gridSize s))"

definition occ :: "'a occupancy_scheme \<Rightarrow> cell set" where
  "occ s = {(i, j). in_grid (gridSize s) i j \<and> occupiedGrid s ! nat i ! nat j}"

definition bounds :: "int \<Rightarrow> cell set" where
  "bounds n = {0..<n} \<times> {0..<n}"

definition square :: "int \<Rightarrow> int \<Rightarrow> int \<Rightarrow> cell set" where
  "square x z sz = {x - half sz..x + half sz} \<times> {z - half sz..z + half sz}"

text \<open>
  The abstract occupancy: a set of reserved cells inside \<open>bounds n\<close>; reserving a square
  adds its in-bounds part, and a square is free when it lies in the grid and misses every
  reserved cell.
\<close>

definition reserve :: "cell set \<Rightarrow> int \<Rightarrow> int \<Rightarrow> int \<Rightarrow> int \<Rightarrow> cell set" where
  "reserve A n x z sz = A \<union> (square x z sz \<inter> bounds n)"

definition free_abs :: "cell set \<Rightarrow> int \<Rightarrow> int \<Rightarrow> int \<Rightarrow> int \<Rightarrow> bool" where
  "free_abs A n x z sz \<longleftrightarrow> square x z sz \<subseteq> bounds n \<and> square x z sz \<inter> A = {}"

lemma occ_subset_bounds [grid_simps]: "occ s \<subseteq> bounds (gridSize s)"
  by (auto simp: occ_def bounds_def in_grid_def)

lemma half_nonneg [grid_simps]: "- 1 \<le> sz \<Longrightarrow> 0 \<le> half sz"
proof (cases "0 \<le> sz")
  case True
  then show ?thesis by (simp add: half_def)
next
  case False
  moreover assume "- 1 \<le> sz"
  ultimately have "sz = - 1" by simp
  then show ?thesis by (simp add: half_def cdiv_def)
qed

lemma grid_wf_init [grid_simps]:
  "0 \<le> n \<Longrightarrow> grid_wf \<lparr>gridSize = n, occupiedGrid = initGrid n, \<dots> = more\<rparr>"
  by (simp add: grid_wf_def initGrid_def)

lemma occ_init [grid_simps]: "occ \<lparr>gridSize = n, occupiedGrid = initGrid n, \<dots> = more\<rparr> = {}"
  by (auto simp: occ_def initGrid_def in_grid_def)

section \<open>One cell\<close>

lemma mark_cell_gridSize [simp]: "gridSize (mark_cell i j s) = gridSize s"
  by (simp add: mark_cell_def)

lemma mark_cell_more [simp]: "occupancy.more (mark_cell i j s) = occupancy.more s"
  by (simp add: mark_cell_def)

lemma mark_cell_wf: "grid_wf s \<Longrightarrow> grid_wf (mark_cell i j s)"
  by (auto simp: mark_cell_def grid_wf_def dest: set_update_subset_insert [THEN subsetD])

lemma occ_mark_cell:
  assumes "grid_wf s"
  shows "occ (mark_cell i j s) = occ s \<union> ({(i, j)} \<inter> bounds (gridSize s))"
proof (cases "in_grid (gridSize s) i j")
  case True
  then have i: "nat i < length (occupiedGrid s)" and j: "nat j < length (occupiedGrid s ! nat i)"
    using assms by (auto simp: grid_wf_def in_grid_def)
  have "occupiedGrid (mark_cell i j s) ! nat i' ! nat j' =
          (occupiedGrid s ! nat i' ! nat j' \<or> (i', j') = (i, j))"
    if "in_grid (gridSize s) i' j'" for i' j'
    using True that i j by (auto simp: mark_cell_def in_grid_def nth_list_update eq_nat_nat_iff)
  then show ?thesis
    using True by (auto simp: occ_def bounds_def in_grid_def)
next
  case False
  then show ?thesis
    by (auto simp: mark_cell_def occ_def bounds_def in_grid_def)
qed

section \<open>The square loops\<close>

definition mark_row :: "int \<Rightarrow> int list \<Rightarrow> 'a occupancy_scheme \<Rightarrow> 'a occupancy_scheme" where
  "mark_row i js = fold (\<lambda>j. mark_cell i j) js"

lemma markGridCells_rows:
  "markGridCells s x z sz = fold (\<lambda>i. mark_row i [z - half sz..z + half sz]) [x - half sz..x + half sz] s"
  by (simp add: markGridCells_def mark_row_def)

lemma mark_row_frame [simp]:
  "gridSize (mark_row i js s) = gridSize s" "occupancy.more (mark_row i js s) = occupancy.more s"
  by (simp_all add: mark_row_def fold_frame)

lemma mark_row_wf: "grid_wf s \<Longrightarrow> grid_wf (mark_row i js s)"
  unfolding mark_row_def by (rule fold_invariant_step) (auto intro: mark_cell_wf)

lemma occ_mark_row:
  "grid_wf s \<Longrightarrow> occ (mark_row i js s) = occ s \<union> (({i} \<times> set js) \<inter> bounds (gridSize s))"
proof (induction js arbitrary: s)
  case Nil
  then show ?case by (simp add: mark_row_def)
next
  case (Cons j js)
  have "occ (mark_row i js (mark_cell i j s)) =
          occ (mark_cell i j s) \<union> (({i} \<times> set js) \<inter> bounds (gridSize s))"
    using Cons.IH [OF mark_cell_wf [OF Cons.prems]] by simp
  then show ?case
    using occ_mark_cell [OF Cons.prems, of i j] by (auto simp: mark_row_def)
qed

lemma markGridCells_frame [simp]:
  "gridSize (markGridCells s x z sz) = gridSize s"
  "occupancy.more (markGridCells s x z sz) = occupancy.more s"
  by (simp_all add: markGridCells_rows fold_frame)

lemma occ_mark_rows:
  "grid_wf s \<Longrightarrow>
     grid_wf (fold (\<lambda>i. mark_row i js) is s) \<and>
     occ (fold (\<lambda>i. mark_row i js) is s) = occ s \<union> ((set is \<times> set js) \<inter> bounds (gridSize s))"
proof (induction "is" arbitrary: s)
  case Nil
  then show ?case by simp
next
  case (Cons i "is")
  have wf': "grid_wf (mark_row i js s)" by (rule mark_row_wf [OF Cons.prems])
  with Cons.IH [OF wf'] occ_mark_row [OF Cons.prems, of i js] show ?case
    by auto
qed

section \<open>The grid refines a set of reserved cells\<close>

text \<open>Reserving adds exactly the in-bounds part of the square; nothing outside the grid is written.\<close>

lemma occ_markGridCells:
  "grid_wf s \<Longrightarrow> occ (markGridCells s x z sz) = occ s \<union> (square x z sz \<inter> bounds (gridSize s))"
  using occ_mark_rows [of s "[z - half sz..z + half sz]" "[x - half sz..x + half sz]"]
  by (simp add: markGridCells_rows square_def)

lemma markGridCells_wf [grid_simps]: "grid_wf s \<Longrightarrow> grid_wf (markGridCells s x z sz)"
  using occ_mark_rows [of s "[z - half sz..z + half sz]" "[x - half sz..x + half sz]"]
  by (simp add: markGridCells_rows)

text \<open>The free test is the abstract test: the square lies in the grid (fail closed) and misses every reserved cell.\<close>

lemma isGridCellFree_iff:
  "isGridCellFree s x z sz \<longleftrightarrow> square x z sz \<subseteq> bounds (gridSize s) \<and> square x z sz \<inter> occ s = {}"
proof -
  have "isGridCellFree s x z sz \<longleftrightarrow>
      (\<forall>c \<in> square x z sz. in_grid (gridSize s) (fst c) (snd c) \<and> \<not> occupiedGrid s ! nat (fst c) ! nat (snd c))"
    unfolding isGridCellFree_def list_all_product set_upto square_def
    by (simp add: in_grid_def not_less not_le)
  also have "\<dots> \<longleftrightarrow> square x z sz \<subseteq> bounds (gridSize s) \<and> square x z sz \<inter> occ s = {}"
  proof
    assume "\<forall>c \<in> square x z sz. in_grid (gridSize s) (fst c) (snd c) \<and> \<not> occupiedGrid s ! nat (fst c) ! nat (snd c)"
    then show "square x z sz \<subseteq> bounds (gridSize s) \<and> square x z sz \<inter> occ s = {}"
      by (auto simp: bounds_def occ_def in_grid_def)
  next
    assume H: "square x z sz \<subseteq> bounds (gridSize s) \<and> square x z sz \<inter> occ s = {}"
    show "\<forall>c \<in> square x z sz. in_grid (gridSize s) (fst c) (snd c) \<and> \<not> occupiedGrid s ! nat (fst c) ! nat (snd c)"
    proof
      fix c assume c: "c \<in> square x z sz"
      with H have "c \<in> bounds (gridSize s)" "c \<notin> occ s" by auto
      then show "in_grid (gridSize s) (fst c) (snd c) \<and> \<not> occupiedGrid s ! nat (fst c) ! nat (snd c)"
        by (cases c) (auto simp: bounds_def occ_def in_grid_def)
    qed
  qed
  finally show ?thesis .
qed

text \<open>Two well-formed grids of one size with the same reserved cells are equal.\<close>

lemma grid_eqI:
  assumes "grid_wf s" "grid_wf t" "gridSize s = gridSize t" "occ s = occ t"
  shows "occupiedGrid s = occupiedGrid t"
proof (rule nth_equalityI)
  show "length (occupiedGrid s) = length (occupiedGrid t)" using assms by (simp add: grid_wf_def)
next
  fix i assume i: "i < length (occupiedGrid s)"
  show "occupiedGrid s ! i = occupiedGrid t ! i"
  proof (rule nth_equalityI)
    show "length (occupiedGrid s ! i) = length (occupiedGrid t ! i)"
      using assms i by (simp add: grid_wf_def)
  next
    fix j assume j: "j < length (occupiedGrid s ! i)"
    have inb: "in_grid (gridSize s) (int i) (int j)"
      using assms(1) i j by (auto simp: grid_wf_def in_grid_def)
    have "((int i, int j) \<in> occ s) = ((int i, int j) \<in> occ t)" using assms(4) by simp
    then show "occupiedGrid s ! i ! j = occupiedGrid t ! i ! j"
      using inb assms(3) by (simp add: occ_def)
  qed
qed

text \<open>Reserving is idempotent.\<close>

theorem markGridCells_idem:
  assumes "grid_wf s"
  shows "markGridCells (markGridCells s x z sz) x z sz = markGridCells s x z sz"
proof (rule occupancy.equality)
  have wf1: "grid_wf (markGridCells s x z sz)" by (rule markGridCells_wf [OF assms])
  show "occupiedGrid (markGridCells (markGridCells s x z sz) x z sz) = occupiedGrid (markGridCells s x z sz)"
    by (rule grid_eqI) (use assms wf1 in \<open>auto simp: markGridCells_wf occ_markGridCells\<close>)
qed simp_all

theorem markGridCells_idem_witness:
  "grid_wf \<lparr>gridSize = 3, occupiedGrid = initGrid 3\<rparr> \<and>
   markGridCells (markGridCells \<lparr>gridSize = 3, occupiedGrid = initGrid 3\<rparr> 1 1 1) 1 1 1 =
     markGridCells \<lparr>gridSize = 3, occupiedGrid = initGrid 3\<rparr> 1 1 1"
proof -
  have wf: "grid_wf \<lparr>gridSize = (3::int), occupiedGrid = initGrid 3\<rparr>"
    by (simp add: grid_wf_def initGrid_def)
  show ?thesis by (rule conjI [OF wf markGridCells_idem [OF wf]])
qed

lemma reserved_not_free:
  "c \<in> occ s \<Longrightarrow> c \<in> square x z sz \<Longrightarrow> \<not> isGridCellFree s x z sz"
  by (auto simp: isGridCellFree_iff)

lemma center_in_square: "- 1 \<le> sz \<Longrightarrow> (x, z) \<in> square x z sz"
  using half_nonneg [of sz] by (simp add: square_def)

text \<open>
  After \<open>markGridCells x z size\<close> the same square is no longer free, for every
  \<open>size \<ge> -1\<close> (for \<open>size \<le> -2\<close> the C++ loops are empty and nothing is reserved).
\<close>

theorem markGridCells_not_free:
  assumes "grid_wf s" "- 1 \<le> sz"
  shows "\<not> isGridCellFree (markGridCells s x z sz) x z sz"
proof
  assume free: "isGridCellFree (markGridCells s x z sz) x z sz"
  have c: "(x, z) \<in> square x z sz" by (rule center_in_square [OF assms(2)])
  with free have "(x, z) \<in> bounds (gridSize s)" by (auto simp: isGridCellFree_iff)
  with c have "(x, z) \<in> occ (markGridCells s x z sz)" by (simp add: occ_markGridCells [OF assms(1)])
  with c free show False by (auto dest: reserved_not_free)
qed

theorem markGridCells_not_free_witness:
  "grid_wf \<lparr>gridSize = 3, occupiedGrid = initGrid 3\<rparr> \<and> - 1 \<le> (5::int) \<and>
   \<not> isGridCellFree (markGridCells \<lparr>gridSize = 3, occupiedGrid = initGrid 3\<rparr> 2 2 5) 2 2 5"
proof -
  have wf: "grid_wf \<lparr>gridSize = (3::int), occupiedGrid = initGrid 3\<rparr>"
    by (simp add: grid_wf_def initGrid_def)
  have sz: "- 1 \<le> (5::int)" by simp
  show ?thesis by (rule conjI [OF wf conjI [OF sz markGridCells_not_free [OF wf sz]]])
qed

text \<open>
  C10: collision avoidance: after a square is reserved, every square that shares an
  in-grid cell with it is no longer free.
\<close>

theorem markGridCells_blocks_overlap:
  "grid_wf s \<Longrightarrow> c \<in> square x z sz \<Longrightarrow> c \<in> bounds (gridSize s) \<Longrightarrow> c \<in> square a b sa \<Longrightarrow>
     \<not> isGridCellFree (markGridCells s x z sz) a b sa"
  by (rule reserved_not_free [of c]) (simp_all add: occ_markGridCells)

lemma markGridCells_mono: "grid_wf s \<Longrightarrow> occ s \<subseteq> occ (markGridCells s x z sz)"
  by (simp add: occ_markGridCells)

theorem markGridCells_blocks_overlap_witness:
  "grid_wf \<lparr>gridSize = 10, occupiedGrid = initGrid 10\<rparr> \<and> (3, 3) \<in> square 2 2 3 \<and>
   (3, 3) \<in> bounds (gridSize \<lparr>gridSize = 10, occupiedGrid = initGrid 10\<rparr>) \<and> (3, 3) \<in> square 4 4 3 \<and>
   \<not> isGridCellFree (markGridCells \<lparr>gridSize = 10, occupiedGrid = initGrid 10\<rparr> 2 2 3) 4 4 3"
proof -
  have wf: "grid_wf \<lparr>gridSize = (10::int), occupiedGrid = initGrid 10\<rparr>"
    by (simp add: grid_wf_def initGrid_def)
  have c: "(3, 3) \<in> square 2 2 3" "(3, 3) \<in> bounds (gridSize \<lparr>gridSize = (10::int), occupiedGrid = initGrid 10\<rparr>)"
    "(3, 3) \<in> square 4 4 3"
    by (simp_all add: square_def half_def bounds_def cdiv_def)
  show ?thesis using wf c markGridCells_blocks_overlap [OF wf c] by simp
qed

text \<open>
  C9: the grid refines the abstract occupancy: on a well-formed grid, reserving keeps the
  grid well-formed and of the same size, reserves exactly what the abstract operation
  reserves, and afterwards the free test answers as the abstract test on the new set.
\<close>

theorem occupancy_refinement:
  assumes "grid_wf s"
  shows "grid_wf (markGridCells s x z sz) \<and> gridSize (markGridCells s x z sz) = gridSize s \<and>
         occ (markGridCells s x z sz) = reserve (occ s) (gridSize s) x z sz \<and>
         isGridCellFree (markGridCells s x z sz) a b sa = free_abs (reserve (occ s) (gridSize s) x z sz) (gridSize s) a b sa"
  using assms by (simp add: markGridCells_wf occ_markGridCells isGridCellFree_iff reserve_def free_abs_def)

theorem occupancy_refinement_witness:
  "grid_wf \<lparr>gridSize = 10, occupiedGrid = initGrid 10\<rparr> \<and>
   \<not> isGridCellFree (markGridCells \<lparr>gridSize = 10, occupiedGrid = initGrid 10\<rparr> 2 2 3) 4 4 3"
proof -
  have wf: "grid_wf \<lparr>gridSize = (10::int), occupiedGrid = initGrid 10\<rparr>"
    by (simp add: grid_wf_def initGrid_def)
  have "(3, 3) \<in> square 4 4 3" "(3, 3) \<in> reserve (occ \<lparr>gridSize = (10::int), occupiedGrid = initGrid 10\<rparr>) 10 2 2 3"
    by (simp_all add: reserve_def square_def half_def bounds_def cdiv_def)
  then have "\<not> free_abs (reserve (occ \<lparr>gridSize = (10::int), occupiedGrid = initGrid 10\<rparr>) 10 2 2 3) 10 4 4 3"
    unfolding free_abs_def by blast
  with occupancy_refinement [OF wf, of 2 2 3 4 4 3] wf show ?thesis by simp
qed

end
