(* ===== verification/Scene.thy ===== *)
theory Scene
  imports Complex_Main Occupancy
begin

text \<open>
  The data of \<^verbatim>\<open>src/src/scene/city_scene.h\<close>: the configuration struct
  \<^verbatim>\<open>CityConfig\<close> and the placement fields of \<^verbatim>\<open>CityScene\<close>, as records. The scene
  record extends the occupancy record, so the grid operations apply to it. The C
  library's \<^verbatim>\<open>rand\<close>/\<^verbatim>\<open>srand\<close> pair is not code of this repository: it enters as an
  interface \<open>rng\<close> (a seeding function and a draw function over an arbitrary state
  type \<open>'s\<close>), and the generator's state is a field of the scene, as libc's hidden
  global state is. Floats are modelled as reals (rounding not modelled). Also here:
  the building-type choice of \<^verbatim>\<open>placeBuildingsRandomly\<close> (its rescan of the placed
  types, shown equal to counting) and \<^verbatim>\<open>getFuturisticHeight\<close>.
\<close>

section \<open>Configuration and scene state\<close>

record city_config =
  citySize :: int
  numBuildings :: int
  numSkyscrapers :: int
  numTowers :: int
  numOfficeBuildings :: int
  buildingStyle :: int
  towerWidth :: real
  towerHeight :: real
  buildingWidth :: real
  buildingHeight :: real
  skyscraperWidth :: real
  skyscraperHeight :: real
  pondRadius :: real

text \<open>
  The placement fields of \<^verbatim>\<open>CityScene\<close>; building types are the source's \<^verbatim>\<open>int\<close> codes
  \<open>0\<close> (skyscraper), \<open>1\<close> (tower), \<open>2\<close> (office). \<open>rng_state\<close> stands for libc's global
  generator state.
\<close>

record 's city_scene = occupancy +
  config :: city_config
  roadCells :: "cell list"
  buildingCells :: "cell list"
  buildingHeights :: "real list"
  buildingTypes :: "int list"
  treeCells :: "cell list"
  streetLamps :: "cell list"
  carPosition :: cell
  pond_cx :: int
  pond_cy :: int
  pond_r :: int
  waterTime :: real
  ripplePhase :: real
  rng_state :: 's

text \<open>The interface of libc's generator: \<^verbatim>\<open>srand(seed)\<close> and \<^verbatim>\<open>rand()\<close>.\<close>

record 's rng =
  srand :: "int \<Rightarrow> 's"
  rand :: "'s \<Rightarrow> int \<times> 's"

text \<open>
  A concrete generator for examples: the ISO C reference \<^verbatim>\<open>rand\<close>, a 32-bit linear
  congruential generator returning bits 16..30 of its state.
\<close>

definition sample_rng :: "int rng" where
  "sample_rng =
     \<lparr>srand = (\<lambda>seed. seed mod 2 ^ 32),
      rand = (\<lambda>st. let st' = (st * 1103515245 + 12345) mod 2 ^ 32 in (st' div 65536 mod 32768, st'))\<rparr>"

text \<open>
  \<^verbatim>\<open>CityScene() {}\<close>: the vectors start empty; the scalar members are left
  uninitialised by the source and are \<open>0\<close> here (\<^verbatim>\<open>init\<close> writes all of them that
  are read before being written).
\<close>

definition CityScene :: "'s \<Rightarrow> 's city_scene" where
  "CityScene st =
     \<lparr>gridSize = 0, occupiedGrid = [],
      config = \<lparr>citySize = 0, numBuildings = 0, numSkyscrapers = 0, numTowers = 0,
                numOfficeBuildings = 0, buildingStyle = 0, towerWidth = 0, towerHeight = 0,
                buildingWidth = 0, buildingHeight = 0, skyscraperWidth = 0, skyscraperHeight = 0,
                pondRadius = 0\<rparr>,
      roadCells = [], buildingCells = [], buildingHeights = [], buildingTypes = [],
      treeCells = [], streetLamps = [], carPosition = (0, 0), pond_cx = 0, pond_cy = 0, pond_r = 0,
      waterTime = 0, ripplePhase = 0, rng_state = st\<rparr>"

text \<open>\<^verbatim>\<open>int center = gridSize / 2;\<close>\<close>

definition center :: "int \<Rightarrow> int" where
  "center n = cdiv n 2"

text \<open>\<^verbatim>\<open>gridSize = (citySize == 1) ? 50 : (citySize == 2) ? 70 : 100;\<close>\<close>

definition gridSize_of :: "int \<Rightarrow> int" where
  "gridSize_of cs = (if cs = 1 then 50 else if cs = 2 then 70 else 100)"

text \<open>C++ conversion of a float to \<^verbatim>\<open>int\<close> truncates towards zero.\<close>

definition trunc_int :: "real \<Rightarrow> int" where
  "trunc_int r = (if 0 \<le> r then \<lfloor>r\<rfloor> else \<lceil>r\<rceil>)"

lemma center_nonneg: "0 \<le> n \<Longrightarrow> center n = n div 2"
  by (simp add: center_def)

section \<open>Building types and heights\<close>

text \<open>
  The mixed-style rescan: one pass over \<^verbatim>\<open>buildingTypes\<close> counting skyscrapers, towers
  and the rest.
\<close>

definition type_tally :: "int \<Rightarrow> int \<times> int \<times> int \<Rightarrow> int \<times> int \<times> int" where
  "type_tally t c =
     (case c of (sk, tw, bl) \<Rightarrow>
        if t = 0 then (sk + 1, tw, bl) else if t = 1 then (sk, tw + 1, bl) else (sk, tw, bl + 1))"

definition count_types :: "int list \<Rightarrow> int \<times> int \<times> int" where
  "count_types ts = fold type_tally ts (0, 0, 0)"

definition choose_type :: "city_config \<Rightarrow> int list \<Rightarrow> int" where
  "choose_type cfg ts =
     (if buildingStyle cfg = 1 then 0
      else if buildingStyle cfg = 2 then 1
      else (case count_types ts of (sk, tw, bl) \<Rightarrow>
              if sk < numSkyscrapers cfg then 0
              else if tw < numTowers cfg then 1
              else 2))"

definition getFuturisticHeight :: "city_config \<Rightarrow> int \<Rightarrow> int \<Rightarrow> real" where
  "getFuturisticHeight cfg type index =
     (if type = 0 then skyscraperHeight cfg
      else if type = 1 then towerHeight cfg
      else if type = 2 then buildingHeight cfg * 0.7
      else 15)"

text \<open>The rescan equals per-type counting (the counters the spec's design note suggests).\<close>

lemma count_types_fold:
  "fold type_tally ts (a, b, c) =
     (a + int (count_list ts 0), b + int (count_list ts 1), c + int (length (filter (\<lambda>t. t \<noteq> 0 \<and> t \<noteq> 1) ts)))"
  by (induction ts arbitrary: a b c) (simp_all add: type_tally_def)

lemma count_types_eq:
  "count_types ts =
     (int (count_list ts 0), int (count_list ts 1), int (length (filter (\<lambda>t. t \<noteq> 0 \<and> t \<noteq> 1) ts)))"
  by (simp add: count_types_def count_types_fold)

text \<open>
  The quota-priority order of the spec: the \<open>k\<close>-th placed building (from \<open>0\<close>) is a
  skyscraper while skyscraper quota remains, then a tower while tower quota remains,
  then an office building.
\<close>

definition quota_type :: "city_config \<Rightarrow> nat \<Rightarrow> int" where
  "quota_type cfg k =
     (if int k < numSkyscrapers cfg then 0
      else if int k - max 0 (numSkyscrapers cfg) < numTowers cfg then 1
      else 2)"

text \<open>
  The type the spec assigns to the \<open>k\<close>-th placed building: all skyscrapers (style 1),
  all towers (style 2), or the quota order (mixed).
\<close>

definition expected_type :: "city_config \<Rightarrow> nat \<Rightarrow> int" where
  "expected_type cfg k =
     (if buildingStyle cfg = 1 then 0 else if buildingStyle cfg = 2 then 1 else quota_type cfg k)"

lemma count_list_quota:
  "count_list (map (quota_type cfg) [0..<k]) 0 = min k (nat (numSkyscrapers cfg))"
proof (induction k)
  case 0
  then show ?case by simp
next
  case (Suc k)
  then show ?case by (auto simp: quota_type_def)
qed

lemma count_list_quota_tower:
  "count_list (map (quota_type cfg) [0..<k]) 1 =
     min (k - nat (numSkyscrapers cfg)) (nat (numTowers cfg))"
proof (induction k)
  case 0
  then show ?case by simp
next
  case (Suc k)
  then show ?case by (auto simp: quota_type_def)
qed

lemma choose_type_quota:
  "buildingStyle cfg \<noteq> 1 \<Longrightarrow> buildingStyle cfg \<noteq> 2 \<Longrightarrow>
     choose_type cfg (map (quota_type cfg) [0..<k]) = quota_type cfg k"
  by (auto simp: choose_type_def count_types_eq count_list_quota count_list_quota_tower quota_type_def)

lemma choose_type_expected:
  "choose_type cfg (map (expected_type cfg) [0..<k]) = expected_type cfg k"
proof (cases "buildingStyle cfg = 1 \<or> buildingStyle cfg = 2")
  case True
  then show ?thesis by (auto simp: choose_type_def expected_type_def)
next
  case False
  then have ne: "buildingStyle cfg \<noteq> 1" "buildingStyle cfg \<noteq> 2" by simp_all
  then have eq: "map (expected_type cfg) [0..<k] = map (quota_type cfg) [0..<k]"
    by (simp add: expected_type_def)
  show ?thesis
    unfolding eq choose_type_quota [OF ne] using ne by (simp add: expected_type_def)
qed

lemma getFuturisticHeight_index: "getFuturisticHeight cfg t i = getFuturisticHeight cfg t 0"
  by (simp add: getFuturisticHeight_def)

end
