(* ===== verification/Layout.thy ===== *)
theory Layout
  imports Scene Raster_Line "HOL-Library.Monad_Syntax"
begin

text \<open>
  The layout engine of \<^verbatim>\<open>src/src/scene/city_scene.cpp\<close>: the placement methods
  \<^verbatim>\<open>placeBuildingsRandomly\<close>, \<^verbatim>\<open>placeTrees\<close>, \<^verbatim>\<open>placeStreetLamps\<close>,
  \<^verbatim>\<open>placeRandomCar\<close> and \<^verbatim>\<open>generateFuturisticLayout\<close>, each a function from the scene
  record to the scene record, composed in the order of the source. The bounded
  attempt loops (100 for buildings, 50 for trees) recurse on the number of attempts
  left; the stride-6 lamp loops on the distance to their bound. Random draws go
  through the \<open>rng\<close> interface and thread the generator state of the scene.
  \<^verbatim>\<open>generateFuturisticLayout\<close> calls \<^verbatim>\<open>bresenhamLine\<close>, whose model returns an
  option; the composition is in the option monad (and is always \<open>Some\<close>).
\<close>

section \<open>Random placement with a bounded number of attempts\<close>

text \<open>
  One attempt of the loops in \<^verbatim>\<open>placeBuildingsRandomly\<close> and \<^verbatim>\<open>placeTrees\<close>: draw
  \<^verbatim>\<open>x = off + rand() % spread\<close>, then \<^verbatim>\<open>z\<close> likewise, and accept if the square of side
  \<open>sz\<close> is free. The result is the accepted cell, if any, and the scene with the advanced
  generator state; the grid is not touched.
\<close>

fun find_spot :: "'s rng \<Rightarrow> int \<Rightarrow> int \<Rightarrow> int \<Rightarrow> nat \<Rightarrow> 's city_scene \<Rightarrow> cell option \<times> 's city_scene" where
  "find_spot R off spread sz 0 s = (None, s)"
| "find_spot R off spread sz (Suc n) s =
     (let (rx, st1) = rand R (rng_state s);
          (rz, st2) = rand R st1;
          x = off + cmod rx spread;
          z = off + cmod rz spread;
          s' = s\<lparr>rng_state := st2\<rparr>
      in if isGridCellFree s' x z sz then (Some (x, z), s') else find_spot R off spread sz n s')"

text \<open>
  One iteration \<open>i\<close> of the building loop: up to 100 attempts with 5x5 footprints drawn
  from \<open>[5, gridSize - 5)\<close>; on success record the cell, reserve the footprint, choose
  the type from the types placed so far and record its height.
\<close>

definition place_building :: "'s rng \<Rightarrow> int \<Rightarrow> 's city_scene \<Rightarrow> 's city_scene" where
  "place_building R i s =
     (case find_spot R 5 (gridSize s - 10) 5 100 s of
        (None, s') \<Rightarrow> s'
      | (Some (x, z), s') \<Rightarrow>
          let s1 = markGridCells (s'\<lparr>buildingCells := buildingCells s' @ [(x, z)]\<rparr>) x z 5;
              btype = choose_type (config s1) (buildingTypes s1)
          in s1\<lparr>buildingTypes := buildingTypes s1 @ [btype],
                 buildingHeights := buildingHeights s1 @ [getFuturisticHeight (config s1) btype i]\<rparr>)"

definition placeBuildingsRandomly :: "'s rng \<Rightarrow> 's city_scene \<Rightarrow> 's city_scene" where
  "placeBuildingsRandomly R s =
     (let s0 = s\<lparr>buildingCells := [], buildingHeights := [], buildingTypes := [],
                 rng_state := srand R 12345\<rparr>
      in fold (place_building R) [0..numBuildings (config s0) - 1] s0)"

text \<open>One tree: up to 50 attempts with 3x3 footprints drawn from \<open>[3, gridSize - 3)\<close>.\<close>

definition place_tree :: "'s rng \<Rightarrow> int \<Rightarrow> 's city_scene \<Rightarrow> 's city_scene" where
  "place_tree R i s =
     (case find_spot R 3 (gridSize s - 6) 3 50 s of
        (None, s') \<Rightarrow> s'
      | (Some (x, z), s') \<Rightarrow> markGridCells (s'\<lparr>treeCells := treeCells s' @ [(x, z)]\<rparr>) x z 3)"

definition placeTrees :: "'s rng \<Rightarrow> 's city_scene \<Rightarrow> 's city_scene" where
  "placeTrees R s =
     (let s0 = s\<lparr>treeCells := [], rng_state := srand R 54321\<rparr>
      in fold (place_tree R) [0..citySize (config s0) * 8 - 1] s0)"

section \<open>Street lamps and the car\<close>

text \<open>\<^verbatim>\<open>for (int i = 8; i < gridSize - 8; i += 6)\<close>: the positions visited.\<close>

function stride6 :: "int \<Rightarrow> int \<Rightarrow> int list" where
  "stride6 i stop = (if i < stop then i # stride6 (i + 6) stop else [])"
  by pat_completeness auto
termination
  by (relation "measure (\<lambda>(i, stop). nat (stop - i))") auto

declare stride6.simps [simp del]

text \<open>\<^verbatim>\<open>if (guard && isGridCellFree(x, z)) { streetLamps.push_back({x, z}); markGridCells(x, z); }\<close>\<close>

definition try_lamp :: "bool \<Rightarrow> int \<Rightarrow> int \<Rightarrow> 's city_scene \<Rightarrow> 's city_scene" where
  "try_lamp guard x z s =
     (if guard \<and> isGridCellFree s x z 1
      then markGridCells (s\<lparr>streetLamps := streetLamps s @ [(x, z)]\<rparr>) x z 1
      else s)"

definition lamp_pair_h :: "int \<Rightarrow> int \<Rightarrow> 's city_scene \<Rightarrow> 's city_scene" where
  "lamp_pair_h c i s =
     (if \<bar>i - c\<bar> > 3
      then try_lamp (c - 2 \<ge> 0) i (c - 2) (try_lamp (c + 2 < gridSize s) i (c + 2) s)
      else s)"

definition lamp_pair_v :: "int \<Rightarrow> int \<Rightarrow> 's city_scene \<Rightarrow> 's city_scene" where
  "lamp_pair_v c j s =
     (if \<bar>j - c\<bar> > 3
      then try_lamp (c - 2 \<ge> 0) (c - 2) j (try_lamp (c + 2 < gridSize s) (c + 2) j s)
      else s)"

definition placeStreetLamps :: "'s city_scene \<Rightarrow> 's city_scene" where
  "placeStreetLamps s =
     (let s0 = s\<lparr>streetLamps := []\<rparr>;
          c = center (gridSize s0);
          s1 = fold (lamp_pair_h c) (stride6 8 (gridSize s0 - 8)) s0
      in fold (lamp_pair_v c) (stride6 8 (gridSize s1 - 8)) s1)"

definition placeRandomCar :: "'s city_scene \<Rightarrow> 's city_scene" where
  "placeRandomCar s = s\<lparr>carPosition := (center (gridSize s) - 5, center (gridSize s))\<rparr>"

section \<open>Roads, pond and the whole layout\<close>

definition mark_roads :: "'s city_scene \<Rightarrow> 's city_scene" where
  "mark_roads s = fold (\<lambda>c s. markGridCells s (fst c) (snd c) 1) (roadCells s) s"

text \<open>The filled disc of the pond, over its bounding box clipped to the grid.\<close>

definition mark_pond :: "'s city_scene \<Rightarrow> 's city_scene" where
  "mark_pond s =
     (let cx = pond_cx s; cy = pond_cy s; r = pond_r s; n = gridSize s
      in fold (\<lambda>i s. fold (\<lambda>j s. if (i - cx)\<^sup>2 + (j - cy)\<^sup>2 \<le> r\<^sup>2 then mark_cell i j s else s)
                          [max 0 (cy - r)..min (n - 1) (cy + r)] s)
              [max 0 (cx - r)..min (n - 1) (cx + r)] s)"

definition generateFuturisticLayout :: "'s rng \<Rightarrow> 's city_scene \<Rightarrow> 's city_scene option" where
  "generateFuturisticLayout R s = do {
     let c = center (gridSize s);
     road1 \<leftarrow> bresenhamLine 5 c (gridSize s - 5) c;
     road2 \<leftarrow> bresenhamLine c 5 c (gridSize s - 5);
     let s1 = mark_roads (s\<lparr>roadCells := roadCells s @ road1 @ road2\<rparr>);
     let s2 = placeRandomCar (placeStreetLamps (placeTrees R (placeBuildingsRandomly R s1)));
     let s3 = s2\<lparr>pond_cx := c + 8, pond_cy := c - 8, pond_r := trunc_int (pondRadius (config s2))\<rparr>;
     Some (mark_pond s3)
   }"

text \<open>
  \<^verbatim>\<open>CityScene::init\<close>, its layout part: store the configuration, size and clear the
  grid, generate the layout, reset the water animation. Mesh and texture creation are
  not modelled.
\<close>

definition init ::
  "'s rng \<Rightarrow> 's city_scene \<Rightarrow> int \<Rightarrow> int \<Rightarrow> int \<Rightarrow> real \<Rightarrow> real \<Rightarrow> real \<Rightarrow> real \<Rightarrow> real \<Rightarrow> real \<Rightarrow> real \<Rightarrow>
     int \<Rightarrow> int \<Rightarrow> int \<Rightarrow> 's city_scene option" where
  "init R s citySize' numBuildings' buildingStyle' towerW towerH buildingW buildingH skyW skyH pondR
        numSky numTow numOff =
     (let cfg = \<lparr>citySize = citySize', numBuildings = numBuildings', numSkyscrapers = numSky,
                 numTowers = numTow, numOfficeBuildings = numOff, buildingStyle = buildingStyle',
                 towerWidth = towerW, towerHeight = towerH, buildingWidth = buildingW,
                 buildingHeight = buildingH, skyscraperWidth = skyW, skyscraperHeight = skyH,
                 pondRadius = pondR\<rparr>;
          n = gridSize_of citySize';
          s1 = s\<lparr>config := cfg, gridSize := n, occupiedGrid := initGrid n\<rparr>
      in map_option (\<lambda>s2. s2\<lparr>waterTime := 0, ripplePhase := 0\<rparr>) (generateFuturisticLayout R s1))"
section \<open>Frame lemmas\<close>

text \<open>The fields of the scene beyond the grid depend only on the record extension.\<close>

lemma scene_more_cong:
  "occupancy.more s = occupancy.more t \<Longrightarrow>
     config s = config t \<and> roadCells s = roadCells t \<and> buildingCells s = buildingCells t \<and>
     buildingHeights s = buildingHeights t \<and> buildingTypes s = buildingTypes t \<and>
     treeCells s = treeCells t \<and> streetLamps s = streetLamps t \<and> carPosition s = carPosition t \<and>
     pond_cx s = pond_cx t \<and> pond_cy s = pond_cy t \<and> pond_r s = pond_r t \<and>
     waterTime s = waterTime t \<and> ripplePhase s = ripplePhase t \<and> rng_state s = rng_state t"
  by (cases s; cases t) simp

lemma markGridCells_scene [simp]:
  "config (markGridCells s x z sz) = config s"
  "roadCells (markGridCells s x z sz) = roadCells s"
  "buildingCells (markGridCells s x z sz) = buildingCells s"
  "buildingHeights (markGridCells s x z sz) = buildingHeights s"
  "buildingTypes (markGridCells s x z sz) = buildingTypes s"
  "treeCells (markGridCells s x z sz) = treeCells s"
  "streetLamps (markGridCells s x z sz) = streetLamps s"
  "carPosition (markGridCells s x z sz) = carPosition s"
  "pond_cx (markGridCells s x z sz) = pond_cx s"
  "pond_cy (markGridCells s x z sz) = pond_cy s"
  "pond_r (markGridCells s x z sz) = pond_r s"
  "rng_state (markGridCells s x z sz) = rng_state s"
  using scene_more_cong [OF markGridCells_frame(2) [of s x z sz]] by simp_all

lemma isGridCellFree_rng [simp]: "isGridCellFree (s\<lparr>rng_state := st\<rparr>) x z sz = isGridCellFree s x z sz"
  by (simp add: isGridCellFree_def)

section \<open>The attempt loop\<close>

lemma find_spot_state: "\<exists>st. snd (find_spot R off spread sz n s) = s\<lparr>rng_state := st\<rparr>"
proof (induction n arbitrary: s)
  case 0
  show ?case by (rule exI [of _ "rng_state s"]) simp
next
  case (Suc n)
  obtain rx st1 where d1: "rand R (rng_state s) = (rx, st1)" by fastforce
  obtain rz st2 where d2: "rand R st1 = (rz, st2)" by fastforce
  obtain st where "snd (find_spot R off spread sz n (s\<lparr>rng_state := st2\<rparr>)) = s\<lparr>rng_state := st2\<rparr>\<lparr>rng_state := st\<rparr>"
    using Suc.IH by blast
  then show ?case by (auto simp: d1 d2 Let_def)
qed

lemma find_spot_free:
  "fst (find_spot R off spread sz n s) = Some (x, z) \<Longrightarrow> isGridCellFree s x z sz"
proof (induction n arbitrary: s)
  case 0
  then show ?case by simp
next
  case (Suc n)
  obtain rx st1 where d1: "rand R (rng_state s) = (rx, st1)" by fastforce
  obtain rz st2 where d2: "rand R st1 = (rz, st2)" by fastforce
  from Suc.prems Suc.IH [of "s\<lparr>rng_state := st2\<rparr>"] show ?case
    by (auto simp: d1 d2 Let_def split: if_splits)
qed

text \<open>With a generator that draws non-negative values, \<^verbatim>\<open>off + rand() % spread\<close> lies in \<open>[off, off + spread)\<close>.\<close>

lemma find_spot_range:
  assumes "\<forall>st. 0 \<le> fst (rand R st)" "0 < spread"
  shows "fst (find_spot R off spread sz n s) = Some (x, z) \<Longrightarrow>
           off \<le> x \<and> x < off + spread \<and> off \<le> z \<and> z < off + spread"
proof (induction n arbitrary: s)
  case 0
  then show ?case by simp
next
  case (Suc n)
  obtain rx st1 where d1: "rand R (rng_state s) = (rx, st1)" by fastforce
  obtain rz st2 where d2: "rand R st1 = (rz, st2)" by fastforce
  have "0 \<le> rx" "0 \<le> rz" using assms(1) d1 d2 by (metis fst_conv)+
  with Suc.prems Suc.IH [of "s\<lparr>rng_state := st2\<rparr>"] assms(2) show ?case
    by (auto simp: d1 d2 Let_def split: if_splits)
qed

section \<open>The layout invariant\<close>

text \<open>
  The footprints of the placed features: 5x5 squares of buildings, 3x3 squares of
  trees, single cells of lamps. The invariant: the grid is well formed, every road
  cell in the grid is reserved, every footprint lies inside the grid, is reserved and
  avoids the roads, and the footprints are pairwise disjoint.
\<close>

definition footprints :: "'s city_scene \<Rightarrow> cell set list" where
  "footprints s =
     map (\<lambda>c. square (fst c) (snd c) 5) (buildingCells s) @
     map (\<lambda>c. square (fst c) (snd c) 3) (treeCells s) @
     map (\<lambda>c. square (fst c) (snd c) 1) (streetLamps s)"

definition layout_inv :: "'s city_scene \<Rightarrow> bool" where
  "layout_inv s \<longleftrightarrow> grid_wf s \<and> set (roadCells s) \<inter> bounds (gridSize s) \<subseteq> occ s \<and>
     (\<forall>F \<in> set (footprints s). F \<subseteq> occ s \<and> F \<subseteq> bounds (gridSize s) \<and> F \<inter> set (roadCells s) = {}) \<and>
     pairwise_disjoint (footprints s)"

text \<open>Reserving a free square and recording it as a new footprint keeps the invariant.\<close>

lemma layout_inv_add:
  assumes inv: "layout_inv s" and free: "isGridCellFree s x z sz"
    and fp: "footprints s = xs @ ys" "footprints t = xs @ square x z sz # ys"
    and wf: "grid_wf t" and occ: "occ t = occ s \<union> square x z sz"
    and n: "gridSize t = gridSize s" and r: "roadCells t = roadCells s"
  shows "layout_inv t"
proof -
  have sq: "square x z sz \<subseteq> bounds (gridSize s)" "square x z sz \<inter> occ s = {}"
    using free by (simp_all add: isGridCellFree_iff)
  have old: "\<forall>F \<in> set xs \<union> set ys. F \<subseteq> occ s"
    using inv fp(1) by (auto simp: layout_inv_def)
  have "\<forall>F \<in> set xs \<union> set ys. F \<inter> square x z sz = {}"
    using old sq(2) by blast
  then have "pairwise_disjoint (footprints t)"
    using inv fp by (simp add: layout_inv_def pairwise_disjoint_insert)
  moreover have "square x z sz \<inter> set (roadCells s) = {}"
    using inv sq by (auto simp: layout_inv_def)
  ultimately show ?thesis
    using inv fp wf occ n r sq(1) by (auto simp: layout_inv_def)
qed

lemma layout_inv_rng [simp]: "layout_inv (s\<lparr>rng_state := st\<rparr>) = layout_inv s"
  by (simp add: layout_inv_def footprints_def occ_def grid_wf_def)

lemma layout_inv_types [simp]:
  "layout_inv (s\<lparr>buildingTypes := ts, buildingHeights := hs\<rparr>) = layout_inv s"
  by (simp add: layout_inv_def footprints_def occ_def grid_wf_def)

lemma footprints_markGridCells [simp]: "footprints (markGridCells s x z sz) = footprints s"
  by (simp add: footprints_def)

lemma layout_inv_mark_new:
  assumes inv: "layout_inv s" and free: "isGridCellFree s x z sz"
    and fp: "footprints s = xs @ ys" "footprints u = xs @ square x z sz # ys"
    and same: "grid_wf u = grid_wf s" "occ u = occ s" "gridSize u = gridSize s" "roadCells u = roadCells s"
  shows "layout_inv (markGridCells u x z sz)"
proof (rule layout_inv_add [OF inv free fp(1)])
  have wf: "grid_wf u" using inv same by (simp add: layout_inv_def)
  have "square x z sz \<subseteq> bounds (gridSize s)" using free by (simp add: isGridCellFree_iff)
  then show "occ (markGridCells u x z sz) = occ s \<union> square x z sz"
    using same by (auto simp: occ_markGridCells [OF wf])
  show "grid_wf (markGridCells u x z sz)" by (rule markGridCells_wf [OF wf])
qed (simp_all add: fp(2) same)

lemma place_building_inv: "layout_inv s \<Longrightarrow> layout_inv (place_building R i s)"
proof -
  assume inv: "layout_inv s"
  obtain res s' where fs: "find_spot R 5 (gridSize s - 10) 5 100 s = (res, s')" by fastforce
  obtain st where s': "s' = s\<lparr>rng_state := st\<rparr>"
    using find_spot_state [of R 5 "gridSize s - 10" 5 100 s] fs by auto
  show ?thesis
  proof (cases res)
    case None
    with inv show ?thesis by (simp add: place_building_def fs s')
  next
    case (Some c)
    then obtain x z where c: "res = Some (x, z)" by (cases c) auto
    have free: "isGridCellFree s x z 5" using find_spot_free [of R 5 "gridSize s - 10" 5 100 s] fs c by simp
    have "layout_inv (markGridCells (s'\<lparr>buildingCells := buildingCells s' @ [(x, z)]\<rparr>) x z 5)"
      by (rule layout_inv_mark_new [OF inv free])
         (simp_all add: footprints_def s' occ_def grid_wf_def)
    then show ?thesis by (simp add: place_building_def fs c Let_def)
  qed
qed

lemma place_tree_inv: "layout_inv s \<Longrightarrow> layout_inv (place_tree R i s)"
proof -
  assume inv: "layout_inv s"
  obtain res s' where fs: "find_spot R 3 (gridSize s - 6) 3 50 s = (res, s')" by fastforce
  obtain st where s': "s' = s\<lparr>rng_state := st\<rparr>"
    using find_spot_state [of R 3 "gridSize s - 6" 3 50 s] fs by auto
  show ?thesis
  proof (cases res)
    case None
    with inv show ?thesis by (simp add: place_tree_def fs s')
  next
    case (Some c)
    then obtain x z where c: "res = Some (x, z)" by (cases c) auto
    have free: "isGridCellFree s x z 3" using find_spot_free [of R 3 "gridSize s - 6" 3 50 s] fs c by simp
    have "layout_inv (markGridCells (s'\<lparr>treeCells := treeCells s' @ [(x, z)]\<rparr>) x z 3)"
      by (rule layout_inv_mark_new [OF inv free, of "map (\<lambda>c. square (fst c) (snd c) 5) (buildingCells s) @
               map (\<lambda>c. square (fst c) (snd c) 3) (treeCells s)"])
         (simp_all add: footprints_def s' occ_def grid_wf_def)
    then show ?thesis by (simp add: place_tree_def fs c)
  qed
qed

lemma try_lamp_inv: "layout_inv s \<Longrightarrow> layout_inv (try_lamp g x z s)"
proof -
  assume inv: "layout_inv s"
  show ?thesis
  proof (cases "g \<and> isGridCellFree s x z 1")
    case True
    then have free: "isGridCellFree s x z 1" by simp
    have "layout_inv (markGridCells (s\<lparr>streetLamps := streetLamps s @ [(x, z)]\<rparr>) x z 1)"
      by (rule layout_inv_mark_new [OF inv free, of "footprints s" "[]"])
         (simp_all add: footprints_def occ_def grid_wf_def)
    with True show ?thesis by (simp add: try_lamp_def)
  next
    case False
    with inv show ?thesis by (auto simp: try_lamp_def)
  qed
qed

lemma try_lamp_gridSize [simp]: "gridSize (try_lamp g x z s) = gridSize s"
  by (simp add: try_lamp_def)

lemma lamp_pairs_inv:
  "layout_inv s \<Longrightarrow> layout_inv (lamp_pair_h c i s)" "layout_inv s \<Longrightarrow> layout_inv (lamp_pair_v c i s)"
  by (simp_all add: lamp_pair_h_def lamp_pair_v_def try_lamp_inv)

lemma layout_inv_clear:
  "layout_inv s \<Longrightarrow> layout_inv (s\<lparr>buildingCells := [], buildingHeights := [], buildingTypes := []\<rparr>)"
  "layout_inv s \<Longrightarrow> layout_inv (s\<lparr>treeCells := []\<rparr>)"
  "layout_inv s \<Longrightarrow> layout_inv (s\<lparr>streetLamps := []\<rparr>)"
  by (auto simp: layout_inv_def footprints_def occ_def grid_wf_def
      dest: pairwise_disjoint_appendD pairwise_disjoint_remove_mid)

lemma phases_inv:
  assumes "layout_inv s"
  shows "layout_inv (placeRandomCar (placeStreetLamps (placeTrees R (placeBuildingsRandomly R s))))"
proof -
  have b: "layout_inv (placeBuildingsRandomly R s)"
    unfolding placeBuildingsRandomly_def Let_def
    by (rule fold_invariant_step [where P = layout_inv]) (simp_all add: place_building_inv layout_inv_clear assms)
  have t: "layout_inv (placeTrees R (placeBuildingsRandomly R s))"
    unfolding placeTrees_def Let_def
    by (rule fold_invariant_step [where P = layout_inv]) (simp_all add: place_tree_inv layout_inv_clear b)
  have l: "layout_inv (placeStreetLamps (placeTrees R (placeBuildingsRandomly R s)))"
    unfolding placeStreetLamps_def Let_def
    by (intro fold_invariant_step [where P = layout_inv])
       (simp_all add: lamp_pairs_inv layout_inv_clear t)
  then show ?thesis
    by (simp add: placeRandomCar_def layout_inv_def footprints_def occ_def grid_wf_def)
qed

section \<open>Fields the placement phases do not write\<close>

lemma find_spot_fields:
  "roadCells (snd (find_spot R off spread sz n s)) = roadCells s \<and>
   gridSize (snd (find_spot R off spread sz n s)) = gridSize s \<and>
   config (snd (find_spot R off spread sz n s)) = config s \<and>
   buildingCells (snd (find_spot R off spread sz n s)) = buildingCells s \<and>
   buildingTypes (snd (find_spot R off spread sz n s)) = buildingTypes s \<and>
   treeCells (snd (find_spot R off spread sz n s)) = treeCells s"
  using find_spot_state [of R off spread sz n s] by auto

lemma place_building_fields [simp]:
  "roadCells (place_building R i s) = roadCells s"
  "gridSize (place_building R i s) = gridSize s"
  "config (place_building R i s) = config s"
  "treeCells (place_building R i s) = treeCells s"
  using find_spot_fields [of R 5 "gridSize s - 10" 5 100 s]
  by (auto simp: place_building_def Let_def split: prod.splits option.splits)

lemma place_tree_fields [simp]:
  "roadCells (place_tree R i s) = roadCells s"
  "gridSize (place_tree R i s) = gridSize s"
  "config (place_tree R i s) = config s"
  using find_spot_fields [of R 3 "gridSize s - 6" 3 50 s]
  by (auto simp: place_tree_def split: prod.splits option.splits)

lemma lamp_fields [simp]:
  "roadCells (try_lamp g x z s) = roadCells s" "config (try_lamp g x z s) = config s"
  "roadCells (lamp_pair_h c i s) = roadCells s" "gridSize (lamp_pair_h c i s) = gridSize s"
  "roadCells (lamp_pair_v c i s) = roadCells s" "gridSize (lamp_pair_v c i s) = gridSize s"
  by (simp_all add: try_lamp_def lamp_pair_h_def lamp_pair_v_def)

lemma phases_fields:
  "roadCells (placeRandomCar (placeStreetLamps (placeTrees R (placeBuildingsRandomly R s)))) = roadCells s \<and>
   gridSize (placeRandomCar (placeStreetLamps (placeTrees R (placeBuildingsRandomly R s)))) = gridSize s \<and>
   carPosition (placeRandomCar (placeStreetLamps (placeTrees R (placeBuildingsRandomly R s)))) =
     (center (gridSize s) - 5, center (gridSize s))"
proof -
  have b: "roadCells (placeBuildingsRandomly R s) = roadCells s \<and> gridSize (placeBuildingsRandomly R s) = gridSize s"
    by (simp add: placeBuildingsRandomly_def Let_def fold_frame)
  have t: "roadCells (placeTrees R s') = roadCells s' \<and> gridSize (placeTrees R s') = gridSize s'" for s'
    by (simp add: placeTrees_def Let_def fold_frame)
  have l: "roadCells (placeStreetLamps s') = roadCells s' \<and> gridSize (placeStreetLamps s') = gridSize s'" for s'
    by (simp add: placeStreetLamps_def Let_def fold_frame)
  show ?thesis
    using b t [of "placeBuildingsRandomly R s"] l [of "placeTrees R (placeBuildingsRandomly R s)"]
    by (simp add: placeRandomCar_def)
qed

section \<open>Roads and pond\<close>

lemma square_one [simp]: "square x z 1 = {(x, z)}"
  by (simp add: square_def half_def)

lemma mark_roads_inv:
  assumes "grid_wf s" "buildingCells s = []" "treeCells s = []" "streetLamps s = []"
  shows "layout_inv (mark_roads s)"
proof -
  have "grid_wf (fold (\<lambda>c s. markGridCells s (fst c) (snd c) 1) cs s) \<and>
        occ (fold (\<lambda>c s. markGridCells s (fst c) (snd c) 1) cs s) = occ s \<union> (set cs \<inter> bounds (gridSize s))"
    if "grid_wf s" for cs and s :: "'s city_scene"
    using that
  proof (induction cs arbitrary: s)
    case Nil
    then show ?case by simp
  next
    case (Cons c cs)
    have wf: "grid_wf (markGridCells s (fst c) (snd c) 1)" by (rule markGridCells_wf [OF Cons.prems])
    show ?case using Cons.IH [OF wf] occ_markGridCells [OF Cons.prems, of "fst c" "snd c" 1]
      by (cases c) auto
  qed
  from this [OF assms(1), of "roadCells s"] assms(2-4) show ?thesis
    by (auto simp: mark_roads_def layout_inv_def footprints_def fold_frame)
qed

definition pond_disc :: "int \<Rightarrow> int \<Rightarrow> int \<Rightarrow> cell set" where
  "pond_disc cx cy r = {(i, j). (i - cx)\<^sup>2 + (j - cy)\<^sup>2 \<le> r\<^sup>2}"

lemma mark_pond_step:
  assumes "grid_wf s"
  shows "grid_wf (fold (\<lambda>j s. if (i - cx)\<^sup>2 + (j - cy)\<^sup>2 \<le> r\<^sup>2 then mark_cell i j s else s) js s) \<and>
         occ (fold (\<lambda>j s. if (i - cx)\<^sup>2 + (j - cy)\<^sup>2 \<le> r\<^sup>2 then mark_cell i j s else s) js s) =
           occ s \<union> (({i} \<times> set js) \<inter> pond_disc cx cy r \<inter> bounds (gridSize s)) \<and>
         occupancy.more (fold (\<lambda>j s. if (i - cx)\<^sup>2 + (j - cy)\<^sup>2 \<le> r\<^sup>2 then mark_cell i j s else s) js s) = occupancy.more s \<and>
         gridSize (fold (\<lambda>j s. if (i - cx)\<^sup>2 + (j - cy)\<^sup>2 \<le> r\<^sup>2 then mark_cell i j s else s) js s) = gridSize s"
  using assms
proof (induction js arbitrary: s)
  case Nil
  then show ?case by simp
next
  case (Cons j js)
  let ?t = "if (i - cx)\<^sup>2 + (j - cy)\<^sup>2 \<le> r\<^sup>2 then mark_cell i j s else s"
  have wf: "grid_wf ?t" using mark_cell_wf [OF Cons.prems] Cons.prems by simp
  have "occ ?t = occ s \<union> ({(i, j)} \<inter> pond_disc cx cy r \<inter> bounds (gridSize s))"
    using occ_mark_cell [OF Cons.prems, of i j] by (auto simp: pond_disc_def)
  with Cons.IH [OF wf] show ?case by auto
qed

lemma mark_pond_occ:
  assumes "grid_wf s" "0 \<le> pond_r s"
  shows "grid_wf (mark_pond s) \<and>
         occ (mark_pond s) = occ s \<union> (pond_disc (pond_cx s) (pond_cy s) (pond_r s) \<inter> bounds (gridSize s)) \<and>
         occupancy.more (mark_pond s) = occupancy.more s \<and> gridSize (mark_pond s) = gridSize s"
proof -
  let ?cx = "pond_cx s" and ?cy = "pond_cy s" and ?r = "pond_r s" and ?n = "gridSize s"
  let ?js = "[max 0 (?cy - ?r)..min (?n - 1) (?cy + ?r)]"
  let ?f = "\<lambda>i s. fold (\<lambda>j s. if (i - ?cx)\<^sup>2 + (j - ?cy)\<^sup>2 \<le> ?r\<^sup>2 then mark_cell i j s else s) ?js s"
  have rows: "grid_wf (fold ?f is t) \<and>
      occ (fold ?f is t) = occ t \<union> ((set is \<times> set ?js) \<inter> pond_disc ?cx ?cy ?r \<inter> bounds (gridSize t)) \<and>
      occupancy.more (fold ?f is t) = occupancy.more t \<and> gridSize (fold ?f is t) = gridSize t"
    if "grid_wf t" for "is" and t :: "'s city_scene"
    using that
  proof (induction "is" arbitrary: t)
    case Nil
    then show ?case by simp
  next
    case (Cons i "is")
    note st = mark_pond_step [OF Cons.prems, of i ?cx ?cy ?r ?js]
    with Cons.IH [of "?f i t"] show ?case by auto
  qed
  have disc: "pond_disc ?cx ?cy ?r \<inter> bounds ?n =
      (set [max 0 (?cx - ?r)..min (?n - 1) (?cx + ?r)] \<times> set ?js) \<inter> pond_disc ?cx ?cy ?r \<inter> bounds ?n"
  proof -
    have "\<bar>a - c\<bar> \<le> ?r" if "(a - c)\<^sup>2 + (b - d)\<^sup>2 \<le> ?r\<^sup>2" for a b c d
    proof -
      have "(a - c)\<^sup>2 \<le> ?r\<^sup>2" using that zero_le_power2 [of "b - d"] by linarith
      then have "\<bar>a - c\<bar> \<le> \<bar>?r\<bar>" by (simp add: abs_le_square_iff)
      then show ?thesis using assms(2) by simp
    qed
    note near = this
    show ?thesis
    proof (intro equalityI subsetI)
      fix p assume p: "p \<in> pond_disc ?cx ?cy ?r \<inter> bounds ?n"
      obtain i j where ij: "p = (i, j)" by fastforce
      have d: "(i - ?cx)\<^sup>2 + (j - ?cy)\<^sup>2 \<le> ?r\<^sup>2" using p ij by (simp add: pond_disc_def)
      have "\<bar>i - ?cx\<bar> \<le> ?r" by (rule near [OF d])
      moreover have "\<bar>j - ?cy\<bar> \<le> ?r" by (rule near [of j _ i]) (use d in \<open>simp add: add.commute\<close>)
      moreover have "0 \<le> i" "i < ?n" "0 \<le> j" "j < ?n" using p ij by (auto simp: bounds_def)
      ultimately show "p \<in> (set [max 0 (?cx - ?r)..min (?n - 1) (?cx + ?r)] \<times> set ?js) \<inter>
          pond_disc ?cx ?cy ?r \<inter> bounds ?n"
        using p ij by auto
    qed auto
  qed
  show ?thesis
    using rows [OF assms(1), of "[max 0 (?cx - ?r)..min (?n - 1) (?cx + ?r)]"] disc
    by (simp add: mark_pond_def Let_def)
qed

lemma mark_pond_inv:
  assumes "layout_inv s"
  shows "layout_inv (mark_pond s)"
proof -
  let ?cx = "pond_cx s" and ?cy = "pond_cy s" and ?r = "pond_r s" and ?n = "gridSize s"
  let ?js = "[max 0 (?cy - ?r)..min (?n - 1) (?cy + ?r)]"
  let ?f = "\<lambda>i s. fold (\<lambda>j s. if (i - ?cx)\<^sup>2 + (j - ?cy)\<^sup>2 \<le> ?r\<^sup>2 then mark_cell i j s else s) ?js s"
  have rows: "grid_wf (fold ?f is t) \<and> occ t \<subseteq> occ (fold ?f is t) \<and>
      occupancy.more (fold ?f is t) = occupancy.more t \<and> gridSize (fold ?f is t) = gridSize t"
    if "grid_wf t" for "is" and t :: "'s city_scene"
    using that
  proof (induction "is" arbitrary: t)
    case Nil
    then show ?case by simp
  next
    case (Cons i "is")
    note st = mark_pond_step [OF Cons.prems, of i ?cx ?cy ?r ?js]
    with Cons.IH [of "?f i t"] show ?case by auto
  qed
  have wf: "grid_wf s" using assms by (simp add: layout_inv_def)
  from rows [OF wf, of "[max 0 (?cx - ?r)..min (?n - 1) (?cx + ?r)]"]
  have wf': "grid_wf (mark_pond s)" and sub: "occ s \<subseteq> occ (mark_pond s)"
    and more: "occupancy.more (mark_pond s) = occupancy.more s" and n: "gridSize (mark_pond s) = gridSize s"
    by (simp_all add: mark_pond_def Let_def)
  have fp: "footprints (mark_pond s) = footprints s" and rd: "roadCells (mark_pond s) = roadCells s"
    using scene_more_cong [OF more] by (simp_all add: footprints_def)
  have roads: "set (roadCells s) \<inter> bounds (gridSize s) \<subseteq> occ (mark_pond s)"
    using assms sub by (auto simp: layout_inv_def)
  have feats: "\<forall>F \<in> set (footprints s). F \<subseteq> occ (mark_pond s) \<and> F \<subseteq> bounds (gridSize s) \<and>
      F \<inter> set (roadCells s) = {}"
    using assms sub unfolding layout_inv_def by (meson subset_trans)
  show ?thesis
    using assms wf' roads feats unfolding layout_inv_def fp rd n by simp
qed

section \<open>The whole layout\<close>

lemma bresenhamLine_Some: "\<exists>ps. bresenhamLine x0 y0 x1 y1 = Some ps"
  by (simp add: bresenhamLine_eq_walk)

lemma generate_eq:
  assumes "bresenhamLine 5 (center (gridSize s)) (gridSize s - 5) (center (gridSize s)) = Some r1"
    and "bresenhamLine (center (gridSize s)) 5 (center (gridSize s)) (gridSize s - 5) = Some r2"
  shows "generateFuturisticLayout R s =
     Some (mark_pond (let s2 = placeRandomCar (placeStreetLamps (placeTrees R (placeBuildingsRandomly R
                            (mark_roads (s\<lparr>roadCells := roadCells s @ r1 @ r2\<rparr>)))))
                      in s2\<lparr>pond_cx := center (gridSize s) + 8, pond_cy := center (gridSize s) - 8,
                            pond_r := trunc_int (pondRadius (config s2))\<rparr>))"
  using assms by (simp add: generateFuturisticLayout_def Let_def)

lemma layout_inv_pond_fields [simp]:
  "layout_inv (s\<lparr>pond_cx := a, pond_cy := b, pond_r := r\<rparr>) = layout_inv s"
  by (simp add: layout_inv_def footprints_def occ_def grid_wf_def)

lemma mark_pond_frame [simp]:
  "gridSize (mark_pond s) = gridSize s" "occupancy.more (mark_pond s) = occupancy.more s"
  by (simp_all add: mark_pond_def Let_def fold_frame)

lemma mark_roads_frame [simp]:
  "gridSize (mark_roads s) = gridSize s" "occupancy.more (mark_roads s) = occupancy.more s"
  by (simp_all add: mark_roads_def fold_frame)

lemma phases_config:
  "config (placeRandomCar (placeStreetLamps (placeTrees R (placeBuildingsRandomly R s)))) = config s"
proof -
  have lamps: "config (lamp_pair_h c i s) = config s" "config (lamp_pair_v c i s) = config s"
    for c i and s :: "'s city_scene"
    by (simp_all add: lamp_pair_h_def lamp_pair_v_def)
  show ?thesis
    by (simp add: lamps placeRandomCar_def placeStreetLamps_def placeTrees_def placeBuildingsRandomly_def
        Let_def fold_frame)
qed

lemma generate_Some: "\<exists>s'. generateFuturisticLayout R s = Some s'"
  using bresenhamLine_Some [of 5 "center (gridSize s)" "gridSize s - 5" "center (gridSize s)"]
    bresenhamLine_Some [of "center (gridSize s)" 5 "center (gridSize s)" "gridSize s - 5"]
  by (auto simp: generate_eq)

text \<open>What the generator writes besides the placements: roads, car, pond, grid size.\<close>

lemma generate_fields:
  assumes "bresenhamLine 5 (center (gridSize s)) (gridSize s - 5) (center (gridSize s)) = Some r1"
    and "bresenhamLine (center (gridSize s)) 5 (center (gridSize s)) (gridSize s - 5) = Some r2"
    and "generateFuturisticLayout R s = Some s'"
  shows "roadCells s' = roadCells s @ r1 @ r2 \<and> gridSize s' = gridSize s \<and> config s' = config s \<and>
    carPosition s' = (center (gridSize s) - 5, center (gridSize s)) \<and>
    pond_cx s' = center (gridSize s) + 8 \<and> pond_cy s' = center (gridSize s) - 8 \<and>
    pond_r s' = trunc_int (pondRadius (config s))"
proof -
  let ?t = "mark_roads (s\<lparr>roadCells := roadCells s @ r1 @ r2\<rparr>)"
  have "occupancy.more (mark_roads (s\<lparr>roadCells := roadCells s @ r1 @ r2\<rparr>)) =
        occupancy.more (s\<lparr>roadCells := roadCells s @ r1 @ r2\<rparr>)"
    by simp
  from scene_more_cong [OF this]
  have t: "roadCells ?t = roadCells s @ r1 @ r2" "config ?t = config s" by simp_all
  have s': "s' = mark_pond (let s2 = placeRandomCar (placeStreetLamps (placeTrees R (placeBuildingsRandomly R ?t)))
                      in s2\<lparr>pond_cx := center (gridSize s) + 8, pond_cy := center (gridSize s) - 8,
                            pond_r := trunc_int (pondRadius (config s2))\<rparr>)"
    using assms generate_eq [OF assms(1,2), of R] by simp
  define u where "u = placeRandomCar (placeStreetLamps (placeTrees R (placeBuildingsRandomly R ?t)))"
  have u: "roadCells u = roadCells s @ r1 @ r2" "gridSize u = gridSize s" "config u = config s"
    "carPosition u = (center (gridSize s) - 5, center (gridSize s))"
    using phases_fields [of R ?t] phases_config [of R ?t] t by (simp_all add: u_def)
  let ?v = "u\<lparr>pond_cx := center (gridSize s) + 8, pond_cy := center (gridSize s) - 8,
               pond_r := trunc_int (pondRadius (config u))\<rparr>"
  have "occupancy.more (mark_pond ?v) = occupancy.more ?v" by simp
  from scene_more_cong [OF this] u show ?thesis
    by (simp add: s' u_def [symmetric] Let_def)
qed


section \<open>Reproducibility\<close>

lemma mark_cell_rng: "mark_cell i j (s\<lparr>rng_state := a\<rparr>) = (mark_cell i j s)\<lparr>rng_state := a\<rparr>"
  by (simp add: mark_cell_def)

lemma markGridCells_rng:
  "markGridCells (s\<lparr>rng_state := a\<rparr>) x z sz = (markGridCells s x z sz)\<lparr>rng_state := a\<rparr>"
proof -
  have row: "fold (\<lambda>j. mark_cell i j) js (t\<lparr>rng_state := a\<rparr>) = (fold (\<lambda>j. mark_cell i j) js t)\<lparr>rng_state := a\<rparr>"
    for i js t
    by (induction js arbitrary: t) (simp_all add: mark_cell_rng)
  have "fold (\<lambda>i s. fold (\<lambda>j. mark_cell i j) js s) is (t\<lparr>rng_state := a\<rparr>) =
        (fold (\<lambda>i s. fold (\<lambda>j. mark_cell i j) js s) is t)\<lparr>rng_state := a\<rparr>" for "is" js t
    by (induction "is" arbitrary: t) (simp_all add: row)
  then show ?thesis by (simp add: markGridCells_def)
qed

lemma mark_roads_rng: "mark_roads (s\<lparr>rng_state := a\<rparr>) = (mark_roads s)\<lparr>rng_state := a\<rparr>"
proof -
  have "fold (\<lambda>c s. markGridCells s (fst c) (snd c) 1) cs (t\<lparr>rng_state := a\<rparr>) =
        (fold (\<lambda>c s. markGridCells s (fst c) (snd c) 1) cs t)\<lparr>rng_state := a\<rparr>" for cs t
    by (induction cs arbitrary: t) (simp_all add: markGridCells_rng)
  then show ?thesis by (simp add: mark_roads_def)
qed

text \<open>The building phase reseeds: its result ignores the incoming generator state.\<close>

lemma placeBuildingsRandomly_rng [simp]:
  "placeBuildingsRandomly R (s\<lparr>rng_state := a\<rparr>) = placeBuildingsRandomly R s"
  by (simp add: placeBuildingsRandomly_def)

lemma generate_rng: "generateFuturisticLayout R (s\<lparr>rng_state := a\<rparr>) = generateFuturisticLayout R s"
proof -
  have upd: "s\<lparr>rng_state := a, roadCells := rs\<rparr> = (s\<lparr>roadCells := rs\<rparr>)\<lparr>rng_state := a\<rparr>" for rs
    by simp
  show ?thesis
    by (simp add: generateFuturisticLayout_def Let_def upd mark_roads_rng del: placeBuildingsRandomly_rng)
      (simp add: upd [symmetric])
qed


text \<open>
  C6: generation is reproducible: the layout does not depend on the generator state
  the scene holds when generation starts, since each placement phase reseeds.
\<close>

theorem generate_deterministic:
  "generateFuturisticLayout R (s\<lparr>rng_state := a\<rparr>) = generateFuturisticLayout R (s\<lparr>rng_state := b\<rparr>)"
  by (simp add: generate_rng)

text \<open>
  The tree phase reseeds with its own constant seed: its result does not depend on
  the generator state left by the building phase.
\<close>

theorem placeTrees_reseeded:
  "placeTrees R (s\<lparr>rng_state := a\<rparr>) = placeTrees R (s\<lparr>rng_state := b\<rparr>)"
  by (simp add: placeTrees_def)

text \<open>The horizontal and vertical roads of a grid of size at least 10.\<close>

lemma generate_roads_lines:
  assumes "10 \<le> gridSize s"
  shows "bresenhamLine 5 (center (gridSize s)) (gridSize s - 5) (center (gridSize s)) =
           Some (map (\<lambda>x. (x, center (gridSize s))) [5..gridSize s - 5])"
    and "bresenhamLine (center (gridSize s)) 5 (center (gridSize s)) (gridSize s - 5) =
           Some (map (\<lambda>z. (center (gridSize s), z)) [5..gridSize s - 5])"
  using assms by (simp_all add: bresenhamLine_horizontal bresenhamLine_vertical)

text \<open>
  C4: the road cells the generator adds are exactly the horizontal run from
  \<open>(5, c)\<close> to \<open>(gridSize - 5, c)\<close> followed by the vertical run from \<open>(c, 5)\<close> to
  \<open>(c, gridSize - 5)\<close>, \<open>c = gridSize / 2\<close>.
\<close>

theorem generate_roads:
  assumes "10 \<le> gridSize s" "generateFuturisticLayout R s = Some s'"
  shows "roadCells s' = roadCells s @ map (\<lambda>x. (x, center (gridSize s))) [5..gridSize s - 5] @
                         map (\<lambda>z. (center (gridSize s), z)) [5..gridSize s - 5]"
  using generate_fields [OF generate_roads_lines [OF assms(1)] assms(2)] by simp

theorem generate_roads_witness:
  "10 \<le> gridSize ((CityScene (0::int))\<lparr>gridSize := 50\<rparr>) \<and>
   generateFuturisticLayout sample_rng ((CityScene 0)\<lparr>gridSize := 50\<rparr>) =
     Some (the (generateFuturisticLayout sample_rng ((CityScene 0)\<lparr>gridSize := 50\<rparr>))) \<and>
   roadCells (the (generateFuturisticLayout sample_rng ((CityScene 0)\<lparr>gridSize := 50\<rparr>))) =
     map (\<lambda>x. (x, 25)) [5..45] @ map (\<lambda>z. (25, z)) [5..45]"
proof -
  let ?S = "(CityScene (0::int))\<lparr>gridSize := 50\<rparr>"
  obtain s' where s': "generateFuturisticLayout sample_rng ?S = Some s'"
    using generate_Some by blast
  have "roadCells s' = map (\<lambda>x. (x, 25)) [5..45] @ map (\<lambda>z. (25, z)) [5..45]"
    using generate_roads [OF _ s'] by (simp add: CityScene_def center_def)
  with s' show ?thesis by simp
qed

text \<open>
  The car stands on the horizontal road, five cells left of the centre (on grids of
  size at least 20, where that cell lies on the road).
\<close>

theorem generate_car_on_road:
  assumes "20 \<le> gridSize s" "generateFuturisticLayout R s = Some s'"
  shows "carPosition s' = (center (gridSize s) - 5, center (gridSize s)) \<and> carPosition s' \<in> set (roadCells s')"
proof -
  have "10 \<le> gridSize s" using assms(1) by simp
  note f = generate_fields [OF generate_roads_lines [OF this] assms(2)]
  have "5 \<le> center (gridSize s) - 5" "center (gridSize s) - 5 \<le> gridSize s - 5"
    using assms(1) by (simp_all add: center_def cdiv_def)
  with f show ?thesis by auto
qed

theorem generate_car_on_road_witness:
  "20 \<le> gridSize ((CityScene (0::int))\<lparr>gridSize := 50\<rparr>) \<and>
   generateFuturisticLayout sample_rng ((CityScene 0)\<lparr>gridSize := 50\<rparr>) =
     Some (the (generateFuturisticLayout sample_rng ((CityScene 0)\<lparr>gridSize := 50\<rparr>))) \<and>
   carPosition (the (generateFuturisticLayout sample_rng ((CityScene 0)\<lparr>gridSize := 50\<rparr>))) = (20, 25)"
proof -
  let ?S = "(CityScene (0::int))\<lparr>gridSize := 50\<rparr>"
  obtain s' where s': "generateFuturisticLayout sample_rng ?S = Some s'"
    using generate_Some by blast
  have "carPosition s' = (20, 25)"
    using generate_car_on_road [OF _ s'] by (simp add: CityScene_def center_def)
  with s' show ?thesis by simp
qed

lemma generate_pre_pond:
  assumes "grid_wf s" "buildingCells s = []" "treeCells s = []" "streetLamps s = []"
    and "generateFuturisticLayout R s = Some s'"
  shows "\<exists>t. s' = mark_pond t \<and> layout_inv t"
proof -
  obtain r1 r2 where
    r1: "bresenhamLine 5 (center (gridSize s)) (gridSize s - 5) (center (gridSize s)) = Some r1" and
    r2: "bresenhamLine (center (gridSize s)) 5 (center (gridSize s)) (gridSize s - 5) = Some r2"
    using bresenhamLine_Some by blast
  define u where "u = placeRandomCar (placeStreetLamps (placeTrees R (placeBuildingsRandomly R
               (mark_roads (s\<lparr>roadCells := roadCells s @ r1 @ r2\<rparr>)))))"
  have "layout_inv (mark_roads (s\<lparr>roadCells := roadCells s @ r1 @ r2\<rparr>))"
    by (rule mark_roads_inv) (use assms(1) in \<open>simp_all add: assms(2-4) grid_wf_def\<close>)
  then have inv: "layout_inv u"
    unfolding u_def by (rule phases_inv)
  let ?t = "u\<lparr>pond_cx := center (gridSize s) + 8, pond_cy := center (gridSize s) - 8,
               pond_r := trunc_int (pondRadius (config u))\<rparr>"
  have "s' = mark_pond ?t"
    using assms(5) by (simp add: generate_eq [OF r1 r2] Let_def u_def)
  with inv show ?thesis by auto
qed

text \<open>From a fresh scene the layout is produced and satisfies the layout invariant.\<close>

lemma generate_inv:
  assumes "grid_wf s" "buildingCells s = []" "treeCells s = []" "streetLamps s = []"
  shows "\<exists>s'. generateFuturisticLayout R s = Some s' \<and> layout_inv s'"
proof -
  obtain s' where s': "generateFuturisticLayout R s = Some s'"
    using generate_Some by blast
  with generate_pre_pond [OF assms s'] mark_pond_inv show ?thesis by blast
qed

lemma trunc_int_nonneg: "0 \<le> r \<Longrightarrow> 0 \<le> trunc_int r"
  by (simp add: trunc_int_def)

text \<open>
  C38: on a fresh scene with a non-negative pond radius, the generator reserves every grid
  cell of the filled pond disc: centre \<open>(c + 8, c - 8)\<close>, radius the truncated configured
  radius.
\<close>

theorem generate_pond_reserved:
  assumes "grid_wf s" "buildingCells s = []" "treeCells s = []" "streetLamps s = []"
    and "0 \<le> pondRadius (config s)" "generateFuturisticLayout R s = Some s'"
  shows "pond_cx s' = center (gridSize s) + 8 \<and> pond_cy s' = center (gridSize s) - 8 \<and>
         pond_r s' = trunc_int (pondRadius (config s)) \<and>
         pond_disc (pond_cx s') (pond_cy s') (pond_r s') \<inter> bounds (gridSize s') \<subseteq> occ s'"
proof -
  obtain t where t: "s' = mark_pond t" and inv: "layout_inv t"
    using generate_pre_pond [OF assms(1-4,6)] by blast
  obtain r1 r2 where
    r1: "bresenhamLine 5 (center (gridSize s)) (gridSize s - 5) (center (gridSize s)) = Some r1" and
    r2: "bresenhamLine (center (gridSize s)) 5 (center (gridSize s)) (gridSize s - 5) = Some r2"
    using bresenhamLine_Some by blast
  note f = generate_fields [OF r1 r2 assms(6)]
  have "occupancy.more (mark_pond t) = occupancy.more t" by simp
  note pf = scene_more_cong [OF this]
  have r: "0 \<le> pond_r t"
    using f pf t trunc_int_nonneg [OF assms(5)] by simp
  have wf: "grid_wf t" using inv by (simp add: layout_inv_def)
  from mark_pond_occ [OF wf r] pf t f show ?thesis by auto
qed

theorem generate_pond_reserved_witness:
  "grid_wf ((CityScene (0::int))\<lparr>gridSize := 50, occupiedGrid := initGrid 50\<rparr>) \<and>
   buildingCells ((CityScene (0::int))\<lparr>gridSize := 50, occupiedGrid := initGrid 50\<rparr>) = [] \<and>
   treeCells ((CityScene (0::int))\<lparr>gridSize := 50, occupiedGrid := initGrid 50\<rparr>) = [] \<and>
   streetLamps ((CityScene (0::int))\<lparr>gridSize := 50, occupiedGrid := initGrid 50\<rparr>) = [] \<and>
   0 \<le> pondRadius (config ((CityScene (0::int))\<lparr>gridSize := 50, occupiedGrid := initGrid 50\<rparr>)) \<and>
   generateFuturisticLayout sample_rng ((CityScene 0)\<lparr>gridSize := 50, occupiedGrid := initGrid 50\<rparr>) =
     Some (the (generateFuturisticLayout sample_rng ((CityScene 0)\<lparr>gridSize := 50, occupiedGrid := initGrid 50\<rparr>))) \<and>
   (33, 17) \<in> occ (the (generateFuturisticLayout sample_rng ((CityScene 0)\<lparr>gridSize := 50, occupiedGrid := initGrid 50\<rparr>)))"
proof -
  let ?S = "(CityScene (0::int))\<lparr>gridSize := 50, occupiedGrid := initGrid 50\<rparr>"
  have wf: "grid_wf ?S" by (simp add: grid_wf_def initGrid_def CityScene_def)
  obtain s' where s': "generateFuturisticLayout sample_rng ?S = Some s'"
    using generate_Some by blast
  have "(33, 17) \<in> occ s'"
    using generate_pond_reserved [OF wf _ _ _ _ s'] generate_fields [OF generate_roads_lines s']
    by (auto simp: CityScene_def center_def pond_disc_def bounds_def)
  with wf s' show ?thesis by (simp add: CityScene_def)
qed

text \<open>
  C39: the pond is laid over the horizontal road whenever the truncated radius is at
  least 8 (the configuration prompt allows radii up to 15): the road cell
  \<open>(c + 8, c)\<close> lies in the pond disc.
\<close>

theorem generate_pond_over_road:
  assumes "26 \<le> gridSize s" "8 \<le> pondRadius (config s)" "generateFuturisticLayout R s = Some s'"
  shows "(pond_cx s', pond_cy s' + 8) \<in> set (roadCells s') \<inter> pond_disc (pond_cx s') (pond_cy s') (pond_r s')"
proof -
  have "10 \<le> gridSize s" using assms(1) by simp
  note f = generate_fields [OF generate_roads_lines [OF this] assms(3)]
  have r: "8 \<le> pond_r s'" using f assms(2) by (simp add: trunc_int_def le_floor_iff)
  have "center (gridSize s) + 8 \<le> gridSize s - 5" "5 \<le> center (gridSize s) + 8"
    using assms(1) by (simp_all add: center_def cdiv_def)
  moreover have "(8::int)\<^sup>2 \<le> (pond_r s')\<^sup>2"
    using power_mono [OF r, of 2] by simp
  ultimately show ?thesis using f by (simp add: pond_disc_def)
qed

theorem generate_pond_over_road_witness:
  "26 \<le> gridSize ((CityScene (0::int))\<lparr>gridSize := 50, config := (config (CityScene (0::int)))\<lparr>pondRadius := 10\<rparr>\<rparr>) \<and>
   8 \<le> pondRadius (config ((CityScene (0::int))\<lparr>gridSize := 50, config := (config (CityScene (0::int)))\<lparr>pondRadius := 10\<rparr>\<rparr>)) \<and>
   generateFuturisticLayout sample_rng ((CityScene 0)\<lparr>gridSize := 50, config := (config (CityScene (0::int)))\<lparr>pondRadius := 10\<rparr>\<rparr>) =
     Some (the (generateFuturisticLayout sample_rng ((CityScene 0)\<lparr>gridSize := 50, config := (config (CityScene (0::int)))\<lparr>pondRadius := 10\<rparr>\<rparr>))) \<and>
   (33, 25) \<in> set (roadCells (the (generateFuturisticLayout sample_rng ((CityScene 0)\<lparr>gridSize := 50, config := (config (CityScene (0::int)))\<lparr>pondRadius := 10\<rparr>\<rparr>))))"
proof -
  let ?S = "(CityScene (0::int))\<lparr>gridSize := 50, config := (config (CityScene (0::int)))\<lparr>pondRadius := 10\<rparr>\<rparr>"
  obtain s' where s': "generateFuturisticLayout sample_rng ?S = Some s'"
    using generate_Some by blast
  have "(pond_cx s', pond_cy s' + 8) \<in> set (roadCells s')"
    using generate_pond_over_road [OF _ _ s'] by (simp add: CityScene_def)
  moreover have "pond_cx s' = 33" "pond_cy s' = 17"
    using generate_fields [OF generate_roads_lines s'] by (simp_all add: CityScene_def center_def)
  ultimately show ?thesis using s' by (simp add: CityScene_def)
qed

section \<open>Building types and heights\<close>

text \<open>The type and height lists agree with the style's prescription, in placement order.\<close>

definition buildings_ok :: "city_config \<Rightarrow> 's city_scene \<Rightarrow> bool" where
  "buildings_ok cfg t \<longleftrightarrow>
     buildingTypes t = map (expected_type cfg) [0..<length (buildingCells t)] \<and>
     buildingHeights t = map (\<lambda>ty. getFuturisticHeight cfg ty 0) (buildingTypes t)"

lemma place_building_ok:
  assumes "config s = cfg" "buildings_ok cfg s"
  shows "config (place_building R i s) = cfg \<and> buildings_ok cfg (place_building R i s) \<and>
         length (buildingCells (place_building R i s)) \<le> Suc (length (buildingCells s))"
proof -
  obtain res st where fs: "find_spot R 5 (gridSize s - 10) 5 100 s = (res, s\<lparr>rng_state := st\<rparr>)"
    using find_spot_state [of R 5 "gridSize s - 10" 5 100 s] by (metis prod.collapse)
  show ?thesis
  proof (cases res)
    case None
    then show ?thesis
      using fs assms by (simp add: place_building_def buildings_ok_def)
  next
    case (Some c)
    obtain x z where c: "c = (x, z)" by fastforce
    have "buildingTypes s @ [expected_type cfg (length (buildingCells s))] =
            map (expected_type cfg) [0..<Suc (length (buildingCells s))]"
      using assms(2) by (simp add: buildings_ok_def)
    then show ?thesis
      using Some c fs assms choose_type_expected [of cfg "length (buildingCells s)"]
      by (simp add: place_building_def buildings_ok_def Let_def getFuturisticHeight_index [of _ _ i])
  qed
qed


lemma fold_place_building_ok:
  assumes "config s = cfg" "buildings_ok cfg s"
  shows "config (fold (place_building R) is s) = cfg \<and> buildings_ok cfg (fold (place_building R) is s) \<and>
         length (buildingCells (fold (place_building R) is s)) \<le> length (buildingCells s) + length is"
  using assms
proof (induction "is" arbitrary: s)
  case Nil
  then show ?case by simp
next
  case (Cons i "is")
  from place_building_ok [OF Cons.prems, of R i] Cons.IH [of "place_building R i s"]
  show ?case by simp
qed

lemma placeBuildingsRandomly_ok:
  "config (placeBuildingsRandomly R s) = config s \<and>
   buildings_ok (config s) (placeBuildingsRandomly R s) \<and>
   length (buildingCells (placeBuildingsRandomly R s)) \<le> nat (numBuildings (config s))"
  using fold_place_building_ok [of "s\<lparr>buildingCells := [], buildingHeights := [], buildingTypes := [],
                 rng_state := srand R 12345\<rparr>" "config s" R "[0..numBuildings (config s) - 1]"]
  by (simp add: placeBuildingsRandomly_def buildings_ok_def)

lemma place_tree_bfields [simp]:
  "buildingCells (place_tree R i s) = buildingCells s"
  "buildingTypes (place_tree R i s) = buildingTypes s"
  "buildingHeights (place_tree R i s) = buildingHeights s"
proof -
  obtain res st where fs: "find_spot R 3 (gridSize s - 6) 3 50 s = (res, s\<lparr>rng_state := st\<rparr>)"
    using find_spot_state [of R 3 "gridSize s - 6" 3 50 s] by (metis prod.collapse)
  show "buildingCells (place_tree R i s) = buildingCells s"
    "buildingTypes (place_tree R i s) = buildingTypes s"
    "buildingHeights (place_tree R i s) = buildingHeights s"
    using fs by (auto simp: place_tree_def split: option.splits)
qed

lemma later_phases_bfields:
  "buildingCells (placeRandomCar (placeStreetLamps (placeTrees R t))) = buildingCells t \<and>
   buildingTypes (placeRandomCar (placeStreetLamps (placeTrees R t))) = buildingTypes t \<and>
   buildingHeights (placeRandomCar (placeStreetLamps (placeTrees R t))) = buildingHeights t"
proof -
  have lamps: "buildingCells (lamp_pair_h c i u) = buildingCells u" "buildingCells (lamp_pair_v c i u) = buildingCells u"
    "buildingTypes (lamp_pair_h c i u) = buildingTypes u" "buildingTypes (lamp_pair_v c i u) = buildingTypes u"
    "buildingHeights (lamp_pair_h c i u) = buildingHeights u" "buildingHeights (lamp_pair_v c i u) = buildingHeights u"
    for c i and u :: "'s city_scene"
    by (simp_all add: lamp_pair_h_def lamp_pair_v_def try_lamp_def)
  show ?thesis
    by (simp add: placeRandomCar_def placeStreetLamps_def placeTrees_def Let_def fold_frame lamps)
qed


lemma generate_buildings_ok:
  assumes "generateFuturisticLayout R s = Some s'"
  shows "buildings_ok (config s) s' \<and> length (buildingCells s') \<le> nat (numBuildings (config s))"
proof -
  obtain r1 r2 where
    r1: "bresenhamLine 5 (center (gridSize s)) (gridSize s - 5) (center (gridSize s)) = Some r1" and
    r2: "bresenhamLine (center (gridSize s)) 5 (center (gridSize s)) (gridSize s - 5) = Some r2"
    using bresenhamLine_Some by blast
  let ?t0 = "mark_roads (s\<lparr>roadCells := roadCells s @ r1 @ r2\<rparr>)"
  have "occupancy.more ?t0 = occupancy.more (s\<lparr>roadCells := roadCells s @ r1 @ r2\<rparr>)" by simp
  from scene_more_cong [OF this] have c0: "config ?t0 = config s" by simp
  define t where "t = placeBuildingsRandomly R ?t0"
  define u where "u = placeRandomCar (placeStreetLamps (placeTrees R t))"
  let ?v = "u\<lparr>pond_cx := center (gridSize s) + 8, pond_cy := center (gridSize s) - 8,
               pond_r := trunc_int (pondRadius (config u))\<rparr>"
  have s': "s' = mark_pond ?v"
    using assms by (simp add: generate_eq [OF r1 r2] Let_def u_def t_def)
  have "occupancy.more (mark_pond ?v) = occupancy.more ?v" by simp
  from scene_more_cong [OF this] s'
  have "buildingCells s' = buildingCells u \<and> buildingTypes s' = buildingTypes u \<and>
             buildingHeights s' = buildingHeights u"
    by simp
  with later_phases_bfields [of R t] placeBuildingsRandomly_ok [of R ?t0] c0 show ?thesis
    by (simp add: u_def t_def buildings_ok_def)
qed


text \<open>
  C5: the buildings the generator places carry the types the style prescribes (all
  skyscrapers, all towers, or skyscrapers then towers then offices by quota, in placement
  order) and the heights \<^verbatim>\<open>getFuturisticHeight\<close> gives those types; at most
  \<^verbatim>\<open>numBuildings\<close> are placed.
\<close>

theorem generate_buildings:
  assumes "generateFuturisticLayout R s = Some s'"
  shows "buildingTypes s' = map (expected_type (config s)) [0..<length (buildingCells s')] \<and>
         buildingHeights s' = map (\<lambda>ty. getFuturisticHeight (config s) ty 0) (buildingTypes s') \<and>
         length (buildingCells s') \<le> nat (numBuildings (config s))"
  using generate_buildings_ok [OF assms] by (simp add: buildings_ok_def)

theorem generate_buildings_witness:
  "generateFuturisticLayout sample_rng ((CityScene (0::int))\<lparr>config := (config (CityScene (0::int)))\<lparr>
       buildingStyle := 1, numBuildings := 5, skyscraperHeight := 40\<rparr>\<rparr>) =
     Some (the (generateFuturisticLayout sample_rng ((CityScene (0::int))\<lparr>config := (config (CityScene (0::int)))\<lparr>
       buildingStyle := 1, numBuildings := 5, skyscraperHeight := 40\<rparr>\<rparr>))) \<and>
   set (buildingTypes (the (generateFuturisticLayout sample_rng ((CityScene (0::int))\<lparr>config := (config (CityScene (0::int)))\<lparr>
       buildingStyle := 1, numBuildings := 5, skyscraperHeight := 40\<rparr>\<rparr>)))) \<subseteq> {0} \<and>
   set (buildingHeights (the (generateFuturisticLayout sample_rng ((CityScene (0::int))\<lparr>config := (config (CityScene (0::int)))\<lparr>
       buildingStyle := 1, numBuildings := 5, skyscraperHeight := 40\<rparr>\<rparr>)))) \<subseteq> {40} \<and>
   length (buildingCells (the (generateFuturisticLayout sample_rng ((CityScene (0::int))\<lparr>config := (config (CityScene (0::int)))\<lparr>
       buildingStyle := 1, numBuildings := 5, skyscraperHeight := 40\<rparr>\<rparr>)))) \<le> 5"
proof -
  let ?S = "(CityScene (0::int))\<lparr>config := (config (CityScene (0::int)))\<lparr>
       buildingStyle := 1, numBuildings := 5, skyscraperHeight := 40\<rparr>\<rparr>"
  obtain s' where s': "generateFuturisticLayout sample_rng ?S = Some s'"
    using generate_Some by blast
  note g = generate_buildings [OF s']
  have cfg: "expected_type (config ?S) = (\<lambda>_. 0)"
    by (simp add: fun_eq_iff CityScene_def expected_type_def)
  have h: "getFuturisticHeight (config ?S) 0 0 = 40"
    by (simp add: CityScene_def getFuturisticHeight_def)
  have ty: "set (buildingTypes s') \<subseteq> {0}"
    using g unfolding cfg by auto
  have "set (buildingHeights s') \<subseteq> {40}"
    using g ty h by auto
  moreover have "length (buildingCells s') \<le> 5"
    using g by (simp add: CityScene_def)
  ultimately show ?thesis using s' ty by simp
qed


text \<open>
  \<^verbatim>\<open>CityScene::init\<close> on a freshly constructed scene always produces a layout
  satisfying the invariant, over a grid of the size the size class selects.
\<close>

lemma init_inv:
  "\<exists>s'. init R (CityScene st) cs nb style tw th bw bh sw sh pr nsk nt no = Some s' \<and>
        layout_inv s' \<and> gridSize s' = gridSize_of cs \<and>
        config s' = \<lparr>citySize = cs, numBuildings = nb, numSkyscrapers = nsk, numTowers = nt,
                 numOfficeBuildings = no, buildingStyle = style, towerWidth = tw, towerHeight = th,
                 buildingWidth = bw, buildingHeight = bh, skyscraperWidth = sw, skyscraperHeight = sh,
                 pondRadius = pr\<rparr> \<and>
        buildingTypes s' = map (expected_type (config s')) [0..<length (buildingCells s')] \<and>
        buildingHeights s' = map (\<lambda>ty. getFuturisticHeight (config s') ty 0) (buildingTypes s') \<and>
        length (buildingCells s') \<le> nat nb"
proof -
  let ?cfg = "\<lparr>citySize = cs, numBuildings = nb, numSkyscrapers = nsk, numTowers = nt,
                 numOfficeBuildings = no, buildingStyle = style, towerWidth = tw, towerHeight = th,
                 buildingWidth = bw, buildingHeight = bh, skyscraperWidth = sw, skyscraperHeight = sh,
                 pondRadius = pr\<rparr>"
  let ?s = "(CityScene st)\<lparr>config := ?cfg, gridSize := gridSize_of cs, occupiedGrid := initGrid (gridSize_of cs)\<rparr>"
  have wf: "grid_wf ?s"
    by (simp add: grid_wf_def initGrid_def gridSize_of_def)
  obtain s' where s': "generateFuturisticLayout R ?s = Some s'" and inv: "layout_inv s'"
    using generate_inv [OF wf] by (auto simp: CityScene_def)
  obtain r1 r2 where
    r1: "bresenhamLine 5 (center (gridSize ?s)) (gridSize ?s - 5) (center (gridSize ?s)) = Some r1" and
    r2: "bresenhamLine (center (gridSize ?s)) 5 (center (gridSize ?s)) (gridSize ?s - 5) = Some r2"
    using bresenhamLine_Some by blast
  have n: "gridSize s' = gridSize_of cs" and c: "config s' = ?cfg"
    using generate_fields [OF r1 r2 s'] by simp_all
  have b: "buildings_ok ?cfg s'" "length (buildingCells s') \<le> nat nb"
    using generate_buildings_ok [OF s'] by simp_all
  show ?thesis
    using s' inv n c b by (simp add: init_def Let_def layout_inv_def footprints_def occ_def grid_wf_def buildings_ok_def)
qed

section \<open>Street lamps and building types\<close>

text \<open>
  The lamp loop \<^verbatim>\<open>for (i = start; i < stop; i += 6)\<close> visits exactly the
  positions of \<open>[start, stop)\<close> at a multiple of 6 from the start.
\<close>

theorem stride6_set: "x \<in> set (stride6 i stop) \<longleftrightarrow> i \<le> x \<and> x < stop \<and> (x - i) mod 6 = 0"
proof (induction i stop rule: stride6.induct)
  case (1 i stop)
  show ?case
  proof (cases "i < stop")
    case True
    have "x \<in> set (stride6 i stop) \<longleftrightarrow> x = i \<or> (i + 6 \<le> x \<and> x < stop \<and> (x - (i + 6)) mod 6 = 0)"
      using "1.IH" [OF True] True by (simp add: stride6.simps [of i])
    also have "\<dots> \<longleftrightarrow> i \<le> x \<and> x < stop \<and> (x - i) mod 6 = 0"
      using True by presburger
    finally show ?thesis .
  next
    case False
    then show ?thesis by (simp add: stride6.simps [of i])
  qed
qed

lemma stride6_mem: "x \<in> set (stride6 i stop) \<Longrightarrow> i \<le> x \<and> x < stop \<and> (x - i) mod 6 = 0"
proof (induction i stop rule: stride6.induct)
  case (1 i stop)
  show ?case
  proof (cases "i < stop")
    case True
    with "1.prems" have "x = i \<or> x \<in> set (stride6 (i + 6) stop)" by (simp add: stride6.simps [of i])
    then show ?thesis
    proof
      assume "x \<in> set (stride6 (i + 6) stop)"
      with "1.IH" [OF True] have "i + 6 \<le> x \<and> x < stop \<and> (x - (i + 6)) mod 6 = 0" by blast
      then show ?thesis by presburger
    qed (use True in simp)
  next
    case False
    with "1.prems" show ?thesis by (simp add: stride6.simps [of i])
  qed
qed

text \<open>Where a lamp may stand: two cells beside a road, on the lamp stride, away from the crossing.\<close>

definition lamp_spot :: "int \<Rightarrow> cell \<Rightarrow> bool" where
  "lamp_spot n p \<longleftrightarrow>
     (let c = center n; on_stride = (\<lambda>k. 8 \<le> k \<and> k < n - 8 \<and> (k - 8) mod 6 = 0 \<and> \<bar>k - c\<bar> > 3)
      in (on_stride (fst p) \<and> (snd p = c + 2 \<or> snd p = c - 2)) \<or>
         (on_stride (snd p) \<and> (fst p = c + 2 \<or> fst p = c - 2)))"

lemma try_lamp_lamps: "set (streetLamps (try_lamp g x z t)) \<subseteq> insert (x, z) (set (streetLamps t))"
  by (auto simp: try_lamp_def)

lemma try_lamp_gridSize' [simp]: "gridSize (try_lamp g x z t) = gridSize t"
  by (simp add: try_lamp_def)

lemma placeStreetLamps_spots:
  "set (streetLamps (placeStreetLamps t)) \<subseteq> {p. lamp_spot (gridSize t) p}"
proof -
  let ?n = "gridSize t" and ?c = "center (gridSize t)"
  let ?P = "\<lambda>u. gridSize u = ?n \<and> set (streetLamps u) \<subseteq> {p. lamp_spot ?n p}"
  have h: "?P (lamp_pair_h ?c i u)" if "i \<in> set (stride6 8 (?n - 8))" "?P u" for i u
  proof (cases "\<bar>i - ?c\<bar> > 3")
    case True
    from stride6_mem [OF that(1)] True have "lamp_spot ?n (i, ?c + 2)" "lamp_spot ?n (i, ?c - 2)"
      by (simp_all add: lamp_spot_def Let_def)
    moreover have "set (streetLamps (lamp_pair_h ?c i u)) \<subseteq> {(i, ?c + 2), (i, ?c - 2)} \<union> set (streetLamps u)"
      using True try_lamp_lamps [of "?c - 2 \<ge> 0" i "?c - 2" "try_lamp (?c + 2 < gridSize u) i (?c + 2) u"]
        try_lamp_lamps [of "?c + 2 < gridSize u" i "?c + 2" u]
      by (auto simp: lamp_pair_h_def)
    ultimately show ?thesis using that(2) by auto
  next
    case False
    with that(2) show ?thesis by (simp add: lamp_pair_h_def)
  qed
  have v: "?P (lamp_pair_v ?c j u)" if "j \<in> set (stride6 8 (?n - 8))" "?P u" for j u
  proof (cases "\<bar>j - ?c\<bar> > 3")
    case True
    from stride6_mem [OF that(1)] True have "lamp_spot ?n (?c + 2, j)" "lamp_spot ?n (?c - 2, j)"
      by (simp_all add: lamp_spot_def Let_def)
    moreover have "set (streetLamps (lamp_pair_v ?c j u)) \<subseteq> {(?c + 2, j), (?c - 2, j)} \<union> set (streetLamps u)"
      using True try_lamp_lamps [of "?c - 2 \<ge> 0" "?c - 2" j "try_lamp (?c + 2 < gridSize u) (?c + 2) j u"]
        try_lamp_lamps [of "?c + 2 < gridSize u" "?c + 2" j u]
      by (auto simp: lamp_pair_v_def)
    ultimately show ?thesis using that(2) by auto
  next
    case False
    with that(2) show ?thesis by (simp add: lamp_pair_v_def)
  qed
  have s0: "?P (t\<lparr>streetLamps := []\<rparr>)" by simp
  have s1: "?P (fold (lamp_pair_h ?c) (stride6 8 (?n - 8)) (t\<lparr>streetLamps := []\<rparr>))"
    by (rule fold_invariant_step [where P = ?P]) (use h s0 in auto)
  have "?P (fold (lamp_pair_v ?c) (stride6 8 (?n - 8)) (fold (lamp_pair_h ?c) (stride6 8 (?n - 8)) (t\<lparr>streetLamps := []\<rparr>)))"
    by (rule fold_invariant_step [where P = ?P]) (use v s1 in auto)
  with s1 show ?thesis by (simp add: placeStreetLamps_def Let_def)
qed


text \<open>
  C18: every street lamp of the generated layout stands two cells beside one of the two
  roads, at a stride position \<open>8, 14, 20, ...\<close> below \<open>gridSize - 8\<close>, more than three
  cells away from the crossing.
\<close>

theorem generate_lamps_beside_roads:
  assumes "generateFuturisticLayout R s = Some s'"
  shows "list_all (lamp_spot (gridSize s)) (streetLamps s')"
proof -
  obtain r1 r2 where
    r1: "bresenhamLine 5 (center (gridSize s)) (gridSize s - 5) (center (gridSize s)) = Some r1" and
    r2: "bresenhamLine (center (gridSize s)) 5 (center (gridSize s)) (gridSize s - 5) = Some r2"
    using bresenhamLine_Some by blast
  define t where "t = placeTrees R (placeBuildingsRandomly R (mark_roads (s\<lparr>roadCells := roadCells s @ r1 @ r2\<rparr>)))"
  define u where "u = placeRandomCar (placeStreetLamps t)"
  let ?v = "u\<lparr>pond_cx := center (gridSize s) + 8, pond_cy := center (gridSize s) - 8,
               pond_r := trunc_int (pondRadius (config u))\<rparr>"
  have s': "s' = mark_pond ?v"
    using assms(1) by (simp add: generate_eq [OF r1 r2] Let_def u_def t_def)
  have "occupancy.more (mark_pond ?v) = occupancy.more ?v" by simp
  from scene_more_cong [OF this] s' have "streetLamps s' = streetLamps (placeStreetLamps t)"
    by (simp add: u_def placeRandomCar_def)
  moreover have "gridSize t = gridSize s"
    using phases_fields [of R "mark_roads (s\<lparr>roadCells := roadCells s @ r1 @ r2\<rparr>)"]
    by (simp add: t_def placeRandomCar_def placeStreetLamps_def Let_def fold_frame)
  ultimately show ?thesis
    using placeStreetLamps_spots [of t] by (auto simp: list_all_iff)
qed

theorem generate_lamps_beside_roads_witness:
  "generateFuturisticLayout sample_rng ((CityScene (0::int))\<lparr>gridSize := 50\<rparr>) =
     Some (the (generateFuturisticLayout sample_rng ((CityScene (0::int))\<lparr>gridSize := 50\<rparr>))) \<and>
   list_all (lamp_spot 50) (streetLamps (the (generateFuturisticLayout sample_rng ((CityScene (0::int))\<lparr>gridSize := 50\<rparr>))))"
proof -
  obtain s' where s': "generateFuturisticLayout sample_rng ((CityScene (0::int))\<lparr>gridSize := 50\<rparr>) = Some s'"
    using generate_Some by blast
  with generate_lamps_beside_roads [OF s'] show ?thesis by simp
qed


lemma expected_type_range: "expected_type cfg k \<in> {0, 1, 2}"
  by (simp add: expected_type_def quota_type_def)

text \<open>
  C19: the integer-coded building types stay within the three codes the renderer and
  \<^verbatim>\<open>getFuturisticHeight\<close> know (skyscraper 0, tower 1, office 2), so the fallback
  height 15 of \<^verbatim>\<open>getFuturisticHeight\<close> is never used: every height is one of the three
  configured ones.
\<close>

theorem generate_types_in_range:
  assumes "generateFuturisticLayout R s = Some s'"
  shows "set (buildingTypes s') \<subseteq> {0, 1, 2} \<and>
         set (buildingHeights s') \<subseteq>
           {skyscraperHeight (config s), towerHeight (config s), buildingHeight (config s) * 0.7}"
proof -
  have b: "buildings_ok (config s) s'" using generate_buildings_ok [OF assms] by simp
  then have ty: "set (buildingTypes s') \<subseteq> {0, 1, 2}"
    using expected_type_range by (auto simp: buildings_ok_def)
  have h: "getFuturisticHeight (config s) t 0 \<in>
      {skyscraperHeight (config s), towerHeight (config s), buildingHeight (config s) * 0.7}"
    if "t \<in> {0, 1, 2}" for t
    using that by (auto simp: getFuturisticHeight_def)
  have hs: "buildingHeights s' = map (\<lambda>ty. getFuturisticHeight (config s) ty 0) (buildingTypes s')"
    using b [unfolded buildings_ok_def, THEN conjunct2] .
  have "set (buildingHeights s') \<subseteq>
      {skyscraperHeight (config s), towerHeight (config s), buildingHeight (config s) * 0.7}"
    unfolding hs set_map using ty h by blast
  with ty show ?thesis by simp
qed

theorem generate_types_in_range_witness:
  "generateFuturisticLayout sample_rng ((CityScene (0::int))\<lparr>gridSize := 50\<rparr>) =
     Some (the (generateFuturisticLayout sample_rng ((CityScene (0::int))\<lparr>gridSize := 50\<rparr>))) \<and>
   set (buildingTypes (the (generateFuturisticLayout sample_rng ((CityScene (0::int))\<lparr>gridSize := 50\<rparr>)))) \<subseteq> {0, 1, 2}"
proof -
  obtain s' where s': "generateFuturisticLayout sample_rng ((CityScene (0::int))\<lparr>gridSize := 50\<rparr>) = Some s'"
    using generate_Some by blast
  with generate_types_in_range [OF s'] show ?thesis by simp
qed


end
