(* ===== verification/Camera.thy ===== *)
theory Camera
  imports Prelude Complex_Main
begin

text \<open>
  The orbit camera of \<^verbatim>\<open>src/src/render/camera.h\<close> and \<^verbatim>\<open>camera.cpp\<close>: its members as
  a record, each method as a function on it, and the eye position as a function of the
  angles. Floats are reals and \<^verbatim>\<open>glm::radians\<close> is multiplication by \<open>pi / 180\<close>;
  rounding is not modelled. The view matrix \<^verbatim>\<open>viewMatrix\<close> is \<^verbatim>\<open>glm::lookAt\<close> as
  GLM computes it (from GLM's source, which is not part of the repository), with NaN
  results as \<open>None\<close>; under the camera invariant it is proved defined and rigid.
\<close>

type_synonym vec3 = "real \<times> real \<times> real"

record camera =
  yaw :: real
  pitch :: real
  distance :: real
  target :: vec3
  autoRotate :: bool
  rotationSpeed :: real

text \<open>\<^verbatim>\<open>Camera() {}\<close> with the member initialisers of \<^verbatim>\<open>camera.h\<close>.\<close>

definition Camera :: camera where
  "Camera = \<lparr>yaw = - 90, pitch = - 20, distance = 25, target = (0, 0, 0), autoRotate = False,
             rotationSpeed = 15\<rparr>"

definition radians :: "real \<Rightarrow> real" where
  "radians d = d * pi / 180"

text \<open>The unit vector \<^verbatim>\<open>dir\<close> of \<^verbatim>\<open>Camera::position\<close>.\<close>

definition view_dir :: "camera \<Rightarrow> vec3" where
  "view_dir c =
     (cos (radians (yaw c)) * cos (radians (pitch c)),
      sin (radians (pitch c)),
      sin (radians (yaw c)) * cos (radians (pitch c)))"

definition position :: "camera \<Rightarrow> vec3" where
  "position c =
     (case target c of (tx, ty, tz) \<Rightarrow> case view_dir c of (dx, dy, dz) \<Rightarrow>
        (tx - dx * distance c, ty - dy * distance c, tz - dz * distance c))"

definition processMouseDelta :: "real \<Rightarrow> real \<Rightarrow> camera \<Rightarrow> camera" where
  "processMouseDelta dx dy c =
     (let c1 = c\<lparr>yaw := yaw c + dx * 0.1, pitch := pitch c + dy * 0.1\<rparr>;
          c2 = (if pitch c1 > 89 then c1\<lparr>pitch := 89\<rparr> else c1)
      in if pitch c2 < - 89 then c2\<lparr>pitch := - 89\<rparr> else c2)"

definition processScroll :: "real \<Rightarrow> camera \<Rightarrow> camera" where
  "processScroll dy c =
     (let c1 = c\<lparr>distance := distance c - dy\<rparr>;
          c2 = (if distance c1 < 5 then c1\<lparr>distance := 5\<rparr> else c1)
      in if distance c2 > 150 then c2\<lparr>distance := 150\<rparr> else c2)"

definition camera_update :: "real \<Rightarrow> camera \<Rightarrow> camera" where
  "camera_update deltaTime c =
     (if autoRotate c
      then let c1 = c\<lparr>yaw := yaw c + rotationSpeed c * deltaTime\<rparr>
           in if yaw c1 \<ge> 360 then c1\<lparr>yaw := yaw c1 - 360\<rparr> else c1
      else c)"

definition toggleAutoRotate :: "camera \<Rightarrow> camera" where
  "toggleAutoRotate c = c\<lparr>autoRotate := \<not> autoRotate c\<rparr>"

text \<open>
  The camera invariant: the pitch within the clamp \<open>[-89, 89]\<close> degrees and the distance
  within \<open>[5, 150]\<close>.
\<close>

definition camera_inv :: "camera \<Rightarrow> bool" where
  "camera_inv c \<longleftrightarrow> - 89 \<le> pitch c \<and> pitch c \<le> 89 \<and> 5 \<le> distance c \<and> distance c \<le> 150"

section \<open>The view matrix: \<^verbatim>\<open>Camera::viewMatrix\<close>\<close>

text \<open>
  The vector operations of GLM the view matrix is built from, on \<open>vec3\<close>:
  \<^verbatim>\<open>a - b\<close>, \<^verbatim>\<open>v * k\<close>, \<^verbatim>\<open>glm::dot\<close> and \<^verbatim>\<open>glm::cross\<close>.
  \<^verbatim>\<open>glm::normalize(v)\<close> is \<^verbatim>\<open>v * inversesqrt(dot(v, v))\<close>; on the zero
  vector that is \<open>0 * inf\<close>, NaN in every component, which the model returns as \<open>None\<close>.
\<close>

definition vsub :: "vec3 \<Rightarrow> vec3 \<Rightarrow> vec3" where
  "vsub a b = (case a of (a1, a2, a3) \<Rightarrow> case b of (b1, b2, b3) \<Rightarrow> (a1 - b1, a2 - b2, a3 - b3))"

definition vscale :: "real \<Rightarrow> vec3 \<Rightarrow> vec3" where
  "vscale k a = (case a of (a1, a2, a3) \<Rightarrow> (a1 * k, a2 * k, a3 * k))"

definition dot :: "vec3 \<Rightarrow> vec3 \<Rightarrow> real" where
  "dot a b = (case a of (a1, a2, a3) \<Rightarrow> case b of (b1, b2, b3) \<Rightarrow> a1 * b1 + a2 * b2 + a3 * b3)"

definition cross :: "vec3 \<Rightarrow> vec3 \<Rightarrow> vec3" where
  "cross x y = (case x of (x1, x2, x3) \<Rightarrow> case y of (y1, y2, y3) \<Rightarrow>
                  (x2 * y3 - y2 * x3, x3 * y1 - y3 * x1, x1 * y2 - y1 * x2))"

definition normalize_vec :: "vec3 \<Rightarrow> vec3 option" where
  "normalize_vec v = (if dot v v = 0 then None else Some (vscale (inverse (sqrt (dot v v))) v))"

text \<open>
  A \<^verbatim>\<open>glm::mat4\<close> as its four columns (\<open>M ! c ! r\<close> is \<^verbatim>\<open>M[c][r]\<close>), and
  \<^verbatim>\<open>glm::lookAt\<close> as GLM's right-handed \<^verbatim>\<open>lookAtRH\<close> writes it: the forward
  direction \<open>f\<close>, the side direction \<open>s = normalize (cross f up)\<close> and the true up
  \<open>u = cross s f\<close> as the rows of the rotation, then the translation that takes the eye
  to the origin. \<open>None\<close> is a matrix of NaNs: the eye at the centre, or the view
  direction parallel to \<open>up\<close>.
\<close>

type_synonym mat4 = "real list list"

definition lookAt :: "vec3 \<Rightarrow> vec3 \<Rightarrow> vec3 \<Rightarrow> mat4 option" where
  "lookAt eye center up =
     (case normalize_vec (vsub center eye) of None \<Rightarrow> None | Some f \<Rightarrow>
      case normalize_vec (cross f up) of None \<Rightarrow> None | Some s \<Rightarrow>
      let u = cross s f in
      Some [[fst s, fst u, - fst f, 0],
            [fst (snd s), fst (snd u), - fst (snd f), 0],
            [snd (snd s), snd (snd u), - snd (snd f), 0],
            [- dot s eye, - dot u eye, dot f eye, 1]])"

text \<open>\<^verbatim>\<open>Camera::viewMatrix\<close>: \<^verbatim>\<open>glm::lookAt(position(), target, glm::vec3(0,1,0))\<close>.\<close>

definition viewMatrix :: "camera \<Rightarrow> mat4 option" where
  "viewMatrix c = lookAt (position c) (target c) (0, 1, 0)"

text \<open>
  What the vertex shader does with the matrix, \<^verbatim>\<open>view * vec4(p, 1.0)\<close> (the
  bottom row of a view matrix is \<open>(0, 0, 0, 1)\<close>), and the rows of its rotation part.
\<close>

definition mat_apply :: "mat4 \<Rightarrow> vec3 \<Rightarrow> vec3" where
  "mat_apply M p =
     (case p of (x, y, z) \<Rightarrow>
        let r = (\<lambda>i. M ! 0 ! i * x + M ! 1 ! i * y + M ! 2 ! i * z + M ! 3 ! i) in (r 0, r 1, r 2))"

definition mat_row :: "mat4 \<Rightarrow> nat \<Rightarrow> vec3" where
  "mat_row M i = (M ! 0 ! i, M ! 1 ! i, M ! 2 ! i)"

definition rotation_part_orthonormal :: "mat4 \<Rightarrow> bool" where
  "rotation_part_orthonormal M \<longleftrightarrow>
     dot (mat_row M 0) (mat_row M 0) = 1 \<and> dot (mat_row M 1) (mat_row M 1) = 1 \<and>
     dot (mat_row M 2) (mat_row M 2) = 1 \<and> dot (mat_row M 0) (mat_row M 1) = 0 \<and>
     dot (mat_row M 0) (mat_row M 2) = 0 \<and> dot (mat_row M 1) (mat_row M 2) = 0"

lemma camera_inv_Camera: "camera_inv Camera"
  by (simp add: camera_inv_def Camera_def)

lemma processMouseDelta_inv: "camera_inv c \<Longrightarrow> camera_inv (processMouseDelta dx dy c)"
  by (simp add: camera_inv_def processMouseDelta_def Let_def)

lemma processScroll_inv: "camera_inv c \<Longrightarrow> camera_inv (processScroll dy c)"
  by (simp add: camera_inv_def processScroll_def Let_def)

lemma camera_update_inv: "camera_inv c \<Longrightarrow> camera_inv (camera_update dt c)"
  by (simp add: camera_inv_def camera_update_def Let_def)

lemma toggleAutoRotate_inv: "camera_inv c \<Longrightarrow> camera_inv (toggleAutoRotate c)"
  by (simp add: camera_inv_def toggleAutoRotate_def)

text \<open>Without auto-rotation the per-frame update leaves the camera unchanged.\<close>

lemma camera_update_idle [simp]: "\<not> autoRotate c \<Longrightarrow> camera_update dt c = c"
  by (simp add: camera_update_def)

lemma processMouseDelta_fields [simp]:
  "distance (processMouseDelta dx dy c) = distance c" "target (processMouseDelta dx dy c) = target c"
  "autoRotate (processMouseDelta dx dy c) = autoRotate c"
  by (simp_all add: processMouseDelta_def Let_def)

lemma processScroll_fields [simp]:
  "pitch (processScroll d c) = pitch c" "yaw (processScroll d c) = yaw c"
  "target (processScroll d c) = target c" "autoRotate (processScroll d c) = autoRotate c"
  by (simp_all add: processScroll_def Let_def)

section \<open>Geometry of the eye\<close>

lemma view_dir_unit:
  "(fst (view_dir c))\<^sup>2 + (fst (snd (view_dir c)))\<^sup>2 + (snd (snd (view_dir c)))\<^sup>2 = 1"
proof -
  let ?y = "radians (yaw c)" and ?p = "radians (pitch c)"
  have g: "(a * b)\<^sup>2 + d\<^sup>2 + (e * b)\<^sup>2 = (a\<^sup>2 + e\<^sup>2) * b\<^sup>2 + d\<^sup>2" for a b d e :: real
    by (simp add: power2_eq_square algebra_simps)
  have "(cos ?y * cos ?p)\<^sup>2 + (sin ?p)\<^sup>2 + (sin ?y * cos ?p)\<^sup>2 =
          ((cos ?y)\<^sup>2 + (sin ?y)\<^sup>2) * (cos ?p)\<^sup>2 + (sin ?p)\<^sup>2"
    by (rule g)
  also have "\<dots> = 1" by simp
  finally have eq: "(cos ?y * cos ?p)\<^sup>2 + (sin ?p)\<^sup>2 + (sin ?y * cos ?p)\<^sup>2 = 1" .
  show ?thesis unfolding view_dir_def fst_conv snd_conv by (rule eq)
qed

lemma cos_pitch_pos:
  assumes "camera_inv c"
  shows "0 < cos (radians (pitch c))"
proof (rule cos_gt_zero_pi)
  have "pitch c * pi \<le> 89 * pi"
    by (rule mult_right_mono) (use assms in \<open>simp_all add: camera_inv_def\<close>)
  moreover have "(- 89) * pi \<le> pitch c * pi"
    by (rule mult_right_mono) (use assms in \<open>simp_all add: camera_inv_def\<close>)
  ultimately have "pitch c * pi \<le> 89 * pi" "- 89 * pi \<le> pitch c * pi" by simp_all
  then have "pitch c * pi / 180 \<le> 89 * pi / 180" "- 89 * pi / 180 \<le> pitch c * pi / 180"
    by (simp_all add: divide_right_mono)
  moreover have "89 * pi / 180 < pi / 2" using pi_gt_zero by simp
  ultimately have "- (pi / 2) < pitch c * pi / 180" "pitch c * pi / 180 < pi / 2"
    by linarith+
  then show "- (pi / 2) < radians (pitch c)" "radians (pitch c) < pi / 2"
    by (simp_all add: radians_def)
qed

text \<open>The eye lies at \<^verbatim>\<open>distance\<close> from the target.\<close>

lemma position_dist:
  "(fst (target c) - fst (position c))\<^sup>2 + (fst (snd (target c)) - fst (snd (position c)))\<^sup>2 +
   (snd (snd (target c)) - snd (snd (position c)))\<^sup>2 = (distance c)\<^sup>2"
proof -
  obtain tx ty tz where t: "target c = (tx, ty, tz)" by (cases "target c") auto
  obtain dx dy dz where d: "view_dir c = (dx, dy, dz)" by (cases "view_dir c") auto
  have u: "dx\<^sup>2 + dy\<^sup>2 + dz\<^sup>2 = 1" using view_dir_unit [of c] d by simp
  have "(dx * distance c)\<^sup>2 + (dy * distance c)\<^sup>2 + (dz * distance c)\<^sup>2 = (dx\<^sup>2 + dy\<^sup>2 + dz\<^sup>2) * (distance c)\<^sup>2"
    by (simp add: power_mult_distrib algebra_simps)
  with u show ?thesis by (simp add: position_def t d)
qed

text \<open>
  The horizontal part of the view direction is non-zero when the invariant holds, so the
  direction is never parallel to the up vector \<^verbatim>\<open>lookAt\<close> is given.
\<close>

lemma view_dir_not_vertical:
  "camera_inv c \<Longrightarrow> 0 < (fst (view_dir c))\<^sup>2 + (snd (snd (view_dir c)))\<^sup>2"
proof -
  assume inv: "camera_inv c"
  let ?y = "radians (yaw c)" and ?p = "radians (pitch c)"
  have g: "(a * b)\<^sup>2 + (e * b)\<^sup>2 = (a\<^sup>2 + e\<^sup>2) * b\<^sup>2" for a b e :: real
    by (simp add: power2_eq_square algebra_simps)
  have "(cos ?y * cos ?p)\<^sup>2 + (sin ?y * cos ?p)\<^sup>2 = ((cos ?y)\<^sup>2 + (sin ?y)\<^sup>2) * (cos ?p)\<^sup>2"
    by (rule g)
  also have "\<dots> = (cos ?p)\<^sup>2" by simp
  finally have "(fst (view_dir c))\<^sup>2 + (snd (snd (view_dir c)))\<^sup>2 = (cos ?p)\<^sup>2"
    by (simp add: view_dir_def)
  with cos_pitch_pos [OF inv] show ?thesis by simp
qed

section \<open>Vector algebra and the view matrix\<close>

lemma dot_comm: "dot a b = dot b a"
  by (cases a, cases b) (simp add: dot_def algebra_simps)

lemma dot_vscale [simp]: "dot (vscale k a) b = k * dot a b" "dot a (vscale k b) = k * dot a b"
  by (cases a, cases b, simp add: dot_def vscale_def algebra_simps)+

lemma dot_vsub: "dot a (vsub p e) = dot a p - dot a e"
  by (cases a, cases p, cases e) (simp add: dot_def vsub_def algebra_simps)

lemma dot_cross_self [simp]: "dot (cross a b) a = 0" "dot (cross a b) b = 0"
  by (cases a, cases b, simp add: dot_def cross_def algebra_simps)+

lemma dot_cross_cross: "dot (cross a b) (cross a b) = dot a a * dot b b - (dot a b)\<^sup>2"
  by (cases a, cases b) (simp add: dot_def cross_def power2_eq_square algebra_simps)

lemma cross_vscale [simp]: "cross (vscale k a) b = vscale k (cross a b)"
  by (cases a, cases b) (simp add: cross_def vscale_def algebra_simps)

lemma normalize_vec_Some:
  assumes "dot v v \<noteq> 0"
  shows "normalize_vec v = Some (vscale (inverse (sqrt (dot v v))) v) \<and>
         dot (vscale (inverse (sqrt (dot v v))) v) (vscale (inverse (sqrt (dot v v))) v) = 1"
proof -
  have "0 \<le> dot v v" by (cases v) (simp add: dot_def)
  with assms have p: "0 < dot v v" by simp
  have "inverse (sqrt (dot v v)) * (inverse (sqrt (dot v v)) * dot v v) = 1"
    using p by (simp add: field_simps)
  with assms show ?thesis by (simp add: normalize_vec_def)
qed

lemma normalize_vec_None: "normalize_vec v = None \<longleftrightarrow> dot v v = 0"
  by (simp add: normalize_vec_def)

text \<open>The matrix \<^verbatim>\<open>lookAt\<close> builds from the frame \<open>s\<close>, \<open>cross s f\<close>, \<open>-f\<close>.\<close>

lemma lookAt_frame:
  assumes f: "normalize_vec (vsub center eye) = Some f" and s: "normalize_vec (cross f up) = Some s"
  shows "\<exists>M. lookAt eye center up = Some M \<and>
           (\<forall>p. mat_apply M p = (dot s (vsub p eye), dot (cross s f) (vsub p eye), - dot f (vsub p eye))) \<and>
           mat_row M 0 = s \<and> mat_row M 1 = cross s f \<and> mat_row M 2 = vscale (- 1) f"
proof -
  obtain s1 s2 s3 where "s = (s1, s2, s3)" by (cases s) auto
  moreover obtain f1 f2 f3 where "f = (f1, f2, f3)" by (cases f) auto
  ultimately show ?thesis using f s
    by (auto simp: lookAt_def mat_apply_def mat_row_def dot_def vsub_def cross_def vscale_def
        algebra_simps split: prod.splits)
qed

lemma vscale_vscale [simp]: "vscale a (vscale b x) = vscale (b * a) x"
  by (cases x) (simp add: vscale_def algebra_simps)

lemma vscale_one [simp]: "vscale 1 x = x"
  by (cases x) (simp add: vscale_def)

lemma vsub_self [simp]: "vsub p p = (0, 0, 0)"
  by (cases p) (simp add: vsub_def)

lemma dot_zero [simp]: "dot a (0, 0, 0) = 0"
  by (cases a) (simp add: dot_def)

lemma vsub_target_position: "vsub (target c) (position c) = vscale (distance c) (view_dir c)"
  by (simp add: vsub_def vscale_def position_def split: prod.splits)

lemma dot_view_dir: "dot (view_dir c) (view_dir c) = 1"
proof -
  obtain x y z where v: "view_dir c = (x, y, z)" by (cases "view_dir c") auto
  show ?thesis using view_dir_unit [of c] by (simp add: v dot_def power2_eq_square)
qed

lemma view_dir_cross_up:
  "dot (cross (view_dir c) (0, 1, 0)) (cross (view_dir c) (0, 1, 0)) =
   (fst (view_dir c))\<^sup>2 + (snd (snd (view_dir c)))\<^sup>2"
  by (simp add: dot_def cross_def power2_eq_square split: prod.splits)

lemma normalize_vec_eye_dir:
  assumes "0 < d" "dot x x = 1"
  shows "normalize_vec (vscale d x) = Some x"
proof -
  have "dot (vscale d x) (vscale d x) = d * d" using assms(2) by simp
  moreover have "sqrt (d * d) = d" using assms(1) by (simp add: real_sqrt_mult_self)
  ultimately show ?thesis
    using normalize_vec_Some [of "vscale d x"] assms(1) by simp
qed

text \<open>
  With the camera invariant the view matrix is defined (no NaN), is a rigid motion (its
  rotation part has orthonormal rows), takes the eye to the origin and the target to the
  point at \<^verbatim>\<open>distance\<close> straight ahead on the negative \<open>z\<close> axis.
\<close>

lemma viewMatrix_rigid:
  assumes "camera_inv c"
  shows "\<exists>M. viewMatrix c = Some M \<and> mat_apply M (position c) = (0, 0, 0) \<and>
           mat_apply M (target c) = (0, 0, - distance c) \<and> rotation_part_orthonormal M"
proof -
  let ?f = "view_dir c" and ?w = "cross (view_dir c) (0, 1, 0)"
  have d: "0 < distance c" using assms by (simp add: camera_inv_def)
  have f: "normalize_vec (vsub (target c) (position c)) = Some ?f"
    unfolding vsub_target_position by (rule normalize_vec_eye_dir [OF d dot_view_dir])
  have "dot ?w ?w \<noteq> 0"
    using view_dir_not_vertical [OF assms] unfolding view_dir_cross_up by linarith
  then obtain k where s: "normalize_vec ?w = Some (vscale k ?w)" and ss: "dot (vscale k ?w) (vscale k ?w) = 1"
    using normalize_vec_Some by blast
  let ?s = "vscale k ?w"
  have sf: "dot ?s ?f = 0" by simp
  have ff: "dot ?f ?f = 1" by (rule dot_view_dir)
  have uu: "dot (cross ?s ?f) (cross ?s ?f) = 1"
    unfolding dot_cross_cross using ss sf ff by simp
  have su: "dot ?s (cross ?s ?f) = 0" by (subst dot_comm) simp
  obtain M where M: "lookAt (position c) (target c) (0, 1, 0) = Some M"
    and ap: "\<And>p. mat_apply M p = (dot ?s (vsub p (position c)), dot (cross ?s ?f) (vsub p (position c)),
                                     - dot ?f (vsub p (position c)))"
    and r: "mat_row M 0 = ?s" "mat_row M 1 = cross ?s ?f" "mat_row M 2 = vscale (- 1) ?f"
    using lookAt_frame [OF f s] by blast
  have "rotation_part_orthonormal M"
    unfolding rotation_part_orthonormal_def r using ss ff uu sf su by simp
  moreover have "mat_apply M (target c) = (0, 0, - distance c)"
    unfolding ap vsub_target_position using sf ff by simp
  ultimately show ?thesis using M ap by (simp add: viewMatrix_def)
qed


text \<open>
  Mouse drags turn the yaw freely and clamp the pitch to \<open>[-89, 89]\<close> degrees;
  scrolling zooms and clamps the distance to \<open>[5, 150]\<close>.
\<close>

theorem camera_clamps:
  "yaw (processMouseDelta dx dy c) = yaw c + dx * 0.1 \<and>
   pitch (processMouseDelta dx dy c) = max (- 89) (min 89 (pitch c + dy * 0.1)) \<and>
   distance (processScroll d c) = min 150 (max 5 (distance c - d))"
  by (simp add: processMouseDelta_def processScroll_def Let_def)

end
