(* ===== verification/Render.thy ===== *)
theory Render
  imports Scene Camera
begin

text \<open>
  \<^verbatim>\<open>CityScene::cellToWorld\<close>, \<^verbatim>\<open>CityScene::getFuturisticColor\<close>,
  \<^verbatim>\<open>CityScene::update\<close> and \<^verbatim>\<open>CityScene::render\<close>.
  Rendering is modelled by the state it drives: the shader uniforms the code sets
  (\<^verbatim>\<open>model\<close>, \<^verbatim>\<open>baseColor\<close>, \<^verbatim>\<open>useTexture\<close>, \<^verbatim>\<open>tex\<close>, \<^verbatim>\<open>view\<close>,
  \<^verbatim>\<open>viewPos\<close>), the bound
  texture and vertex array, and the log of \<^verbatim>\<open>glDrawElements\<close> calls, each recording the
  state it draws with. A model matrix built as \<^verbatim>\<open>translate\<close>, optional
  \<^verbatim>\<open>rotate(90 deg, y)\<close>, \<^verbatim>\<open>scale\<close> is the record \<open>xform\<close> of the three; the view
  matrix is the camera's \<open>viewMatrix\<close>. The projection matrix (it reads the viewport)
  is not modelled; GL object handles are naturals, \<open>0\<close> for none.
\<close>

section \<open>Cells to world coordinates and the water animation\<close>

definition cellToWorld :: "int \<Rightarrow> int \<Rightarrow> int \<Rightarrow> real \<times> real" where
  "cellToWorld n i j = (- real_of_int n / 2 + real_of_int i, - real_of_int n / 2 + real_of_int j)"

text \<open>
  \<^verbatim>\<open>CityScene::getFuturisticColor\<close>: a colour per building type. Nothing in the
  program calls it; \<^verbatim>\<open>render\<close> draws every building with base colour white.
\<close>

definition getFuturisticColor :: "int \<Rightarrow> vec3" where
  "getFuturisticColor type =
     (if type = 0 then (0.7, 0.7, 0.8) else if type = 1 then (0.6, 0.5, 0.4)
      else if type = 2 then (0.8, 0.8, 0.7) else (0.6, 0.6, 0.6))"

definition cityScene_update :: "real \<Rightarrow> 's city_scene \<Rightarrow> 's city_scene" where
  "cityScene_update dt s = s\<lparr>waterTime := waterTime s + dt * 2, ripplePhase := ripplePhase s + dt * 3\<rparr>"

section \<open>Draw state\<close>

datatype mesh_kind = CubeMesh | QuadMesh | PondMesh

record xform =
  tr :: vec3
  rotY90 :: bool
  sc :: vec3

definition identity_xform :: xform where
  "identity_xform = \<lparr>tr = (0, 0, 0), rotY90 = False, sc = (1, 1, 1)\<rparr>"

text \<open>The texture handles of \<^verbatim>\<open>CityScene\<close> (after \<^verbatim>\<open>init\<close>'s loads).\<close>

record textures =
  buildingTex :: nat
  towerTex :: nat
  skyscraperTex :: nat
  roadTex :: nat
  pondTex :: nat

record draw =
  d_mesh :: mesh_kind
  d_model :: xform
  d_color :: vec3
  d_useTexture :: real
  d_texture :: nat

record gl_state =
  u_model :: xform
  u_color :: vec3
  u_useTexture :: real
  u_tex :: int
  u_view :: "mat4 option"
  u_viewPos :: vec3
  bound_texture :: nat
  bound_vao :: "mesh_kind option"
  draws :: "draw list"

text \<open>\<^verbatim>\<open>glBindVertexArray(mesh.vao); glDrawElements(...); glBindVertexArray(0);\<close>\<close>

definition draw_mesh :: "mesh_kind \<Rightarrow> gl_state \<Rightarrow> gl_state" where
  "draw_mesh m g =
     g\<lparr>draws := draws g @ [\<lparr>d_mesh = m, d_model = u_model g, d_color = u_color g,
                            d_useTexture = u_useTexture g, d_texture = bound_texture g\<rparr>],
       bound_vao := None\<rparr>"

definition set_model_color :: "xform \<Rightarrow> vec3 \<Rightarrow> gl_state \<Rightarrow> gl_state" where
  "set_model_color m c g = g\<lparr>u_model := m, u_color := c\<rparr>"

definition tex_flag :: "nat \<Rightarrow> real" where
  "tex_flag t = (if t \<noteq> 0 then 1 else 0)"

section \<open>The feature loops of render\<close>

definition render_ground :: "int \<Rightarrow> gl_state \<Rightarrow> gl_state" where
  "render_ground n g =
     draw_mesh CubeMesh
       (g\<lparr>u_model := \<lparr>tr = (0, - 0.501, 0), rotY90 = False, sc = (real_of_int n, 1, real_of_int n)\<rparr>,
          u_color := (0.1, 0.15, 0.1), u_useTexture := 0\<rparr>)"

definition render_road :: "int \<Rightarrow> textures \<Rightarrow> cell \<Rightarrow> gl_state \<Rightarrow> gl_state" where
  "render_road n tx c g =
     (let w = cellToWorld n (fst c) (snd c)
      in draw_mesh QuadMesh
           (g\<lparr>u_model := \<lparr>tr = (fst w, 0.02, snd w), rotY90 = (fst c = center n), sc = (1, 1, 1)\<rparr>,
              u_color := (0.2, 0.2, 0.2), u_useTexture := tex_flag (roadTex tx), u_tex := 0\<rparr>))"

definition render_pond :: "textures \<Rightarrow> gl_state \<Rightarrow> gl_state" where
  "render_pond tx g =
     draw_mesh PondMesh
       (g\<lparr>bound_texture := pondTex tx, u_model := identity_xform, u_color := (1, 1, 1),
          u_useTexture := tex_flag (pondTex tx), u_tex := 0\<rparr>)"

definition building_texture :: "textures \<Rightarrow> int \<Rightarrow> nat" where
  "building_texture tx type = (if type = 0 then skyscraperTex tx else if type = 1 then towerTex tx else buildingTex tx)"

definition building_width :: "city_config \<Rightarrow> int \<Rightarrow> real" where
  "building_width cfg type =
     (if type = 0 then skyscraperWidth cfg else if type = 1 then towerWidth cfg else buildingWidth cfg)"

text \<open>Iteration \<open>i\<close> of the building loop: it reads the three parallel vectors at \<open>i\<close>.\<close>

definition render_building :: "'s city_scene \<Rightarrow> textures \<Rightarrow> nat \<Rightarrow> gl_state \<Rightarrow> gl_state" where
  "render_building s tx i g =
     (let bcell = buildingCells s ! i;
          w = cellToWorld (gridSize s) (fst bcell) (snd bcell);
          height = buildingHeights s ! i;
          type = buildingTypes s ! i;
          currentTex = building_texture tx type;
          width = building_width (config s) type;
          depth = width * 0.9
      in draw_mesh CubeMesh
           (g\<lparr>bound_texture := currentTex,
              u_model := \<lparr>tr = (fst w, height / 2, snd w), rotY90 = False, sc = (width, height, depth)\<rparr>,
              u_color := (1, 1, 1), u_useTexture := tex_flag currentTex, u_tex := 0\<rparr>))"

definition render_tree :: "int \<Rightarrow> cell \<Rightarrow> gl_state \<Rightarrow> gl_state" where
  "render_tree n c g =
     (let w = cellToWorld n (fst c) (snd c)
      in draw_mesh CubeMesh (set_model_color \<lparr>tr = (fst w, 2.5, snd w), rotY90 = False, sc = (1.5, 1.5, 1.5)\<rparr> (0.1, 0.6, 0.1)
           (draw_mesh CubeMesh (set_model_color \<lparr>tr = (fst w, 1, snd w), rotY90 = False, sc = (0.3, 2, 0.3)\<rparr> (0.4, 0.2, 0.1) g))))"

definition render_lamp :: "int \<Rightarrow> cell \<Rightarrow> gl_state \<Rightarrow> gl_state" where
  "render_lamp n c g =
     (let w = cellToWorld n (fst c) (snd c)
      in draw_mesh CubeMesh (set_model_color \<lparr>tr = (fst w, 5.2, snd w), rotY90 = False, sc = (0.3, 0.2, 0.3)\<rparr> (1, 0.9, 0.6)
           (draw_mesh CubeMesh (set_model_color \<lparr>tr = (fst w, 2.5, snd w), rotY90 = False, sc = (0.1, 5, 0.1)\<rparr> (0.2, 0.2, 0.2) g))))"

definition render_car :: "int \<Rightarrow> cell \<Rightarrow> gl_state \<Rightarrow> gl_state" where
  "render_car n c g =
     (let w = cellToWorld n (fst c) (snd c);
          g1 = draw_mesh CubeMesh (set_model_color \<lparr>tr = (fst w, 0.4, snd w), rotY90 = False, sc = (2, 0.8, 1)\<rparr> (0.8, 0.1, 0.1) g);
          g2 = draw_mesh CubeMesh (set_model_color \<lparr>tr = (fst w, 1, snd w), rotY90 = False, sc = (1.6, 0.4, 0.8)\<rparr> (0.7, 0.1, 0.1) g1);
          g3 = draw_mesh CubeMesh (set_model_color \<lparr>tr = (fst w + 1.1, 0.5, snd w + 0.3), rotY90 = False, sc = (0.1, 0.2, 0.2)\<rparr> (1, 1, 0.9) g2)
      in draw_mesh CubeMesh (set_model_color \<lparr>tr = (fst w + 1.1, 0.5, snd w - 0.3), rotY90 = False, sc = (0.1, 0.2, 0.2)\<rparr> (1, 1, 0.9) g3))"

definition render :: "'s city_scene \<Rightarrow> textures \<Rightarrow> camera \<Rightarrow> gl_state \<Rightarrow> gl_state" where
  "render s tx cam g =
     (let n = gridSize s;
          g0 = render_ground n (g\<lparr>u_view := viewMatrix cam, u_viewPos := position cam\<rparr>);
          g1 = fold (render_road n tx) (roadCells s) (g0\<lparr>bound_texture := roadTex tx\<rparr>);
          g2 = render_pond tx g1;
          g3 = fold (render_building s tx) [0..<length (buildingCells s)] g2;
          g4 = fold (render_tree n) (treeCells s) (g3\<lparr>u_useTexture := 0\<rparr>);
          g5 = fold (render_lamp n) (streetLamps s) (g4\<lparr>u_useTexture := 0\<rparr>)
      in render_car n (carPosition s) g5)"

section \<open>The draw list render submits\<close>

text \<open>
  The draws of each feature as values: what \<^verbatim>\<open>glDrawElements\<close> draws with, given the
  \<^verbatim>\<open>useTexture\<close> flag \<open>ut\<close> and bound texture \<open>bt\<close> left by earlier statements where the
  feature's code does not set them.
\<close>

definition cube :: "xform \<Rightarrow> vec3 \<Rightarrow> real \<Rightarrow> nat \<Rightarrow> draw" where
  "cube m col ut bt = \<lparr>d_mesh = CubeMesh, d_model = m, d_color = col, d_useTexture = ut, d_texture = bt\<rparr>"

definition ground_draw :: "int \<Rightarrow> nat \<Rightarrow> draw" where
  "ground_draw n bt =
     cube \<lparr>tr = (0, - 0.501, 0), rotY90 = False, sc = (real_of_int n, 1, real_of_int n)\<rparr> (0.1, 0.15, 0.1) 0 bt"

definition road_draw :: "int \<Rightarrow> textures \<Rightarrow> cell \<Rightarrow> draw" where
  "road_draw n tx c =
     (let w = cellToWorld n (fst c) (snd c)
      in \<lparr>d_mesh = QuadMesh, d_model = \<lparr>tr = (fst w, 0.02, snd w), rotY90 = (fst c = center n), sc = (1, 1, 1)\<rparr>,
          d_color = (0.2, 0.2, 0.2), d_useTexture = tex_flag (roadTex tx), d_texture = roadTex tx\<rparr>)"

definition pond_draw :: "textures \<Rightarrow> draw" where
  "pond_draw tx = \<lparr>d_mesh = PondMesh, d_model = identity_xform, d_color = (1, 1, 1),
                   d_useTexture = tex_flag (pondTex tx), d_texture = pondTex tx\<rparr>"

definition building_draw :: "'s city_scene \<Rightarrow> textures \<Rightarrow> nat \<Rightarrow> draw" where
  "building_draw s tx i =
     (let w = cellToWorld (gridSize s) (fst (buildingCells s ! i)) (snd (buildingCells s ! i));
          h = buildingHeights s ! i; t = buildingTypes s ! i; wd = building_width (config s) t
      in cube \<lparr>tr = (fst w, h / 2, snd w), rotY90 = False, sc = (wd, h, wd * 0.9)\<rparr> (1, 1, 1)
           (tex_flag (building_texture tx t)) (building_texture tx t))"

definition tree_draws :: "int \<Rightarrow> real \<Rightarrow> nat \<Rightarrow> cell \<Rightarrow> draw list" where
  "tree_draws n ut bt c =
     (let w = cellToWorld n (fst c) (snd c)
      in [cube \<lparr>tr = (fst w, 1, snd w), rotY90 = False, sc = (0.3, 2, 0.3)\<rparr> (0.4, 0.2, 0.1) ut bt,
          cube \<lparr>tr = (fst w, 2.5, snd w), rotY90 = False, sc = (1.5, 1.5, 1.5)\<rparr> (0.1, 0.6, 0.1) ut bt])"

definition lamp_draws :: "int \<Rightarrow> real \<Rightarrow> nat \<Rightarrow> cell \<Rightarrow> draw list" where
  "lamp_draws n ut bt c =
     (let w = cellToWorld n (fst c) (snd c)
      in [cube \<lparr>tr = (fst w, 2.5, snd w), rotY90 = False, sc = (0.1, 5, 0.1)\<rparr> (0.2, 0.2, 0.2) ut bt,
          cube \<lparr>tr = (fst w, 5.2, snd w), rotY90 = False, sc = (0.3, 0.2, 0.3)\<rparr> (1, 0.9, 0.6) ut bt])"

definition car_draws :: "int \<Rightarrow> real \<Rightarrow> nat \<Rightarrow> cell \<Rightarrow> draw list" where
  "car_draws n ut bt c =
     (let w = cellToWorld n (fst c) (snd c)
      in [cube \<lparr>tr = (fst w, 0.4, snd w), rotY90 = False, sc = (2, 0.8, 1)\<rparr> (0.8, 0.1, 0.1) ut bt,
          cube \<lparr>tr = (fst w, 1, snd w), rotY90 = False, sc = (1.6, 0.4, 0.8)\<rparr> (0.7, 0.1, 0.1) ut bt,
          cube \<lparr>tr = (fst w + 1.1, 0.5, snd w + 0.3), rotY90 = False, sc = (0.1, 0.2, 0.2)\<rparr> (1, 1, 0.9) ut bt,
          cube \<lparr>tr = (fst w + 1.1, 0.5, snd w - 0.3), rotY90 = False, sc = (0.1, 0.2, 0.2)\<rparr> (1, 1, 0.9) ut bt])"

text \<open>The texture bound when the building loop ends: the last building's, or the pond's.\<close>

definition tex_after_buildings :: "'s city_scene \<Rightarrow> textures \<Rightarrow> nat" where
  "tex_after_buildings s tx =
     (if buildingCells s = [] then pondTex tx
      else building_texture tx (buildingTypes s ! (length (buildingCells s) - 1)))"

definition render_spec :: "'s city_scene \<Rightarrow> textures \<Rightarrow> nat \<Rightarrow> draw list" where
  "render_spec s tx bt0 =
     (let n = gridSize s; bt = tex_after_buildings s tx
      in [ground_draw n bt0] @ map (road_draw n tx) (roadCells s) @ [pond_draw tx] @
         map (building_draw s tx) [0..<length (buildingCells s)] @
         concat (map (tree_draws n 0 bt) (treeCells s)) @ concat (map (lamp_draws n 0 bt) (streetLamps s)) @
         car_draws n 0 bt (carPosition s))"

lemma draw_mesh_fields [simp]:
  "bound_texture (draw_mesh m g) = bound_texture g" "u_useTexture (draw_mesh m g) = u_useTexture g"
  "u_model (draw_mesh m g) = u_model g" "u_color (draw_mesh m g) = u_color g"
  "u_view (draw_mesh m g) = u_view g" "u_viewPos (draw_mesh m g) = u_viewPos g"
  "draws (draw_mesh m g) = draws g @ [\<lparr>d_mesh = m, d_model = u_model g, d_color = u_color g,
                            d_useTexture = u_useTexture g, d_texture = bound_texture g\<rparr>]"
  by (simp_all add: draw_mesh_def)

lemma fold_render_road:
  "draws (fold (render_road n tx) cs g) = draws g @ map (road_draw n tx) cs \<and>
   bound_texture (fold (render_road n tx) cs g) = bound_texture g"
  if "bound_texture g = roadTex tx"
  using that
proof (induction cs arbitrary: g)
  case Nil
  then show ?case by simp
next
  case (Cons c cs)
  then show ?case by (simp add: render_road_def road_draw_def Let_def)
qed

lemma fold_render_building:
  "draws (fold (render_building s tx) is g) = draws g @ map (building_draw s tx) is \<and>
   bound_texture (fold (render_building s tx) is g) =
     (if is = [] then bound_texture g else building_texture tx (buildingTypes s ! last is))"
proof (induction "is" arbitrary: g)
  case Nil
  then show ?case by simp
next
  case (Cons i "is")
  then show ?case by (simp add: render_building_def building_draw_def cube_def Let_def)
qed

lemma fold_render_tree:
  "draws (fold (render_tree n) cs g) = draws g @ concat (map (tree_draws n (u_useTexture g) (bound_texture g)) cs) \<and>
   bound_texture (fold (render_tree n) cs g) = bound_texture g \<and>
   u_useTexture (fold (render_tree n) cs g) = u_useTexture g"
proof (induction cs arbitrary: g)
  case Nil
  then show ?case by simp
next
  case (Cons c cs)
  then show ?case by (simp add: render_tree_def tree_draws_def set_model_color_def cube_def Let_def)
qed

lemma fold_render_lamp:
  "draws (fold (render_lamp n) cs g) = draws g @ concat (map (lamp_draws n (u_useTexture g) (bound_texture g)) cs) \<and>
   bound_texture (fold (render_lamp n) cs g) = bound_texture g \<and>
   u_useTexture (fold (render_lamp n) cs g) = u_useTexture g"
proof (induction cs arbitrary: g)
  case Nil
  then show ?case by simp
next
  case (Cons c cs)
  then show ?case by (simp add: render_lamp_def lamp_draws_def set_model_color_def cube_def Let_def)
qed

lemma render_car_draws:
  "draws (render_car n c g) = draws g @ car_draws n (u_useTexture g) (bound_texture g) c"
  by (simp add: render_car_def car_draws_def set_model_color_def cube_def Let_def)

text \<open>Rendering submits exactly the draw list \<open>render_spec\<close>, after what was drawn before.\<close>

lemma render_draws:
  "draws (render s tx cam g) = draws g @ render_spec s tx (bound_texture g)"
proof -
  let ?n = "gridSize s"
  define g1 where "g1 = fold (render_road ?n tx) (roadCells s) ((render_ground ?n (g\<lparr>u_view := viewMatrix cam, u_viewPos := position cam\<rparr>))\<lparr>bound_texture := roadTex tx\<rparr>)"
  define g3 where "g3 = fold (render_building s tx) [0..<length (buildingCells s)] (render_pond tx g1)"
  define g4 where "g4 = fold (render_tree ?n) (treeCells s) (g3\<lparr>u_useTexture := 0\<rparr>)"
  define g5 where "g5 = fold (render_lamp ?n) (streetLamps s) (g4\<lparr>u_useTexture := 0\<rparr>)"
  have d1: "draws g1 = draws g @ [ground_draw ?n (bound_texture g)] @ map (road_draw ?n tx) (roadCells s)"
    using fold_render_road [of "(render_ground ?n (g\<lparr>u_view := viewMatrix cam, u_viewPos := position cam\<rparr>))\<lparr>bound_texture := roadTex tx\<rparr>" tx ?n "roadCells s"]
    by (simp add: g1_def render_ground_def ground_draw_def cube_def)
  have d3: "draws g3 = draws g1 @ [pond_draw tx] @ map (building_draw s tx) [0..<length (buildingCells s)]"
    "bound_texture g3 = tex_after_buildings s tx"
    using fold_render_building [of s tx "[0..<length (buildingCells s)]" "render_pond tx g1"]
    by (simp_all add: g3_def render_pond_def pond_draw_def tex_after_buildings_def)
  have d4: "draws g4 = draws g3 @ concat (map (tree_draws ?n 0 (tex_after_buildings s tx)) (treeCells s))"
    "bound_texture g4 = tex_after_buildings s tx"
    using fold_render_tree [of ?n "treeCells s" "g3\<lparr>u_useTexture := 0\<rparr>"] d3 by (simp_all add: g4_def)
  have d5: "draws g5 = draws g4 @ concat (map (lamp_draws ?n 0 (tex_after_buildings s tx)) (streetLamps s))"
    "bound_texture g5 = tex_after_buildings s tx" "u_useTexture g5 = 0"
    using fold_render_lamp [of ?n "streetLamps s" "g4\<lparr>u_useTexture := 0\<rparr>"] d4 by (simp_all add: g5_def)
  have "render s tx cam g = render_car ?n (carPosition s) g5"
    by (simp add: render_def g1_def g3_def g4_def g5_def Let_def)
  then show ?thesis
    using render_car_draws [of ?n "carPosition s" g5] d1 d3 d4 d5
    by (simp add: render_spec_def Let_def)
qed

text \<open>The view and eye uniforms \<^verbatim>\<open>render\<close> sets first stay set for the whole frame.\<close>

lemma fold_keeps_view:
  assumes "\<And>x h. u_view (f x h) = u_view h" "\<And>x h. u_viewPos (f x h) = u_viewPos h"
  shows "u_view (fold f xs h) = u_view h \<and> u_viewPos (fold f xs h) = u_viewPos h"
  using assms by (induction xs arbitrary: h) simp_all

lemma render_view:
  "u_view (render s tx cam g) = viewMatrix cam \<and> u_viewPos (render s tx cam g) = position cam"
proof -
  have r: "u_view (render_road n tx c h) = u_view h" "u_viewPos (render_road n tx c h) = u_viewPos h"
    and b: "u_view (render_building s tx i h) = u_view h" "u_viewPos (render_building s tx i h) = u_viewPos h"
    and t: "u_view (render_tree n c h) = u_view h" "u_viewPos (render_tree n c h) = u_viewPos h"
    and l: "u_view (render_lamp n c h) = u_view h" "u_viewPos (render_lamp n c h) = u_viewPos h"
    for n c h i
    by (simp_all add: render_road_def render_building_def render_tree_def render_lamp_def
        set_model_color_def Let_def)
  note fr = fold_keeps_view [of "render_road _ tx", OF r] fold_keeps_view [of "render_building s tx", OF b]
    fold_keeps_view [of "render_tree _", OF t] fold_keeps_view [of "render_lamp _", OF l]
  show ?thesis
    by (simp add: render_def Let_def fr render_car_def render_pond_def render_ground_def set_model_color_def)
qed

text \<open>
  One frame submits \<open>6 + roads + buildings + 2 trees + 2 lamps\<close> draws: the ground,
  one quad per road cell, the pond, one cube per building, two per tree and lamp and four
  for the car.
\<close>

theorem render_draw_count:
  "length (draws (render s tx cam g)) =
     length (draws g) + 6 + length (roadCells s) + length (buildingCells s) +
     2 * length (treeCells s) + 2 * length (streetLamps s)"
proof -
  have "length (concat (map (tree_draws n u b) cs)) = 2 * length cs"
       "length (concat (map (lamp_draws n u b) cs)) = 2 * length cs" for n u b and cs :: "cell list"
    by (induction cs) (simp_all add: tree_draws_def lamp_draws_def Let_def)
  then show ?thesis
    by (simp add: render_draws render_spec_def car_draws_def Let_def)
qed

text \<open>
  C35: the \<open>i\<close>-th building is drawn, after the ground, the roads and the pond, as a cube
  standing on the ground at its cell's world position, scaled to the width of its type,
  its height and \<open>0.9\<close> times the width in depth, with its type's texture.
\<close>

theorem render_building_draw:
  assumes "i < length (buildingCells s)"
  shows "draws (render s tx cam g) ! (length (draws g) + 2 + length (roadCells s) + i) =
     cube \<lparr>tr = (- real_of_int (gridSize s) / 2 + real_of_int (fst (buildingCells s ! i)),
                  buildingHeights s ! i / 2,
                  - real_of_int (gridSize s) / 2 + real_of_int (snd (buildingCells s ! i))),
           rotY90 = False,
           sc = (building_width (config s) (buildingTypes s ! i), buildingHeights s ! i,
                 building_width (config s) (buildingTypes s ! i) * 0.9)\<rparr>
       (1, 1, 1) (tex_flag (building_texture tx (buildingTypes s ! i))) (building_texture tx (buildingTypes s ! i))"
  using assms
  by (simp add: render_draws render_spec_def nth_append building_draw_def cellToWorld_def Let_def)

theorem render_building_draw_witness:
  "0 < length (buildingCells ((CityScene (0::int))\<lparr>gridSize := 50, buildingCells := [(10, 10)], buildingHeights := [40],
          buildingTypes := [0], config := (config (CityScene (0::int)))\<lparr>skyscraperWidth := 4\<rparr>\<rparr>)) \<and>
   draws (render ((CityScene (0::int))\<lparr>gridSize := 50, buildingCells := [(10, 10)], buildingHeights := [40],
          buildingTypes := [0], config := (config (CityScene (0::int)))\<lparr>skyscraperWidth := 4\<rparr>\<rparr>)
        \<lparr>buildingTex = 1, towerTex = 2, skyscraperTex = 3, roadTex = 4, pondTex = 5\<rparr> Camera
        \<lparr>u_model = identity_xform, u_color = (0, 0, 0), u_useTexture = 0, u_tex = 0, u_view = None, u_viewPos = (0, 0, 0),
         bound_texture = 0, bound_vao = None, draws = []\<rparr>) ! 2 =
     cube \<lparr>tr = (- 15, 20, - 15), rotY90 = False, sc = (4, 40, 3.6)\<rparr> (1, 1, 1) 1 3"
  using render_building_draw [of 0 "(CityScene (0::int))\<lparr>gridSize := 50, buildingCells := [(10, 10)], buildingHeights := [40],
          buildingTypes := [0], config := (config (CityScene (0::int)))\<lparr>skyscraperWidth := 4\<rparr>\<rparr>"
      "\<lparr>buildingTex = 1, towerTex = 2, skyscraperTex = 3, roadTex = 4, pondTex = 5\<rparr>" Camera
      "\<lparr>u_model = identity_xform, u_color = (0, 0, 0), u_useTexture = 0, u_tex = 0, u_view = None, u_viewPos = (0, 0, 0),
         bound_texture = 0, bound_vao = None, draws = []\<rparr>"]
  by (simp add: CityScene_def building_width_def building_texture_def tex_flag_def numeral_2_eq_2)

text \<open>
  A road cell is drawn with its texture turned by 90 degrees exactly when it lies on
  the centre column, the vertical road.
\<close>

theorem render_road_rotation:
  assumes "k < length (roadCells s)"
  shows "rotY90 (d_model (draws (render s tx cam g) ! (length (draws g) + 1 + k))) \<longleftrightarrow>
           fst (roadCells s ! k) = center (gridSize s)"
  using assms
  by (simp add: render_draws render_spec_def nth_append road_draw_def Let_def)

theorem render_road_rotation_witness:
  "0 < length (roadCells ((CityScene (0::int))\<lparr>gridSize := 50, roadCells := [(25, 30), (30, 25)]\<rparr>)) \<and>
   rotY90 (d_model (draws (render ((CityScene (0::int))\<lparr>gridSize := 50, roadCells := [(25, 30), (30, 25)]\<rparr>)
        \<lparr>buildingTex = 1, towerTex = 2, skyscraperTex = 3, roadTex = 4, pondTex = 5\<rparr> Camera
        \<lparr>u_model = identity_xform, u_color = (0, 0, 0), u_useTexture = 0, u_tex = 0, u_view = None, u_viewPos = (0, 0, 0),
         bound_texture = 0, bound_vao = None, draws = []\<rparr>) ! 1))"
  using render_road_rotation [of 0 "(CityScene (0::int))\<lparr>gridSize := 50, roadCells := [(25, 30), (30, 25)]\<rparr>"
      "\<lparr>buildingTex = 1, towerTex = 2, skyscraperTex = 3, roadTex = 4, pondTex = 5\<rparr>" Camera
      "\<lparr>u_model = identity_xform, u_color = (0, 0, 0), u_useTexture = 0, u_tex = 0, u_view = None, u_viewPos = (0, 0, 0),
         bound_texture = 0, bound_vao = None, draws = []\<rparr>"]
  by (simp add: CityScene_def center_def)

end
