(* ===== verification/Mesh.thy ===== *)
theory Mesh
  imports Prelude Complex_Main
begin

text \<open>
  The mesh builders of \<^verbatim>\<open>src/src/meshes/mesh.cpp\<close>. Each builds a vertex buffer of
  floats (eight per vertex: position, normal, texture coordinates) and an index buffer of
  \<^verbatim>\<open>unsigned int\<close> triangles, then \<^verbatim>\<open>buildMesh\<close> uploads both and records
  \<^verbatim>\<open>elemCount\<close>. The buffers are modelled as lists (floats as reals, indices as naturals);
  the GL object handles and attribute set-up of \<^verbatim>\<open>buildMesh\<close> are not modelled, only the
  element count it records. \<^verbatim>\<open>cosf\<close>/\<^verbatim>\<open>sinf\<close> are \<open>cos\<close>/\<open>sin\<close> on reals.
  \<^verbatim>\<open>makeCircleFan\<close> is modelled for positive segment counts (\<^verbatim>\<open>init\<close> passes 64):
  for \<open>segments = 0\<close> the C++ angle is \<open>0/0\<close> (NaN) and for \<open>segments \<le> -3\<close>
  \<^verbatim>\<open>reserve\<close> throws, while the model returns a mesh.
\<close>

record mesh =
  verts :: "real list"
  indices :: "nat list"
  elemCount :: nat

definition buildMesh :: "real list \<Rightarrow> nat list \<Rightarrow> mesh" where
  "buildMesh vs idx = \<lparr>verts = vs, indices = idx, elemCount = length idx\<rparr>"

text \<open>One vertex: position, normal, texture coordinates.\<close>

definition vertex :: "real \<Rightarrow> real \<Rightarrow> real \<Rightarrow> real \<Rightarrow> real \<Rightarrow> real \<Rightarrow> real \<Rightarrow> real \<Rightarrow> real list" where
  "vertex x y z nx ny nz u v = [x, y, z, nx, ny, nz, u, v]"

definition makeCube :: mesh where
  "makeCube = buildMesh
     (vertex (- 0.5) (- 0.5) 0.5 0 0 1 0 0 @ vertex 0.5 (- 0.5) 0.5 0 0 1 1 0 @
      vertex 0.5 0.5 0.5 0 0 1 1 1 @ vertex (- 0.5) 0.5 0.5 0 0 1 0 1 @
      vertex (- 0.5) (- 0.5) (- 0.5) 0 0 (- 1) 0 0 @ vertex 0.5 (- 0.5) (- 0.5) 0 0 (- 1) 1 0 @
      vertex 0.5 0.5 (- 0.5) 0 0 (- 1) 1 1 @ vertex (- 0.5) 0.5 (- 0.5) 0 0 (- 1) 0 1 @
      vertex (- 0.5) (- 0.5) (- 0.5) (- 1) 0 0 0 0 @ vertex (- 0.5) (- 0.5) 0.5 (- 1) 0 0 1 0 @
      vertex (- 0.5) 0.5 0.5 (- 1) 0 0 1 1 @ vertex (- 0.5) 0.5 (- 0.5) (- 1) 0 0 0 1 @
      vertex 0.5 (- 0.5) (- 0.5) 1 0 0 0 0 @ vertex 0.5 (- 0.5) 0.5 1 0 0 1 0 @
      vertex 0.5 0.5 0.5 1 0 0 1 1 @ vertex 0.5 0.5 (- 0.5) 1 0 0 0 1 @
      vertex (- 0.5) 0.5 0.5 0 1 0 0 0 @ vertex 0.5 0.5 0.5 0 1 0 1 0 @
      vertex 0.5 0.5 (- 0.5) 0 1 0 1 1 @ vertex (- 0.5) 0.5 (- 0.5) 0 1 0 0 1 @
      vertex (- 0.5) (- 0.5) 0.5 0 (- 1) 0 0 0 @ vertex 0.5 (- 0.5) 0.5 0 (- 1) 0 1 0 @
      vertex 0.5 (- 0.5) (- 0.5) 0 (- 1) 0 1 1 @ vertex (- 0.5) (- 0.5) (- 0.5) 0 (- 1) 0 0 1)
     [0, 1, 2, 0, 2, 3,  4, 5, 6, 4, 6, 7,  8, 9, 10, 8, 10, 11,
      12, 13, 14, 12, 14, 15,  16, 17, 18, 16, 18, 19,  20, 21, 22, 20, 22, 23]"

definition makeQuadXZ :: mesh where
  "makeQuadXZ = buildMesh
     (vertex (- 0.5) 0 0.5 0 1 0 0 1 @ vertex 0.5 0 0.5 0 1 0 1 1 @
      vertex 0.5 0 (- 0.5) 0 1 0 1 0 @ vertex (- 0.5) 0 (- 0.5) 0 1 0 0 0)
     [0, 1, 2, 0, 2, 3]"

text \<open>Ring vertex \<open>i\<close> of the fan, at angle \<open>i * 2 * 3.14159265 / segments\<close>.\<close>

definition fan_vertex :: "real \<Rightarrow> real \<Rightarrow> real \<Rightarrow> int \<Rightarrow> int \<Rightarrow> real list" where
  "fan_vertex cx cz radius segments i =
     (let a = real_of_int i * 2 * 3.14159265 / real_of_int segments;
          cos_a = cos a; sin_a = sin a;
          x = cx + radius * cos_a; z = cz + radius * sin_a
      in vertex x 0.01 z 0 1 0 ((cos_a + 1) * 0.5) ((sin_a + 1) * 0.5))"

definition makeCircleFan :: "real \<Rightarrow> real \<Rightarrow> real \<Rightarrow> int \<Rightarrow> mesh" where
  "makeCircleFan cx cz radius segments =
     buildMesh
       (vertex cx 0.01 cz 0 1 0 0.5 0.5 @ concat (map (fan_vertex cx cz radius segments) [0..segments]))
       (concat (map (\<lambda>i. [0, nat i, nat (i + 1)]) [1..segments]))"

text \<open>
  A well-formed mesh: whole vertices of eight floats, whole triangles, and every index
  naming a vertex of the buffer (the draw call reads no vertex out of range).
\<close>

definition mesh_ok :: "mesh \<Rightarrow> bool" where
  "mesh_ok m \<longleftrightarrow> length (verts m) mod 8 = 0 \<and> elemCount m = length (indices m) \<and>
     length (indices m) mod 3 = 0 \<and> list_all (\<lambda>i. i < length (verts m) div 8) (indices m)"

lemma length_vertex [simp]: "length (vertex x y z nx ny nz u v) = 8"
  by (simp add: vertex_def)

lemma length_fan_vertex [simp]: "length (fan_vertex cx cz r s i) = 8"
  by (simp add: fan_vertex_def Let_def)

lemma length_concat_const:
  "(\<And>x. x \<in> set xs \<Longrightarrow> length (f x) = k) \<Longrightarrow> length (concat (map f xs)) = k * length xs"
  by (induction xs) auto

lemma fan_verts_length:
  "length (verts (makeCircleFan cx cz r s)) = 8 * (nat (s + 1) + 1)"
  by (simp add: makeCircleFan_def buildMesh_def length_concat_const)

lemma fan_indices_length:
  "length (indices (makeCircleFan cx cz r s)) = 3 * nat s"
  by (simp add: makeCircleFan_def buildMesh_def length_concat_const)

lemma fan_indices_bound:
  "list_all (\<lambda>i. i \<le> nat (s + 1)) (indices (makeCircleFan cx cz r s))"
  by (auto simp: makeCircleFan_def buildMesh_def list_all_iff)

lemma take_drop_concat_const:
  assumes "\<And>x. x \<in> set xs \<Longrightarrow> length (f x) = k" "j < length xs"
  shows "take k (drop (k * j) (concat (map f xs))) = f (xs ! j)"
  using assms
proof (induction xs arbitrary: j)
  case Nil
  then show ?case by simp
next
  case (Cons x xs)
  show ?case
  proof (cases j)
    case 0
    with Cons.prems show ?thesis by simp
  next
    case (Suc j')
    have "drop (k * j) (concat (map f (x # xs))) = drop (k * j') (concat (map f xs))"
      using Cons.prems(1) Suc by (simp add: algebra_simps)
    with Cons.IH [of j'] Cons.prems Suc show ?thesis by simp
  qed
qed

text \<open>Vertex \<open>i + 1\<close> of the fan buffer is ring vertex \<open>i\<close>.\<close>

lemma fan_vertex_at:
  assumes "0 \<le> i" "i \<le> s"
  shows "take 8 (drop (8 * (nat i + 1)) (verts (makeCircleFan cx cz r s))) = fan_vertex cx cz r s i"
proof -
  have "take 8 (drop (8 * nat i) (concat (map (fan_vertex cx cz r s) [0..s]))) = fan_vertex cx cz r s ([0..s] ! nat i)"
    by (rule take_drop_concat_const) (use assms in simp_all)
  moreover have "[0..s] ! nat i = i" using assms by simp
  ultimately show ?thesis
    by (simp add: makeCircleFan_def buildMesh_def algebra_simps)
qed

text \<open>
  C36: the three meshes are well formed: whole vertices, whole triangles, every index
  within the vertex buffer; the cube draws 36 indices, the quad 6 and a fan of \<open>segments\<close>
  triangles \<open>3 * segments\<close> (none for \<open>segments \<le> 0\<close>).
\<close>

theorem meshes_ok:
  "mesh_ok makeCube \<and> mesh_ok makeQuadXZ \<and> mesh_ok (makeCircleFan cx cz r s) \<and>
   elemCount makeCube = 36 \<and> elemCount makeQuadXZ = 6 \<and> elemCount (makeCircleFan cx cz r s) = 3 * nat s"
proof -
  have "list_all (\<lambda>i. i < length (verts (makeCircleFan cx cz r s)) div 8) (indices (makeCircleFan cx cz r s))"
    using fan_indices_bound [of s cx cz r] by (simp add: fan_verts_length list_all_iff less_Suc_eq_le)
  moreover have "elemCount (makeCircleFan cx cz r s) = length (indices (makeCircleFan cx cz r s))"
    by (simp add: makeCircleFan_def buildMesh_def)
  ultimately have "mesh_ok (makeCircleFan cx cz r s)"
    by (simp add: mesh_ok_def fan_verts_length fan_indices_length)
  moreover have "mesh_ok makeCube" "mesh_ok makeQuadXZ" "elemCount makeCube = 36" "elemCount makeQuadXZ = 6"
    by (simp_all add: mesh_ok_def makeCube_def makeQuadXZ_def buildMesh_def vertex_def)
  moreover have "elemCount (makeCircleFan cx cz r s) = 3 * nat s"
    using fan_indices_length [of cx cz r s] by (simp add: makeCircleFan_def buildMesh_def)
  ultimately show ?thesis by simp
qed

lemma one_plus_trig_nonneg: "0 \<le> 1 + cos x" "0 \<le> 1 + sin x" for x :: real
  using cos_ge_minus_one [of x] sin_ge_minus_one [of x] by linarith+

text \<open>
  Every ring vertex of the fan lies on the circle of the given radius about the
  centre, just above the ground (\<open>y = 0.01\<close>), with texture coordinates in \<open>[0, 1]\<close>.
\<close>

theorem fan_ring_on_circle:
  assumes "0 \<le> i" "i \<le> s"
  shows "(let v = take 8 (drop (8 * (nat i + 1)) (verts (makeCircleFan cx cz r s)))
          in (v ! 0 - cx)\<^sup>2 + (v ! 2 - cz)\<^sup>2 = r\<^sup>2 \<and> v ! 1 = 0.01 \<and>
             0 \<le> v ! 6 \<and> v ! 6 \<le> 1 \<and> 0 \<le> v ! 7 \<and> v ! 7 \<le> 1)"
proof -
  let ?a = "real_of_int i * 2 * 3.14159265 / real_of_int s"
  have g: "(r * c)\<^sup>2 + (r * t)\<^sup>2 = r\<^sup>2 * (t\<^sup>2 + c\<^sup>2)" for c t :: real
    by (simp add: power2_eq_square algebra_simps)
  have "(r * cos ?a)\<^sup>2 + (r * sin ?a)\<^sup>2 = r\<^sup>2 * ((sin ?a)\<^sup>2 + (cos ?a)\<^sup>2)"
    by (rule g)
  also have "\<dots> = r\<^sup>2" by (simp only: sin_cos_squared_add mult_1_right)
  finally have circ: "(r * cos ?a)\<^sup>2 + (r * sin ?a)\<^sup>2 = r\<^sup>2" .
  have "- 1 \<le> cos ?a" "cos ?a \<le> 1" "- 1 \<le> sin ?a" "sin ?a \<le> 1" by simp_all
  moreover note circ
  moreover have "take 8 (drop (8 * (nat i + 1)) (verts (makeCircleFan cx cz r s))) = fan_vertex cx cz r s i"
    by (rule fan_vertex_at [OF assms])
  ultimately show ?thesis
    unfolding Let_def by (simp only:) (simp add: fan_vertex_def vertex_def Let_def add.commute [of _ 1] one_plus_trig_nonneg)
qed

theorem fan_ring_on_circle_witness:
  "(0::int) \<le> 16 \<and> (16::int) \<le> 64 \<and>
   (let v = take 8 (drop (8 * (nat 16 + 1)) (verts (makeCircleFan 8 (- 8) 5 64)))
    in (v ! 0 - 8)\<^sup>2 + (v ! 2 - (- 8))\<^sup>2 = 5\<^sup>2 \<and> v ! 1 = 0.01 \<and>
       0 \<le> v ! 6 \<and> v ! 6 \<le> 1 \<and> 0 \<le> v ! 7 \<and> v ! 7 \<le> 1)"
  using fan_ring_on_circle [of 16 64 8 "- 8" 5] by simp

end
