(* ===== verification/App.thy ===== *)
theory App
  imports Layout Render "HOL-Library.Monad_Syntax"
begin

text \<open>
  The program of \<^verbatim>\<open>src/src/main.cpp\<close> around the scene: the validated configuration
  prompts, the call of \<^verbatim>\<open>CityScene::init\<close> with what they read, and the event loop
  (mouse and scroll callbacks driving the camera, one update per frame). Console input is
  a stream of numbers: all integer prompts come before all float prompts in the source,
  so it is modelled as one list of integers and one of reals, read in order. A prompt is
  a \<^verbatim>\<open>do { ... } while (v < lo || v > hi)\<close> loop; when the stream ends,
  \<^verbatim>\<open>std::cin\<close> fails and the loop never exits, which is the value \<open>None\<close> here. The
  city name read by \<^verbatim>\<open>getline\<close> is only echoed and is not modelled; window and GL
  set-up, and the whole of \<^verbatim>\<open>main\<close> built from these parts, are in \<open>Main_Program\<close>.
\<close>

section \<open>Configuration prompts\<close>

fun read_ranged :: "'a::linorder \<Rightarrow> 'a \<Rightarrow> 'a list \<Rightarrow> ('a \<times> 'a list) option" where
  "read_ranged lo hi [] = None"
| "read_ranged lo hi (v # vs) = (if v < lo \<or> v > hi then read_ranged lo hi vs else Some (v, vs))"

text \<open>A width prompt followed by a height prompt.\<close>

definition read_pair :: "real \<Rightarrow> real \<Rightarrow> real \<Rightarrow> real \<Rightarrow> real list \<Rightarrow> (real \<times> real \<times> real list) option" where
  "read_pair lo1 hi1 lo2 hi2 rs = do {
     (w, r1) \<leftarrow> read_ranged lo1 hi1 rs;
     (h, r2) \<leftarrow> read_ranged lo2 hi2 r1;
     Some (w, h, r2)
   }"

text \<open>
  The count prompts for a style: skyscrapers, towers, offices and their total
  \<^verbatim>\<open>numBuildings\<close>, with the rest of the input.
\<close>

definition read_counts :: "int \<Rightarrow> int list \<Rightarrow> (int \<times> int \<times> int \<times> int \<times> int list) option" where
  "read_counts style is =
     (if style = 1 then do { (n, i) \<leftarrow> read_ranged 5 20 is; Some (n, 0, 0, n, i) }
      else if style = 2 then do { (n, i) \<leftarrow> read_ranged 5 20 is; Some (0, n, 0, n, i) }
      else do {
        (a, i1) \<leftarrow> read_ranged 1 10 is;
        (b, i2) \<leftarrow> read_ranged 1 10 i1;
        (c, i3) \<leftarrow> read_ranged 1 10 i2;
        Some (a, b, c, a + b + c, i3) })"

text \<open>
  The dimension prompts. Floats the chosen style does not prompt for keep their
  indeterminate initial values, given by \<open>u\<close> (\<open>u 0\<close> .. \<open>u 5\<close> for skyscraper width and
  height, tower width and height, building width and height).
\<close>

definition read_dims :: "int \<Rightarrow> (nat \<Rightarrow> real) \<Rightarrow> real list \<Rightarrow> ((real \<times> real) \<times> (real \<times> real) \<times> (real \<times> real) \<times> real list) option" where
  "read_dims style u rs = do {
     (sw, sh, rs1) \<leftarrow> (if style = 1 \<or> style = 3 then read_pair 1 10 10 100 rs else Some (u 0, u 1, rs));
     (tw, th, rs2) \<leftarrow> (if style = 2 \<or> style = 3 then read_pair 1 5 5 50 rs1 else Some (u 2, u 3, rs1));
     (bw, bh, rs3) \<leftarrow> (if style = 3 then read_pair 1 8 3 80 rs2 else Some (u 4, u 5, rs2));
     Some ((sw, sh), (tw, th), (bw, bh), rs3)
   }"

text \<open>The prompts of \<^verbatim>\<open>main\<close>, in order: size, style, counts, dimensions, pond radius.\<close>

definition read_config :: "(nat \<Rightarrow> real) \<Rightarrow> int list \<Rightarrow> real list \<Rightarrow> city_config option" where
  "read_config u is rs = do {
     (citySize', is1) \<leftarrow> read_ranged 1 3 is;
     (style, is2) \<leftarrow> read_ranged 1 3 is1;
     (nsk, nt, no, nb, is3) \<leftarrow> read_counts style is2;
     ((sw, sh), (tw, th), (bw, bh), rs3) \<leftarrow> read_dims style u rs;
     (pr, rs4) \<leftarrow> read_ranged 2 15 rs3;
     Some \<lparr>citySize = citySize', numBuildings = nb, numSkyscrapers = nsk, numTowers = nt,
           numOfficeBuildings = no, buildingStyle = style, towerWidth = tw, towerHeight = th,
           buildingWidth = bw, buildingHeight = bh, skyscraperWidth = sw, skyscraperHeight = sh,
           pondRadius = pr\<rparr>
   }"

text \<open>\<^verbatim>\<open>CityScene scene; scene.init(...)\<close> with the arguments in \<^verbatim>\<open>main\<close>'s order.\<close>

definition main_scene :: "'s rng \<Rightarrow> 's \<Rightarrow> city_config \<Rightarrow> 's city_scene option" where
  "main_scene R st cfg =
     init R (CityScene st) (citySize cfg) (numBuildings cfg) (buildingStyle cfg)
       (towerWidth cfg) (towerHeight cfg) (buildingWidth cfg) (buildingHeight cfg)
       (skyscraperWidth cfg) (skyscraperHeight cfg) (pondRadius cfg)
       (numSkyscrapers cfg) (numTowers cfg) (numOfficeBuildings cfg)"

text \<open>The ranges the prompts enforce, for the fields the chosen style uses.\<close>

definition config_ok :: "city_config \<Rightarrow> bool" where
  "config_ok cfg \<longleftrightarrow>
     citySize cfg \<in> {1..3} \<and> buildingStyle cfg \<in> {1..3} \<and> pondRadius cfg \<in> {2..15} \<and>
     (if buildingStyle cfg = 1 then
        numSkyscrapers cfg \<in> {5..20} \<and> numTowers cfg = 0 \<and> numOfficeBuildings cfg = 0 \<and>
        numBuildings cfg = numSkyscrapers cfg \<and>
        skyscraperWidth cfg \<in> {1..10} \<and> skyscraperHeight cfg \<in> {10..100}
      else if buildingStyle cfg = 2 then
        numTowers cfg \<in> {5..20} \<and> numSkyscrapers cfg = 0 \<and> numOfficeBuildings cfg = 0 \<and>
        numBuildings cfg = numTowers cfg \<and>
        towerWidth cfg \<in> {1..5} \<and> towerHeight cfg \<in> {5..50}
      else
        numSkyscrapers cfg \<in> {1..10} \<and> numTowers cfg \<in> {1..10} \<and> numOfficeBuildings cfg \<in> {1..10} \<and>
        numBuildings cfg = numSkyscrapers cfg + numTowers cfg + numOfficeBuildings cfg \<and>
        skyscraperWidth cfg \<in> {1..10} \<and> skyscraperHeight cfg \<in> {10..100} \<and>
        towerWidth cfg \<in> {1..5} \<and> towerHeight cfg \<in> {5..50} \<and>
        buildingWidth cfg \<in> {1..8} \<and> buildingHeight cfg \<in> {3..80})"

section \<open>The event loop\<close>

text \<open>
  The globals of \<^verbatim>\<open>main.cpp\<close> the callbacks share (\<^verbatim>\<open>camera\<close>,
  \<^verbatim>\<open>rightMouseDown\<close>, \<^verbatim>\<open>lastX\<close>, \<^verbatim>\<open>lastY\<close>) and the scene, as one state.
\<close>

record 's app_state =
  cam :: camera
  rightMouseDown :: bool
  lastX :: real
  lastY :: real
  scene :: "'s city_scene"

text \<open>GLFW's codes for the right mouse button and a press (from the GLFW header).\<close>

definition GLFW_MOUSE_BUTTON_RIGHT :: int where "GLFW_MOUSE_BUTTON_RIGHT = 1"

definition GLFW_PRESS :: int where "GLFW_PRESS = 1"

definition cursor_cb :: "real \<Rightarrow> real \<Rightarrow> 's app_state \<Rightarrow> 's app_state" where
  "cursor_cb xpos ypos a =
     (if \<not> rightMouseDown a then a\<lparr>lastX := xpos, lastY := ypos\<rparr>
      else let dx = xpos - lastX a; dy = lastY a - ypos
           in a\<lparr>lastX := xpos, lastY := ypos, cam := processMouseDelta dx dy (cam a)\<rparr>)"

definition mouse_button_cb :: "int \<Rightarrow> int \<Rightarrow> 's app_state \<Rightarrow> 's app_state" where
  "mouse_button_cb button action a =
     (if button = GLFW_MOUSE_BUTTON_RIGHT then a\<lparr>rightMouseDown := (action = GLFW_PRESS)\<rparr> else a)"

definition scroll_cb :: "real \<Rightarrow> 's app_state \<Rightarrow> 's app_state" where
  "scroll_cb y a = a\<lparr>cam := processScroll y (cam a)\<rparr>"

text \<open>
  One iteration of the render loop after its events: \<^verbatim>\<open>camera.update(0.016f)\<close> and
  \<^verbatim>\<open>scene.update(0.016f)\<close> (rendering itself changes neither).
\<close>

definition frame :: "'s app_state \<Rightarrow> 's app_state" where
  "frame a = a\<lparr>cam := camera_update 0.016 (cam a), scene := cityScene_update 0.016 (scene a)\<rparr>"

datatype event = CursorPos real real | MouseButton int int | ScrollEvent real | Frame

fun handle_event :: "event \<Rightarrow> 's app_state \<Rightarrow> 's app_state" where
  "handle_event (CursorPos x y) a = cursor_cb x y a"
| "handle_event (MouseButton b act) a = mouse_button_cb b act a"
| "handle_event (ScrollEvent y) a = scroll_cb y a"
| "handle_event Frame a = frame a"

text \<open>
  The state when the loop starts: the static camera as constructed, then aimed by
  \<^verbatim>\<open>main\<close> (target, distance 80, pitch -15); no button held; the scene \<open>s0\<close> built by
  \<^verbatim>\<open>init\<close>.
\<close>

definition app_start :: "'s city_scene \<Rightarrow> 's app_state" where
  "app_start s0 =
     \<lparr>cam = Camera\<lparr>target := (0, 0, 0), distance := 80, pitch := - 15\<rparr>, rightMouseDown = False,
      lastX = 0, lastY = 0, scene = s0\<rparr>"

inductive app_reach :: "'s city_scene \<Rightarrow> 's app_state \<Rightarrow> bool" for s0 where
  start: "app_reach s0 (app_start s0)"
| step: "app_reach s0 a \<Longrightarrow> app_reach s0 (handle_event e a)"

lemma read_ranged_Some:
  "read_ranged lo hi vs = Some (v, rest) \<Longrightarrow> lo \<le> v \<and> v \<le> hi"
  by (induction vs) (auto split: if_splits)

lemma bind_Some_iff: "Option.bind m f = Some r \<longleftrightarrow> (\<exists>x. m = Some x \<and> f x = Some r)"
  by (cases m) auto

lemma read_pair_Some:
  "read_pair lo1 hi1 lo2 hi2 rs = Some (w, h, r) \<Longrightarrow> lo1 \<le> w \<and> w \<le> hi1 \<and> lo2 \<le> h \<and> h \<le> hi2"
  by (auto simp: read_pair_def bind_Some_iff dest!: read_ranged_Some)

lemma read_counts_Some:
  assumes "read_counts style is = Some (nsk, nt, no, nb, rest)"
  shows "(if style = 1 then nsk \<in> {5..20} \<and> nt = 0 \<and> no = 0 \<and> nb = nsk
          else if style = 2 then nt \<in> {5..20} \<and> nsk = 0 \<and> no = 0 \<and> nb = nt
          else nsk \<in> {1..10} \<and> nt \<in> {1..10} \<and> no \<in> {1..10} \<and> nb = nsk + nt + no)"
  using assms by (auto simp: read_counts_def bind_Some_iff split: if_splits dest!: read_ranged_Some)

lemma read_dims_Some:
  assumes "read_dims style u rs = Some ((sw, sh), (tw, th), (bw, bh), rest)"
  shows "(style = 1 \<or> style = 3 \<longrightarrow> sw \<in> {1..10} \<and> sh \<in> {10..100}) \<and>
         (style = 2 \<or> style = 3 \<longrightarrow> tw \<in> {1..5} \<and> th \<in> {5..50}) \<and>
         (style = 3 \<longrightarrow> bw \<in> {1..8} \<and> bh \<in> {3..80})"
proof -
  obtain rs1 rs2 where
    a: "(if style = 1 \<or> style = 3 then read_pair 1 10 10 100 rs else Some (u 0, u 1, rs)) = Some (sw, sh, rs1)" and
    b: "(if style = 2 \<or> style = 3 then read_pair 1 5 5 50 rs1 else Some (u 2, u 3, rs1)) = Some (tw, th, rs2)" and
    c: "(if style = 3 then read_pair 1 8 3 80 rs2 else Some (u 4, u 5, rs2)) = Some (bw, bh, rest)"
    using assms by (auto simp: read_dims_def bind_Some_iff split: prod.split_asm)
  have "style = 1 \<or> style = 3 \<longrightarrow> sw \<in> {1..10} \<and> sh \<in> {10..100}"
    using a by (auto dest: read_pair_Some)
  moreover have "style = 2 \<or> style = 3 \<longrightarrow> tw \<in> {1..5} \<and> th \<in> {5..50}"
    using b by (auto dest: read_pair_Some)
  moreover have "style = 3 \<longrightarrow> bw \<in> {1..8} \<and> bh \<in> {3..80}"
    using c by (auto dest: read_pair_Some)
  ultimately show ?thesis by blast
qed

lemma read_config_valid:
  assumes "read_config u is rs = Some cfg"
  shows "config_ok cfg"
proof -
  from assms obtain cs is1 style is2 nsk nt no nb is3 sw sh tw th bw bh rs3 pr rs4 where
    cs: "read_ranged 1 3 is = Some (cs, is1)" and st: "read_ranged 1 3 is1 = Some (style, is2)" and
    cn: "read_counts style is2 = Some (nsk, nt, no, nb, is3)" and
    dm: "read_dims style u rs = Some ((sw, sh), (tw, th), (bw, bh), rs3)" and
    pd: "read_ranged 2 15 rs3 = Some (pr, rs4)" and
    cfg: "cfg = \<lparr>citySize = cs, numBuildings = nb, numSkyscrapers = nsk, numTowers = nt,
           numOfficeBuildings = no, buildingStyle = style, towerWidth = tw, towerHeight = th,
           buildingWidth = bw, buildingHeight = bh, skyscraperWidth = sw, skyscraperHeight = sh,
           pondRadius = pr\<rparr>"
    by (auto simp: read_config_def bind_Some_iff split: prod.split_asm)
  have base: "cs \<in> {1..3}" "pr \<in> {2..15}"
    using read_ranged_Some [OF cs] read_ranged_Some [OF pd] by simp_all
  note counts = read_counts_Some [OF cn] and dims = read_dims_Some [OF dm]
  consider "style = 1" | "style = 2" | "style = 3"
    using read_ranged_Some [OF st] by fastforce
  then show ?thesis
  proof cases
    case 1
    with counts dims have "nsk \<in> {5..20} \<and> nt = 0 \<and> no = 0 \<and> nb = nsk \<and> sw \<in> {1..10} \<and> sh \<in> {10..100}"
      by simp
    with 1 base show ?thesis by (simp add: config_ok_def cfg)
  next
    case 2
    with counts dims have "nt \<in> {5..20} \<and> nsk = 0 \<and> no = 0 \<and> nb = nt \<and> tw \<in> {1..5} \<and> th \<in> {5..50}"
      by simp
    with 2 base show ?thesis by (simp add: config_ok_def cfg)
  next
    case 3
    with counts dims have "nsk \<in> {1..10} \<and> nt \<in> {1..10} \<and> no \<in> {1..10} \<and> nb = nsk + nt + no \<and>
        sw \<in> {1..10} \<and> sh \<in> {10..100} \<and> tw \<in> {1..5} \<and> th \<in> {5..50} \<and> bw \<in> {1..8} \<and> bh \<in> {3..80}"
      by simp
    with 3 base show ?thesis by (simp add: config_ok_def cfg)
  qed
qed


text \<open>
  A prompt returns the first answer in range, with the answers before it all
  rejected, and the input after it left unread.
\<close>

theorem read_ranged_eq_Some:
  "read_ranged lo hi vs = Some (v, rest) \<longleftrightarrow>
     (\<exists>pre. vs = pre @ v # rest \<and> lo \<le> v \<and> v \<le> hi \<and> list_all (\<lambda>x. x < lo \<or> hi < x) pre)"
proof (induction vs)
  case Nil
  then show ?case by simp
next
  case (Cons x xs)
  show ?case
  proof (cases "x < lo \<or> hi < x")
    case True
    let ?P = "\<lambda>pre ys. ys = pre @ v # rest \<and> lo \<le> v \<and> v \<le> hi \<and> list_all (\<lambda>x. x < lo \<or> hi < x) pre"
    have "read_ranged lo hi (x # xs) = Some (v, rest) \<longleftrightarrow> (\<exists>pre. ?P pre xs)"
      using True Cons.IH by simp
    also have "\<dots> \<longleftrightarrow> (\<exists>pre. ?P pre (x # xs))"
    proof
      assume "\<exists>pre. ?P pre xs"
      then obtain pre where "?P pre xs" ..
      with True have "?P (x # pre) (x # xs)" by simp
      then show "\<exists>pre. ?P pre (x # xs)" ..
    next
      assume "\<exists>pre. ?P pre (x # xs)"
      then obtain pre where p: "?P pre (x # xs)" ..
      with True obtain pre' where "pre = x # pre'" by (cases pre) auto
      with p have "?P pre' xs" by simp
      then show "\<exists>pre. ?P pre xs" ..
    qed
    finally show ?thesis .
  next
    case False
    then show ?thesis by (auto simp: Cons_eq_append_conv not_less)
  qed
qed


text \<open>
  C14: a prompt never returns (its \<^verbatim>\<open>do ... while\<close> loop spins) exactly when no answer
  in range remains, in particular at end of input, where \<^verbatim>\<open>std::cin\<close> fails for good.
\<close>

theorem read_ranged_eq_None:
  "read_ranged lo hi vs = None \<longleftrightarrow> list_all (\<lambda>x. x < lo \<or> hi < x) vs"
  by (induction vs) auto

text \<open>What the loop keeps of the state: the camera invariant and aim, auto-rotation off,
  and the scene equal to the initial one up to the water animation.\<close>

definition app_inv :: "'s city_scene \<Rightarrow> 's app_state \<Rightarrow> bool" where
  "app_inv s0 a \<longleftrightarrow> camera_inv (cam a) \<and> \<not> autoRotate (cam a) \<and> target (cam a) = (0, 0, 0) \<and>
     (\<exists>w r. scene a = s0\<lparr>waterTime := w, ripplePhase := r\<rparr>)"

lemma app_inv_start: "app_inv s0 (app_start s0)"
  by (simp add: app_inv_def app_start_def camera_inv_def Camera_def)
    (rule exI [of _ "waterTime s0"], rule exI [of _ "ripplePhase s0"], simp)

lemma app_inv_step: "app_inv s0 a \<Longrightarrow> app_inv s0 (handle_event e a)"
proof (cases e)
  case (CursorPos x y)
  assume "app_inv s0 a"
  with CursorPos show ?thesis
    by (simp add: app_inv_def cursor_cb_def Let_def processMouseDelta_inv)
next
  case (MouseButton b act)
  assume "app_inv s0 a"
  with MouseButton show ?thesis by (simp add: app_inv_def mouse_button_cb_def)
next
  case (ScrollEvent y)
  assume "app_inv s0 a"
  with ScrollEvent show ?thesis by (simp add: app_inv_def scroll_cb_def processScroll_inv)
next
  case Frame
  assume inv: "app_inv s0 a"
  then obtain w r where sa: "scene a = s0\<lparr>waterTime := w, ripplePhase := r\<rparr>"
    by (auto simp: app_inv_def)
  have "cityScene_update 0.016 (scene a) = s0\<lparr>waterTime := w + 0.016 * 2, ripplePhase := r + 0.016 * 3\<rparr>"
    by (simp add: sa cityScene_update_def)
  with inv Frame show ?thesis
    by (auto simp: app_inv_def frame_def)
qed

lemma app_reach_inv: "app_reach s0 a \<Longrightarrow> app_inv s0 a"
  by (induction rule: app_reach.induct) (simp_all add: app_inv_start app_inv_step)

lemma app_reach_fold: "app_reach s0 a \<Longrightarrow> app_reach s0 (fold handle_event es a)"
  by (induction es arbitrary: a) (simp_all add: app_reach.step)

text \<open>
  C1: whatever the user answers, once the prompts return, \<^verbatim>\<open>main\<close>'s call of
  \<^verbatim>\<open>init\<close> produces a scene over a 50, 70 or 100 cell grid whose layout satisfies the
  layout invariant, with at most 30 buildings and the building cell, height and type
  vectors of equal length, so that \<^verbatim>\<open>render\<close>'s indexed reads stay in range.
\<close>

theorem main_layout_safe:
  assumes "read_config u is rs = Some cfg"
  shows "\<exists>s'. main_scene R st cfg = Some s' \<and> layout_inv s' \<and> gridSize s' \<in> {50, 70, 100} \<and>
           length (buildingCells s') \<le> 30 \<and> length (buildingHeights s') = length (buildingCells s') \<and>
           length (buildingTypes s') = length (buildingCells s')"
proof -
  have ok: "config_ok cfg" by (rule read_config_valid [OF assms])
  then have nb: "nat (numBuildings cfg) \<le> 30"
    by (auto simp: config_ok_def split: if_splits)
  obtain s' where s': "main_scene R st cfg = Some s'" and inv: "layout_inv s'"
    and n: "gridSize s' = gridSize_of (citySize cfg)"
    and ty: "buildingTypes s' = map (expected_type (config s')) [0..<length (buildingCells s')]"
    and hs: "buildingHeights s' = map (\<lambda>ty. getFuturisticHeight (config s') ty 0) (buildingTypes s')"
    and len: "length (buildingCells s') \<le> nat (numBuildings cfg)"
    using init_inv [of R st "citySize cfg" "numBuildings cfg" "buildingStyle cfg" "towerWidth cfg"
        "towerHeight cfg" "buildingWidth cfg" "buildingHeight cfg" "skyscraperWidth cfg"
        "skyscraperHeight cfg" "pondRadius cfg" "numSkyscrapers cfg" "numTowers cfg" "numOfficeBuildings cfg"]
    unfolding main_scene_def by blast
  have "gridSize s' \<in> {50, 70, 100}" using n by (simp add: gridSize_of_def)
  with s' inv ty hs len nb show ?thesis by auto
qed

theorem main_layout_safe_witness:
  "read_config (\<lambda>_. 0) [2, 3, 2, 3, 4] [4, 50, 2, 20, 3, 30, 8] =
     Some \<lparr>citySize = 2, numBuildings = 9, numSkyscrapers = 2, numTowers = 3, numOfficeBuildings = 4,
           buildingStyle = 3, towerWidth = 2, towerHeight = 20, buildingWidth = 3, buildingHeight = 30,
           skyscraperWidth = 4, skyscraperHeight = 50, pondRadius = 8\<rparr> \<and>
   (\<exists>s'. main_scene sample_rng 0 \<lparr>citySize = 2, numBuildings = 9, numSkyscrapers = 2, numTowers = 3,
           numOfficeBuildings = 4, buildingStyle = 3, towerWidth = 2, towerHeight = 20, buildingWidth = 3,
           buildingHeight = 30, skyscraperWidth = 4, skyscraperHeight = 50, pondRadius = 8\<rparr> = Some s' \<and>
         layout_inv s' \<and> gridSize s' \<in> {50, 70, 100} \<and> length (buildingCells s') \<le> 30 \<and>
         length (buildingHeights s') = length (buildingCells s') \<and>
         length (buildingTypes s') = length (buildingCells s'))"
proof -
  have r: "read_config (\<lambda>_. 0) [2, 3, 2, 3, 4] [4, 50, 2, 20, 3, 30, 8] =
     Some \<lparr>citySize = 2, numBuildings = 9, numSkyscrapers = 2, numTowers = 3, numOfficeBuildings = 4,
           buildingStyle = 3, towerWidth = 2, towerHeight = 20, buildingWidth = 3, buildingHeight = 30,
           skyscraperWidth = 4, skyscraperHeight = 50, pondRadius = 8\<rparr>"
    by (simp add: read_config_def read_counts_def read_dims_def read_pair_def)
  show ?thesis using r main_layout_safe [OF r, of sample_rng 0] by simp
qed

text \<open>
  C11: in every state of the event loop the camera keeps its pitch within
  \<open>[-89, 89]\<close> degrees and its distance within \<open>[5, 150]\<close>, the eye lies at that distance
  from the target, the view direction is never vertical (so \<^verbatim>\<open>lookAt\<close> with up
  \<open>(0, 1, 0)\<close> is well defined), auto-rotation stays off, and the layout stays as
  \<^verbatim>\<open>init\<close> built it (only the water animation changes).
\<close>

theorem event_loop_invariant:
  assumes "app_reach s0 a"
  shows "camera_inv (cam a) \<and>
         (fst (target (cam a)) - fst (position (cam a)))\<^sup>2 +
         (fst (snd (target (cam a))) - fst (snd (position (cam a))))\<^sup>2 +
         (snd (snd (target (cam a))) - snd (snd (position (cam a))))\<^sup>2 = (distance (cam a))\<^sup>2 \<and>
         0 < (fst (view_dir (cam a)))\<^sup>2 + (snd (snd (view_dir (cam a))))\<^sup>2 \<and>
         \<not> autoRotate (cam a) \<and>
         (\<exists>w r. scene a = s0\<lparr>waterTime := w, ripplePhase := r\<rparr>)"
proof -
  have inv: "app_inv s0 a" by (rule app_reach_inv [OF assms])
  then have "camera_inv (cam a)" by (simp add: app_inv_def)
  with inv position_dist [of "cam a"] view_dir_not_vertical [of "cam a"] show ?thesis
    by (simp add: app_inv_def)
qed

theorem event_loop_invariant_witness:
  "app_reach (CityScene (0::int)) (handle_event (ScrollEvent 200) (app_start (CityScene 0))) \<and>
   camera_inv (cam (handle_event (ScrollEvent 200) (app_start (CityScene (0::int))))) \<and>
   distance (cam (handle_event (ScrollEvent 200) (app_start (CityScene (0::int))))) = 5"
proof -
  have r: "app_reach (CityScene (0::int)) (handle_event (ScrollEvent 200) (app_start (CityScene 0)))"
    by (rule app_reach.step [OF app_reach.start])
  have "distance (cam (handle_event (ScrollEvent 200) (app_start (CityScene (0::int))))) = 5"
    by (simp add: scroll_cb_def processScroll_def app_start_def Camera_def)
  with r event_loop_invariant [OF r] show ?thesis by simp
qed

text \<open>
  The answers a user types for a configuration, in prompt order, and the prior values of
  the floats the style does not ask for.
\<close>

definition int_answers :: "city_config \<Rightarrow> int list" where
  "int_answers cfg =
     [citySize cfg, buildingStyle cfg] @
     (if buildingStyle cfg = 1 then [numSkyscrapers cfg]
      else if buildingStyle cfg = 2 then [numTowers cfg]
      else [numSkyscrapers cfg, numTowers cfg, numOfficeBuildings cfg])"

definition real_answers :: "city_config \<Rightarrow> real list" where
  "real_answers cfg =
     (if buildingStyle cfg = 1 \<or> buildingStyle cfg = 3 then [skyscraperWidth cfg, skyscraperHeight cfg] else []) @
     (if buildingStyle cfg = 2 \<or> buildingStyle cfg = 3 then [towerWidth cfg, towerHeight cfg] else []) @
     (if buildingStyle cfg = 3 then [buildingWidth cfg, buildingHeight cfg] else []) @ [pondRadius cfg]"

definition unprompted :: "city_config \<Rightarrow> nat \<Rightarrow> real" where
  "unprompted cfg k =
     [skyscraperWidth cfg, skyscraperHeight cfg, towerWidth cfg, towerHeight cfg,
      buildingWidth cfg, buildingHeight cfg] ! k"

text \<open>
  C17: the prompts read back any valid configuration from the answers a user types for
  it (the unprompted floats keeping their prior values): every configuration the spec
  allows is reachable, and the prompts return on such input.
\<close>

theorem read_config_roundtrip:
  assumes "config_ok cfg"
  shows "read_config (unprompted cfg) (int_answers cfg) (real_answers cfg) = Some cfg"
proof -
  have st: "buildingStyle cfg \<in> {1..3}" using assms by (simp add: config_ok_def)
  consider "buildingStyle cfg = 1" | "buildingStyle cfg = 2" | "buildingStyle cfg = 3"
    using st by fastforce
  then show ?thesis
  proof cases
    case 1
    with assms show ?thesis
      by (cases cfg) (simp add: config_ok_def read_config_def read_counts_def read_dims_def read_pair_def
          int_answers_def real_answers_def unprompted_def)
  next
    case 2
    with assms show ?thesis
      by (cases cfg) (simp add: config_ok_def read_config_def read_counts_def read_dims_def read_pair_def
          int_answers_def real_answers_def unprompted_def)
  next
    case 3
    with assms show ?thesis
      by (cases cfg) (simp add: config_ok_def read_config_def read_counts_def read_dims_def read_pair_def
          int_answers_def real_answers_def unprompted_def)
  qed
qed


theorem read_config_roundtrip_witness:
  "config_ok \<lparr>citySize = 2, numBuildings = 9, numSkyscrapers = 2, numTowers = 3, numOfficeBuildings = 4,
           buildingStyle = 3, towerWidth = 2, towerHeight = 20, buildingWidth = 3, buildingHeight = 30,
           skyscraperWidth = 4, skyscraperHeight = 50, pondRadius = 8\<rparr> \<and>
   read_config (unprompted \<lparr>citySize = 2, numBuildings = 9, numSkyscrapers = 2, numTowers = 3, numOfficeBuildings = 4,
           buildingStyle = 3, towerWidth = 2, towerHeight = 20, buildingWidth = 3, buildingHeight = 30,
           skyscraperWidth = 4, skyscraperHeight = 50, pondRadius = 8\<rparr>) [2, 3, 2, 3, 4] [4, 50, 2, 20, 3, 30, 8] =
     Some \<lparr>citySize = 2, numBuildings = 9, numSkyscrapers = 2, numTowers = 3, numOfficeBuildings = 4,
           buildingStyle = 3, towerWidth = 2, towerHeight = 20, buildingWidth = 3, buildingHeight = 30,
           skyscraperWidth = 4, skyscraperHeight = 50, pondRadius = 8\<rparr>"
  using read_config_roundtrip [of "\<lparr>citySize = 2, numBuildings = 9, numSkyscrapers = 2, numTowers = 3,
           numOfficeBuildings = 4, buildingStyle = 3, towerWidth = 2, towerHeight = 20, buildingWidth = 3,
           buildingHeight = 30, skyscraperWidth = 4, skyscraperHeight = 50, pondRadius = 8\<rparr>"]
  by (simp add: config_ok_def int_answers_def real_answers_def)

text \<open>
  C13: from every state of the event loop the user can steer the camera to any pitch in
  \<open>[-89, 89]\<close> and any distance in \<open>[5, 150]\<close>: pressing the right button, one cursor
  move and one scroll reach it.
\<close>

theorem camera_steerable:
  assumes "app_reach s0 a" "- 89 \<le> p" "p \<le> 89" "5 \<le> d" "d \<le> 150"
  shows "\<exists>es. app_reach s0 (fold handle_event es a) \<and>
           pitch (cam (fold handle_event es a)) = p \<and> distance (cam (fold handle_event es a)) = d \<and>
           yaw (cam (fold handle_event es a)) = yaw (cam a)"
proof -
  let ?es = "[MouseButton GLFW_MOUSE_BUTTON_RIGHT GLFW_PRESS,
              CursorPos (lastX a) (lastY a - (p - pitch (cam a)) * 10),
              ScrollEvent (distance (cam a) - d)]"
  have "pitch (cam a) + (p - pitch (cam a)) * 10 * 0.1 = p" by (simp add: algebra_simps)
  then have "pitch (cam (fold handle_event ?es a)) = p \<and> distance (cam (fold handle_event ?es a)) = d \<and>
             yaw (cam (fold handle_event ?es a)) = yaw (cam a)"
    using assms(2-5)
    by (simp add: mouse_button_cb_def cursor_cb_def scroll_cb_def processMouseDelta_def
        processScroll_def Let_def)
  with app_reach_fold [OF assms(1)] show ?thesis by blast
qed

theorem camera_steerable_witness:
  "\<exists>es. app_reach (CityScene (0::int)) (fold handle_event es (app_start (CityScene 0))) \<and>
     pitch (cam (fold handle_event es (app_start (CityScene (0::int))))) = 30 \<and>
     distance (cam (fold handle_event es (app_start (CityScene (0::int))))) = 10 \<and>
     yaw (cam (fold handle_event es (app_start (CityScene (0::int))))) = - 90"
proof -
  have "yaw (cam (app_start (CityScene (0::int)))) = - 90" by (simp add: app_start_def Camera_def)
  with camera_steerable [OF app_reach.start [of "CityScene (0::int)"], of 30 10] show ?thesis by simp
qed

end
