(* ===== verification/Stb_Image.thy ===== *)
theory Stb_Image
  imports Prelude "HOL-Library.Monad_Syntax" "HOL-Library.Word"
begin

text \<open>
  The part of the vendored \<^verbatim>\<open>src/include/stb_image.h\<close> that the repository actually
  contains: its implementation section (\<^verbatim>\<open>STB_IMAGE_IMPLEMENTATION\<close>) holds the read
  context with \<^verbatim>\<open>stbi__start_mem\<close>, \<^verbatim>\<open>stbi__start_callbacks\<close> and
  \<^verbatim>\<open>stbi__rewind\<close>, the failure-reason global, the overflow-checked size helpers
  \<^verbatim>\<open>stbi__*_valid\<close> and \<^verbatim>\<open>stbi__malloc_mad*\<close>, \<^verbatim>\<open>stbi_image_free\<close> and the
  vertical-flip flag. The decoders themselves are declared but not defined in the file.

  C \<^verbatim>\<open>int\<close> is a 32-bit two's complement type whose signed overflow is undefined
  behaviour: an arithmetic operation is modelled as \<open>int option\<close>, \<open>None\<close> for an
  undefined result, and each helper as \<open>bool option\<close>, so that "the helper never
  overflows" is the theorem that it returns \<open>Some\<close>. C's \<open>&&\<close> evaluates its right
  operand only when the left one holds (\<open>c_and\<close>). \<^verbatim>\<open>malloc\<close> and \<^verbatim>\<open>free\<close> are the
  C library's: they act on the block map \<open>stbi_heap\<close> (address to bytes), allocation
  taking the next address and handing out zeroed bytes where C leaves them
  unspecified; running out of memory is not modelled. \<^verbatim>\<open>stbi_load\<close> is declared in
  the header but defined nowhere in the repository: it is modelled from its documented
  contract over the decoded images a file system holds.
\<close>

section \<open>C integers\<close>

text \<open>The \<^verbatim>\<open>short\<close> limits; the \<^verbatim>\<open>int\<close> operations are those of \<open>Prelude\<close>.\<close>

definition SHRT_MAX :: int where "SHRT_MAX = 2 ^ 15 - 1"
definition SHRT_MIN :: int where "SHRT_MIN = - (2 ^ 15)"

lemmas c_limits = INT_MAX_def INT_MIN_def SHRT_MAX_def SHRT_MIN_def

text \<open>C division truncates; division by zero is undefined.\<close>

definition c_div :: "int \<Rightarrow> int \<Rightarrow> int option" where
  "c_div a b = (if b = 0 then None else c_int (cdiv a b))"

text \<open>C's short-circuit \<open>&&\<close> on conditions that may be undefined.\<close>

definition c_and :: "bool option \<Rightarrow> bool option \<Rightarrow> bool option" where
  "c_and p q = (case p of None \<Rightarrow> None | Some False \<Rightarrow> Some False | Some True \<Rightarrow> q)"

text \<open>
  \<^verbatim>\<open>stbi_lrot(x,y)\<close> without \<^verbatim>\<open>_lrotl\<close> (every compiler but MSVC):
  \<^verbatim>\<open>((x) << (y)) | ((x) >> (-(y) & 31))\<close> on a 32-bit unsigned \<open>x\<close>. A shift by a
  negative amount or by 32 or more is undefined, so the macro is defined for
  \<open>0 \<le> y < 32\<close> only; \<^verbatim>\<open>-(y) & 31\<close> is computed on the \<open>int\<close> \<open>y\<close>.
\<close>

unbundle bit_operations_syntax

definition stbi_lrot :: "32 word \<Rightarrow> int \<Rightarrow> 32 word option" where
  "stbi_lrot x y =
     (if 0 \<le> y \<and> y < 32 then Some (push_bit (nat y) x OR drop_bit (nat ((- y) AND 31)) x) else None)"

section \<open>The read context\<close>

text \<open>
  \<^verbatim>\<open>stbi__context\<close>. Pointers are addresses; \<open>buffer_start\<close> is the address of the
  128-byte array inside the context. The callbacks and the user pointer are opaque.
\<close>

text \<open>\<^verbatim>\<open>stbi_io_callbacks\<close>: three function pointers, \<open>None\<close> for \<^verbatim>\<open>NULL\<close>.\<close>

record 'cb stbi_io_callbacks =
  cb_read :: "'cb option"
  cb_skip :: "'cb option"
  cb_eof :: "'cb option"

record ('io, 'u) stbi_context =
  img_x :: nat
  img_y :: nat
  img_n :: int
  img_out_n :: int
  io :: "'io stbi_io_callbacks"
  io_user_data :: 'u
  read_from_callbacks :: int
  buflen :: int
  buffer_start :: nat
  callback_already_read :: int
  img_buffer :: nat
  img_buffer_end :: nat
  img_buffer_original :: nat
  img_buffer_original_end :: nat

definition stbi__start_mem :: "nat \<Rightarrow> nat \<Rightarrow> ('io, 'u) stbi_context \<Rightarrow> ('io, 'u) stbi_context" where
  "stbi__start_mem buffer len s =
     s\<lparr>io := (io s)\<lparr>cb_read := None\<rparr>, read_from_callbacks := 0, callback_already_read := 0,
       img_buffer := buffer, img_buffer_original := buffer,
       img_buffer_end := buffer + len, img_buffer_original_end := buffer + len\<rparr>"

text \<open>
  \<^verbatim>\<open>stbi__refill_buffer\<close> is declared but not defined in the file; the start of a
  callback read takes it as a parameter.
\<close>

definition stbi__start_callbacks ::
  "(('io, 'u) stbi_context \<Rightarrow> ('io, 'u) stbi_context) \<Rightarrow> 'io stbi_io_callbacks \<Rightarrow> 'u \<Rightarrow>
   ('io, 'u) stbi_context \<Rightarrow> ('io, 'u) stbi_context" where
  "stbi__start_callbacks refill c user s =
     (let s1 = s\<lparr>io := c, io_user_data := user, buflen := 128, read_from_callbacks := 1,
                 callback_already_read := 0, img_buffer := buffer_start s,
                 img_buffer_original := buffer_start s\<rparr>;
          s2 = refill s1
      in s2\<lparr>img_buffer_original_end := img_buffer_end s2\<rparr>)"

section \<open>Reading from a file: the stdio callbacks\<close>

text \<open>
  A C stream (\<^verbatim>\<open>FILE\<close>) as its bytes, its position and its end-of-file and error
  indicators, and the four stdio calls the callbacks make: \<^verbatim>\<open>fread\<close> reads what is
  left up to the count and sets end-of-file on a short read; \<^verbatim>\<open>fseek\<close> relative to
  the current position fails on a negative target and otherwise clears end-of-file (a
  position past the end is allowed); \<^verbatim>\<open>fgetc\<close> returns the next byte or \<^verbatim>\<open>EOF\<close>
  and sets end-of-file; \<^verbatim>\<open>ungetc\<close> of the byte just read steps back over it and
  clears end-of-file.
\<close>

record c_file =
  f_data :: "nat list"
  f_pos :: nat
  f_eof :: bool
  f_error :: bool

definition EOF :: int where "EOF = - 1"

definition fread :: "nat \<Rightarrow> c_file \<Rightarrow> nat list \<times> c_file" where
  "fread n f =
     (let k = min n (length (f_data f) - f_pos f)
      in (take k (drop (f_pos f) (f_data f)), f\<lparr>f_pos := f_pos f + k, f_eof := (f_eof f \<or> k < n)\<rparr>))"

definition fseek_cur :: "int \<Rightarrow> c_file \<Rightarrow> int \<times> c_file" where
  "fseek_cur n f =
     (if int (f_pos f) + n < 0 then (- 1, f)
      else (0, f\<lparr>f_pos := nat (int (f_pos f) + n), f_eof := False\<rparr>))"

definition fgetc :: "c_file \<Rightarrow> int \<times> c_file" where
  "fgetc f =
     (if f_pos f < length (f_data f) then (int (f_data f ! f_pos f), f\<lparr>f_pos := Suc (f_pos f)\<rparr>)
      else (EOF, f\<lparr>f_eof := True\<rparr>))"

definition ungetc :: "int \<Rightarrow> c_file \<Rightarrow> c_file" where
  "ungetc ch f = (if ch = EOF then f else f\<lparr>f_pos := f_pos f - 1, f_eof := False\<rparr>)"

text \<open>
  \<^verbatim>\<open>stbi__stdio_read\<close>: \<^verbatim>\<open>(int) fread(data,1,size,f)\<close>, the \<open>int\<close> size converted
  to \<^verbatim>\<open>size_t\<close>; the bytes read are returned with the count.
\<close>

definition stbi__stdio_read :: "c_file \<Rightarrow> int \<Rightarrow> int \<times> nat list \<times> c_file" where
  "stbi__stdio_read f sz = (let (d, f') = fread (nat (sz mod 2 ^ 64)) f in (int (length d), d, f'))"

definition stbi__stdio_skip :: "c_file \<Rightarrow> int \<Rightarrow> c_file" where
  "stbi__stdio_skip f n =
     (let (_, f1) = fseek_cur n f;
          (ch, f2) = fgetc f1
      in if ch \<noteq> EOF then ungetc ch f2 else f2)"

definition stbi__stdio_eof :: "c_file \<Rightarrow> int" where
  "stbi__stdio_eof f = (if f_eof f \<or> f_error f then 1 else 0)"

datatype stdio_cb = Stdio_read | Stdio_skip | Stdio_eof

definition stbi__stdio_callbacks :: "stdio_cb stbi_io_callbacks" where
  "stbi__stdio_callbacks = \<lparr>cb_read = Some Stdio_read, cb_skip = Some Stdio_skip, cb_eof = Some Stdio_eof\<rparr>"

definition stbi__start_file ::
  "((stdio_cb, c_file) stbi_context \<Rightarrow> (stdio_cb, c_file) stbi_context) \<Rightarrow> c_file \<Rightarrow>
   (stdio_cb, c_file) stbi_context \<Rightarrow> (stdio_cb, c_file) stbi_context" where
  "stbi__start_file refill f s = stbi__start_callbacks refill stbi__stdio_callbacks f s"

definition stbi__rewind :: "('io, 'u) stbi_context \<Rightarrow> ('io, 'u) stbi_context" where
  "stbi__rewind s = s\<lparr>img_buffer := img_buffer_original s, img_buffer_end := img_buffer_original_end s\<rparr>"

section \<open>Failure reason, allocation and the flip flag\<close>

text \<open>
  The library's globals: the failure reason (\<open>None\<close> for a null pointer), the vertical
  flip flags, and the C heap. \<^verbatim>\<open>texture.cpp\<close> is C++11, so \<^verbatim>\<open>STBI_THREAD_LOCAL\<close>
  is defined and the thread-local branch of the flag applies.
\<close>

record stbi_heap =
  next_addr :: nat
  blocks :: "nat \<rightharpoonup> nat list"

record stbi_globals =
  g_failure_reason :: "string option"
  flip_global :: int
  flip_local :: int
  flip_set :: int
  heap :: stbi_heap

definition stbi_failure_reason :: "stbi_globals \<Rightarrow> string option" where
  "stbi_failure_reason g = g_failure_reason g"

definition stbi__err :: "string \<Rightarrow> stbi_globals \<Rightarrow> int \<times> stbi_globals" where
  "stbi__err str g = (0, g\<lparr>g_failure_reason := Some str\<rparr>)"

text \<open>\<^verbatim>\<open>stbi__errpuc\<close>: record the reason, return a null pointer (address 0).\<close>

definition stbi__errpuc :: "string \<Rightarrow> stbi_globals \<Rightarrow> nat \<times> stbi_globals" where
  "stbi__errpuc x g = (let (r, g') = stbi__err x g in (if r \<noteq> 0 then 0 else 0, g'))"

text \<open>\<^verbatim>\<open>malloc\<close> hands out the next address; \<^verbatim>\<open>free\<close> of a null pointer does nothing.\<close>

definition malloc :: "nat \<Rightarrow> stbi_heap \<Rightarrow> nat \<times> stbi_heap" where
  "malloc sz h = (let p = Suc (next_addr h) in (p, \<lparr>next_addr = p, blocks = (blocks h)(p \<mapsto> replicate sz 0)\<rparr>))"

definition free :: "nat \<Rightarrow> stbi_heap \<Rightarrow> stbi_heap" where
  "free p h = (if p = 0 then h else h\<lparr>blocks := (blocks h)(p := None)\<rparr>)"

definition stbi__malloc :: "nat \<Rightarrow> stbi_globals \<Rightarrow> nat \<times> stbi_globals" where
  "stbi__malloc sz g = (let (p, h) = malloc sz (heap g) in (p, g\<lparr>heap := h\<rparr>))"

definition stbi_image_free :: "nat \<Rightarrow> stbi_globals \<Rightarrow> stbi_globals" where
  "stbi_image_free p g = g\<lparr>heap := free p (heap g)\<rparr>"

definition stbi_set_flip_vertically_on_load :: "int \<Rightarrow> stbi_globals \<Rightarrow> stbi_globals" where
  "stbi_set_flip_vertically_on_load flag g = g\<lparr>flip_global := flag\<rparr>"

definition stbi_set_flip_vertically_on_load_thread :: "int \<Rightarrow> stbi_globals \<Rightarrow> stbi_globals" where
  "stbi_set_flip_vertically_on_load_thread flag g = g\<lparr>flip_local := flag, flip_set := 1\<rparr>"

definition stbi__vertically_flip_on_load :: "stbi_globals \<Rightarrow> int" where
  "stbi__vertically_flip_on_load g = (if flip_set g \<noteq> 0 then flip_local g else flip_global g)"

section \<open>Overflow-checked sizes\<close>

definition stbi__addsizes_valid :: "int \<Rightarrow> int \<Rightarrow> bool option" where
  "stbi__addsizes_valid a b =
     (if b < 0 then Some False else do { m \<leftarrow> c_sub INT_MAX b; Some (a \<le> m) })"

definition stbi__mul2sizes_valid :: "int \<Rightarrow> int \<Rightarrow> bool option" where
  "stbi__mul2sizes_valid a b =
     (if a < 0 \<or> b < 0 then Some False
      else if b = 0 then Some True
      else do { q \<leftarrow> c_div INT_MAX b; Some (a \<le> q) })"

definition stbi__mad2sizes_valid :: "int \<Rightarrow> int \<Rightarrow> int \<Rightarrow> bool option" where
  "stbi__mad2sizes_valid a b add =
     c_and (stbi__mul2sizes_valid a b) (do { ab \<leftarrow> c_mul a b; stbi__addsizes_valid ab add })"

definition stbi__mad3sizes_valid :: "int \<Rightarrow> int \<Rightarrow> int \<Rightarrow> int \<Rightarrow> bool option" where
  "stbi__mad3sizes_valid a b c add =
     c_and (stbi__mul2sizes_valid a b)
       (c_and (do { ab \<leftarrow> c_mul a b; stbi__mul2sizes_valid ab c })
          (do { ab \<leftarrow> c_mul a b; abc \<leftarrow> c_mul ab c; stbi__addsizes_valid abc add }))"

definition stbi__mad4sizes_valid :: "int \<Rightarrow> int \<Rightarrow> int \<Rightarrow> int \<Rightarrow> int \<Rightarrow> bool option" where
  "stbi__mad4sizes_valid a b c d add =
     c_and (stbi__mul2sizes_valid a b)
       (c_and (do { ab \<leftarrow> c_mul a b; stbi__mul2sizes_valid ab c })
          (c_and (do { ab \<leftarrow> c_mul a b; abc \<leftarrow> c_mul ab c; stbi__mul2sizes_valid abc d })
             (do { ab \<leftarrow> c_mul a b; abc \<leftarrow> c_mul ab c; abcd \<leftarrow> c_mul abc d;
                   stbi__addsizes_valid abcd add })))"

text \<open>
  The allocating helpers: \<open>None\<close> is undefined behaviour, \<open>Some (p, g')\<close> the returned
  pointer (0 for \<^verbatim>\<open>NULL\<close>) and the globals after the call. The \<^verbatim>\<open>int\<close> size is
  converted to \<^verbatim>\<open>size_t\<close> (\<open>nat\<close>).
\<close>

definition stbi__malloc_mad2 :: "int \<Rightarrow> int \<Rightarrow> int \<Rightarrow> stbi_globals \<Rightarrow> (nat \<times> stbi_globals) option" where
  "stbi__malloc_mad2 a b add g = do {
     ok \<leftarrow> stbi__mad2sizes_valid a b add;
     if \<not> ok then Some (0, g)
     else do { ab \<leftarrow> c_mul a b; sz \<leftarrow> c_int (ab + add); Some (stbi__malloc (nat sz) g) } }"

definition stbi__malloc_mad3 :: "int \<Rightarrow> int \<Rightarrow> int \<Rightarrow> int \<Rightarrow> stbi_globals \<Rightarrow> (nat \<times> stbi_globals) option" where
  "stbi__malloc_mad3 a b c add g = do {
     ok \<leftarrow> stbi__mad3sizes_valid a b c add;
     if \<not> ok then Some (0, g)
     else do { ab \<leftarrow> c_mul a b; abc \<leftarrow> c_mul ab c; sz \<leftarrow> c_int (abc + add);
               Some (stbi__malloc (nat sz) g) } }"

definition stbi__malloc_mad4 ::
  "int \<Rightarrow> int \<Rightarrow> int \<Rightarrow> int \<Rightarrow> int \<Rightarrow> stbi_globals \<Rightarrow> (nat \<times> stbi_globals) option" where
  "stbi__malloc_mad4 a b c d add g = do {
     ok \<leftarrow> stbi__mad4sizes_valid a b c d add;
     if \<not> ok then Some (0, g)
     else do { ab \<leftarrow> c_mul a b; abc \<leftarrow> c_mul ab c; abcd \<leftarrow> c_mul abc d; sz \<leftarrow> c_int (abcd + add);
               Some (stbi__malloc (nat sz) g) } }"

definition stbi__addints_valid :: "int \<Rightarrow> int \<Rightarrow> bool option" where
  "stbi__addints_valid a b =
     (if (a \<ge> 0) \<noteq> (b \<ge> 0) then Some True
      else if a < 0 \<and> b < 0 then do { m \<leftarrow> c_sub INT_MIN b; Some (a \<ge> m) }
      else do { m \<leftarrow> c_sub INT_MAX b; Some (a \<le> m) })"

definition stbi__mul2shorts_valid :: "int \<Rightarrow> int \<Rightarrow> bool option" where
  "stbi__mul2shorts_valid a b =
     (if b = 0 \<or> b = -1 then Some True
      else if (a \<ge> 0) = (b \<ge> 0) then do { q \<leftarrow> c_div SHRT_MAX b; Some (a \<le> q) }
      else if b < 0 then do { q \<leftarrow> c_div SHRT_MIN b; Some (a \<le> q) }
      else do { q \<leftarrow> c_div SHRT_MIN b; Some (a \<ge> q) })"


section \<open>The loader's contract\<close>

text \<open>
  A decoded image: its size, the channel count in the file, and its pixels converted to
  RGB (three bytes per pixel), as \<^verbatim>\<open>stbi_load(..., 3)\<close> returns them.
\<close>

record image =
  im_w :: nat
  im_h :: nat
  im_comp :: nat
  im_rgb :: "nat list"

text \<open>
  \<^verbatim>\<open>stbi_load(filename, &x, &y, &comp, 3)\<close>: on success a fresh block with the RGB
  pixels and the size; on failure a null pointer and a failure reason.
\<close>

definition stbi_load ::
  "(string \<rightharpoonup> image) \<Rightarrow> string \<Rightarrow> stbi_globals \<Rightarrow> (nat \<times> nat \<times> nat \<times> nat) \<times> stbi_globals" where
  "stbi_load files path g =
     (case files path of
        None \<Rightarrow> (let (p, g') = stbi__errpuc ''can't fopen'' g in ((p, 0, 0, 0), g'))
      | Some im \<Rightarrow>
          (let (p, g') = stbi__malloc (im_w im * im_h im * 3) g
           in ((p, im_w im, im_h im, im_comp im),
               g'\<lparr>heap := (heap g')\<lparr>blocks := (blocks (heap g'))(p \<mapsto> im_rgb im)\<rparr>\<rparr>)))"

section \<open>Reference definitions\<close>

text \<open>
  What the size checks are meant to decide: all factors and the addend non-negative, and
  every partial product, and the final sum, within \<^verbatim>\<open>INT_MAX\<close>.
\<close>

fun prefix_products :: "int \<Rightarrow> int list \<Rightarrow> int list" where
  "prefix_products p [] = []"
| "prefix_products p (x # xs) = p * x # prefix_products (p * x) xs"

definition sizes_fit :: "int list \<Rightarrow> int \<Rightarrow> bool" where
  "sizes_fit xs add \<longleftrightarrow> list_all ((\<le>) 0) xs \<and> 0 \<le> add \<and>
     list_all (\<lambda>p. p \<le> INT_MAX) (prefix_products 1 xs) \<and> prod_list xs + add \<le> INT_MAX"

text \<open>A sequence of calls to the two flag setters, in program order.\<close>

datatype flip_call = SetFlip int | SetFlipThread int

fun apply_flip_call :: "flip_call \<Rightarrow> stbi_globals \<Rightarrow> stbi_globals" where
  "apply_flip_call (SetFlip v) g = stbi_set_flip_vertically_on_load v g"
| "apply_flip_call (SetFlipThread v) g = stbi_set_flip_vertically_on_load_thread v g"

definition thread_values :: "flip_call list \<Rightarrow> int list" where
  "thread_values cs = [v. SetFlipThread v \<leftarrow> cs]"

definition global_values :: "flip_call list \<Rightarrow> int list" where
  "global_values cs = [v. SetFlip v \<leftarrow> cs]"

section \<open>Properties\<close>

lemma c_int_Some [simp]: "int32 x \<Longrightarrow> c_int x = Some x"
  by (simp add: c_int_def)

lemma c_and_simps [simp]: "c_and (Some True) q = q" "c_and (Some False) q = Some False"
  by (simp_all add: c_and_def)

lemma int32_size: "0 \<le> x \<Longrightarrow> x \<le> INT_MAX \<Longrightarrow> int32 x"
  by (simp add: int32_def INT_MIN_def)

lemma c_mul_size [simp]: "0 \<le> a * b \<Longrightarrow> a * b \<le> INT_MAX \<Longrightarrow> c_mul a b = Some (a * b)"
  by (simp add: c_mul_def int32_size)

lemma stbi__mul2sizes_valid_spec:
  assumes "int32 a" "int32 b"
  shows "stbi__mul2sizes_valid a b = Some (0 \<le> a \<and> 0 \<le> b \<and> a * b \<le> INT_MAX)"
proof (cases "a < 0 \<or> b < 0")
  case True
  then show ?thesis by (auto simp: stbi__mul2sizes_valid_def)
next
  case nn: False
  show ?thesis
  proof (cases "b = 0")
    case True
    with nn show ?thesis by (simp add: stbi__mul2sizes_valid_def INT_MAX_def)
  next
    case False
    with nn have b: "0 < b" "0 \<le> a" by simp_all
    have "0 \<le> INT_MAX div b" "INT_MAX div b \<le> INT_MAX"
      using b by (simp_all add: INT_MAX_def pos_imp_zdiv_nonneg_iff int_div_le_self)
    then have "c_div INT_MAX b = Some (INT_MAX div b)"
      using b by (simp add: c_div_def int32_size INT_MAX_def)
    with b show ?thesis by (simp add: stbi__mul2sizes_valid_def le_zdiv_iff)
  qed
qed

lemma stbi__addsizes_valid_spec:
  assumes "int32 a" "int32 b"
  shows "stbi__addsizes_valid a b = Some (0 \<le> b \<and> a + b \<le> INT_MAX)"
proof (cases "b < 0")
  case True
  then show ?thesis by (simp add: stbi__addsizes_valid_def)
next
  case False
  with assms have "int32 (INT_MAX - b)" by (simp add: int32_def INT_MIN_def INT_MAX_def)
  then have "c_sub INT_MAX b = Some (INT_MAX - b)" by (simp add: c_sub_def)
  with False show ?thesis by (auto simp: stbi__addsizes_valid_def)
qed

lemma prod_int32: "0 \<le> p \<Longrightarrow> 0 \<le> x \<Longrightarrow> p * x \<le> INT_MAX \<Longrightarrow> int32 (p * x) \<and> 0 \<le> p * x"
  by (simp add: int32_size)

lemma stbi__mad2sizes_valid_spec:
  assumes "int32 a" "int32 b" "int32 add"
  shows "stbi__mad2sizes_valid a b add = Some (sizes_fit [a, b] add)"
proof (cases "0 \<le> a \<and> 0 \<le> b \<and> a * b \<le> INT_MAX")
  case False
  then show ?thesis using assms by (auto simp: stbi__mad2sizes_valid_def stbi__mul2sizes_valid_spec sizes_fit_def)
next
  case True
  with prod_int32 [of a b] assms show ?thesis
    by (auto simp: stbi__mad2sizes_valid_def stbi__mul2sizes_valid_spec stbi__addsizes_valid_spec sizes_fit_def
        int32_def INT_MAX_def)
qed

lemma stbi__mad3sizes_valid_spec:
  assumes "int32 a" "int32 b" "int32 c" "int32 add"
  shows "stbi__mad3sizes_valid a b c add = Some (sizes_fit [a, b, c] add)"
proof (cases "0 \<le> a \<and> 0 \<le> b \<and> a * b \<le> INT_MAX")
  case False
  then show ?thesis using assms by (auto simp: stbi__mad3sizes_valid_def stbi__mul2sizes_valid_spec sizes_fit_def)
next
  case ab: True
  with prod_int32 [of a b] have iab: "int32 (a * b)" "0 \<le> a * b" by simp_all
  show ?thesis
  proof (cases "0 \<le> c \<and> a * b * c \<le> INT_MAX")
    case False
    then show ?thesis using assms ab iab
      by (auto simp: stbi__mad3sizes_valid_def stbi__mul2sizes_valid_spec sizes_fit_def)
  next
    case abc: True
    with prod_int32 [of "a * b" c] iab have "int32 (a * b * c)" "0 \<le> a * b * c" by simp_all
    with abc ab iab assms show ?thesis
      by (auto simp: stbi__mad3sizes_valid_def stbi__mul2sizes_valid_spec stbi__addsizes_valid_spec
          sizes_fit_def int32_def INT_MAX_def)
  qed
qed


lemma stbi__mad4sizes_valid_spec:
  assumes "int32 a" "int32 b" "int32 c" "int32 d" "int32 add"
  shows "stbi__mad4sizes_valid a b c d add = Some (sizes_fit [a, b, c, d] add)"
proof (cases "0 \<le> a \<and> 0 \<le> b \<and> a * b \<le> INT_MAX")
  case False
  then show ?thesis using assms by (auto simp: stbi__mad4sizes_valid_def stbi__mul2sizes_valid_spec sizes_fit_def)
next
  case ab: True
  with prod_int32 [of a b] have iab: "int32 (a * b)" "0 \<le> a * b" by simp_all
  show ?thesis
  proof (cases "0 \<le> c \<and> a * b * c \<le> INT_MAX")
    case False
    then show ?thesis using assms ab iab
      by (auto simp: stbi__mad4sizes_valid_def stbi__mul2sizes_valid_spec sizes_fit_def)
  next
    case abc: True
    with prod_int32 [of "a * b" c] iab have iabc: "int32 (a * b * c)" "0 \<le> a * b * c" by simp_all
    show ?thesis
    proof (cases "0 \<le> d \<and> a * b * c * d \<le> INT_MAX")
      case False
      then show ?thesis using assms ab iab abc iabc
        by (auto simp: stbi__mad4sizes_valid_def stbi__mul2sizes_valid_spec sizes_fit_def)
    next
      case abcd: True
      with prod_int32 [of "a * b * c" d] iabc have "int32 (a * b * c * d)" "0 \<le> a * b * c * d"
        by simp_all
      with abcd abc ab iab iabc assms show ?thesis
        by (auto simp: stbi__mad4sizes_valid_def stbi__mul2sizes_valid_spec stbi__addsizes_valid_spec
            sizes_fit_def int32_def INT_MAX_def)
    qed
  qed
qed

text \<open>
  C27: the size checks of the allocator never overflow a signed \<^verbatim>\<open>int\<close> on any
  32-bit inputs, and each decides exactly the reference condition \<open>sizes_fit\<close>: all
  factors and the addend non-negative, every partial product and the final sum within
  \<^verbatim>\<open>INT_MAX\<close>.
\<close>

theorem stbi__madsizes_valid_spec:
  assumes "int32 a" "int32 b" "int32 c" "int32 d" "int32 add"
  shows "stbi__mad2sizes_valid a b add = Some (sizes_fit [a, b] add) \<and>
         stbi__mad3sizes_valid a b c add = Some (sizes_fit [a, b, c] add) \<and>
         stbi__mad4sizes_valid a b c d add = Some (sizes_fit [a, b, c, d] add)"
  using assms by (simp add: stbi__mad2sizes_valid_spec stbi__mad3sizes_valid_spec stbi__mad4sizes_valid_spec)

theorem stbi__madsizes_valid_spec_witness:
  "stbi__mad2sizes_valid 65536 32768 0 = Some False \<and>
   stbi__mad3sizes_valid 1024 1024 3 16 = Some True \<and>
   stbi__mad4sizes_valid 1024 1024 3 1000 16 = Some False"
  using stbi__madsizes_valid_spec [of 65536 32768 3 1000 0]
    stbi__madsizes_valid_spec [of 1024 1024 3 1000 16]
  by (simp_all add: int32_def sizes_fit_def c_limits)

text \<open>
  C28: \<^verbatim>\<open>stbi__malloc_mad3\<close> returns \<^verbatim>\<open>NULL\<close> and leaves the heap alone exactly
  when the size does not fit, and otherwise allocates one block of exactly
  \<open>a * b * c + add\<close> bytes at a fresh address.
\<close>

theorem stbi__malloc_mad3_spec:
  assumes "int32 a" "int32 b" "int32 c" "int32 add"
  shows "stbi__malloc_mad3 a b c add g =
           Some (if sizes_fit [a, b, c] add
                 then (Suc (next_addr (heap g)),
                       g\<lparr>heap := \<lparr>next_addr = Suc (next_addr (heap g)),
                                   blocks = (blocks (heap g))(Suc (next_addr (heap g)) \<mapsto> replicate (nat (a * b * c + add)) 0)\<rparr>\<rparr>)
                 else (0, g))"
proof (cases "sizes_fit [a, b, c] add")
  case False
  then show ?thesis using assms by (simp add: stbi__malloc_mad3_def stbi__mad3sizes_valid_spec)
next
  case True
  then have f: "0 \<le> a * b" "a * b \<le> INT_MAX" "0 \<le> a * b * c" "a * b * c \<le> INT_MAX" "0 \<le> add"
    "a * b * c + add \<le> INT_MAX"
    by (simp_all add: sizes_fit_def mult.assoc)
  then have "int32 (a * b * c + add)" by (simp add: int32_size)
  with f True assms show ?thesis
    by (simp add: stbi__malloc_mad3_def stbi__mad3sizes_valid_spec stbi__malloc_def malloc_def)
qed


theorem stbi__malloc_mad3_spec_witness:
  "stbi__malloc_mad3 2 2 3 1 \<lparr>g_failure_reason = None, flip_global = 0, flip_local = 0, flip_set = 0,
      heap = \<lparr>next_addr = 0, blocks = Map.empty\<rparr>\<rparr> =
   Some (1, \<lparr>g_failure_reason = None, flip_global = 0, flip_local = 0, flip_set = 0,
      heap = \<lparr>next_addr = 1, blocks = [1 \<mapsto> replicate 13 0]\<rparr>\<rparr>)"
  using stbi__malloc_mad3_spec [of 2 2 3 1 "\<lparr>g_failure_reason = None, flip_global = 0, flip_local = 0,
      flip_set = 0, heap = \<lparr>next_addr = 0, blocks = Map.empty\<rparr>\<rparr>"]
  by (simp add: int32_def sizes_fit_def c_limits)

text \<open>
  C31: \<^verbatim>\<open>stbi__addints_valid\<close> never overflows and holds exactly when the sum of two
  \<^verbatim>\<open>int\<close>s fits in an \<^verbatim>\<open>int\<close>.
\<close>

theorem stbi__addints_valid_spec:
  assumes "int32 a" "int32 b"
  shows "stbi__addints_valid a b = Some (int32 (a + b))"
proof -
  consider (mixed) "(a \<ge> 0) \<noteq> (b \<ge> 0)" | (neg) "a < 0 \<and> b < 0" | (pos) "0 \<le> a \<and> 0 \<le> b" by linarith
  then show ?thesis
  proof cases
    case mixed
    with assms show ?thesis by (auto simp: stbi__addints_valid_def int32_def c_limits)
  next
    case neg
    with assms have "int32 (INT_MIN - b)" by (simp add: int32_def c_limits)
    with neg assms show ?thesis by (auto simp: stbi__addints_valid_def c_sub_def int32_def c_limits)
  next
    case pos
    with assms have "int32 (INT_MAX - b)" by (simp add: int32_def c_limits)
    with pos assms show ?thesis by (auto simp: stbi__addints_valid_def c_sub_def int32_def c_limits)
  qed
qed



theorem stbi__addints_valid_spec_witness:
  "stbi__addints_valid 2147483647 1 = Some False \<and> stbi__addints_valid (-2147483648) (-1) = Some False \<and>
   stbi__addints_valid 2147483647 (-1) = Some True"
  using stbi__addints_valid_spec [of 2147483647 1] stbi__addints_valid_spec [of "-2147483648" "-1"]
    stbi__addints_valid_spec [of 2147483647 "-1"]
  by (simp_all add: int32_def c_limits)

lemma cdiv_neg_divisor: "0 \<le> a \<Longrightarrow> b < 0 \<Longrightarrow> cdiv a b = - (a div (- b))"
  by (cases "a = 0") (simp_all add: cdiv_def)

lemma cdiv_neg_dividend: "0 < a \<Longrightarrow> b \<noteq> 0 \<Longrightarrow> cdiv (- a) b = - cdiv a b"
  by (simp add: cdiv_def)

lemma short_quot_int32: "0 \<le> q \<Longrightarrow> q \<le> 2 ^ 15 \<Longrightarrow> int32 q \<and> int32 (- q)"
  by (simp add: int32_def c_limits)

text \<open>
  C30: whenever the divisor is not \<open>-1\<close> and the operands are not both negative,
  \<^verbatim>\<open>stbi__mul2shorts_valid\<close> holds exactly when the product fits in a
  \<^verbatim>\<open>short\<close>.
\<close>

theorem stbi__mul2shorts_valid_spec:
  assumes "b \<noteq> -1" "\<not> (a < 0 \<and> b < 0)"
  shows "stbi__mul2shorts_valid a b = Some (SHRT_MIN \<le> a * b \<and> a * b \<le> SHRT_MAX)"
proof -
  consider (zero) "b = 0" | (pp) "0 \<le> a" "0 < b" | (pn) "0 \<le> a" "b < -1" | (np) "a < 0" "0 < b"
    using assms by linarith
  then show ?thesis
  proof cases
    case zero
    then show ?thesis by (simp add: stbi__mul2shorts_valid_def c_limits)
  next
    case pp
    have q: "0 \<le> SHRT_MAX div b" "SHRT_MAX div b \<le> 2 ^ 15"
      using pp int_div_le_self [of SHRT_MAX b] by (simp_all add: c_limits pos_imp_zdiv_nonneg_iff)
    have "- 32768 \<le> a * b" using pp by (simp add: order_trans [OF _ mult_nonneg_nonneg])
    with pp q short_quot_int32 [OF q] show ?thesis
      by (simp add: stbi__mul2shorts_valid_def c_div_def le_zdiv_iff c_limits)
  next
    case pn
    have c: "cdiv SHRT_MIN b = 2 ^ 15 div (- b)"
      using pn cdiv_neg_divisor [of "2 ^ 15" b] cdiv_neg_dividend [of "2 ^ 15" b] by (simp add: c_limits)
    have q: "0 \<le> 2 ^ 15 div (- b)" "(2::int) ^ 15 div (- b) \<le> 2 ^ 15"
      using pn int_div_le_self [of "2 ^ 15" "- b"] by (simp_all add: pos_imp_zdiv_nonneg_iff)
    have "a \<le> 2 ^ 15 div (- b) \<longleftrightarrow> - (2 ^ 15) \<le> a * b"
      using pn le_zdiv_iff [of "- b" a "2 ^ 15"] by simp linarith
    moreover have "a * b \<le> 0" using pn by (simp add: mult_nonneg_nonpos)
    ultimately show ?thesis using pn c q short_quot_int32 [OF q]
      by (simp add: stbi__mul2shorts_valid_def c_div_def c_limits)
  next
    case np
    have c: "cdiv SHRT_MIN b = - (2 ^ 15 div b)"
      using np cdiv_neg_dividend [of "2 ^ 15" b] by (simp add: c_limits)
    have q: "0 \<le> 2 ^ 15 div b" "(2::int) ^ 15 div b \<le> 2 ^ 15"
      using np int_div_le_self [of "2 ^ 15" b] by (simp_all add: pos_imp_zdiv_nonneg_iff)
    have "- a \<le> 2 ^ 15 div b \<longleftrightarrow> - (2 ^ 15) \<le> a * b"
      using np le_zdiv_iff [of b "- a" "2 ^ 15"] by simp linarith
    moreover have "a * b \<le> 0" using np by (simp add: mult_nonpos_nonneg)
    ultimately show ?thesis using np c q short_quot_int32 [OF q]
      by (auto simp: stbi__mul2shorts_valid_def c_div_def c_limits)
  qed
qed

theorem stbi__mul2shorts_valid_spec_witness:
  "stbi__mul2shorts_valid 200 (-200) = Some False \<and> stbi__mul2shorts_valid (-128) 256 = Some True"
  using stbi__mul2shorts_valid_spec [of "-200" 200] stbi__mul2shorts_valid_spec [of 256 "-128"]
    stbi__mul2shorts_valid_spec [of "-200" 200]
  by (simp_all add: c_limits)

text \<open>
  C29: for two negative operands the check compares the wrong way round: it holds when
  \<open>|a| \<ge> SHRT_MAX div |b|\<close>, accepting \<open>(-200) * (-200) = 40000\<close>, which overflows a
  \<^verbatim>\<open>short\<close>, and rejecting \<open>(-2) * (-2) = 4\<close>.
\<close>

theorem stbi__mul2shorts_valid_both_negative:
  assumes "a < 0" "b < -1"
  shows "stbi__mul2shorts_valid a b = Some (SHRT_MAX div (- b) \<le> - a)"
proof -
  have c: "cdiv SHRT_MAX b = - (SHRT_MAX div (- b))"
    using assms cdiv_neg_divisor [of SHRT_MAX b] by (simp add: c_limits)
  have q: "0 \<le> SHRT_MAX div (- b)" "SHRT_MAX div (- b) \<le> 2 ^ 15"
    using assms int_div_le_self [of SHRT_MAX "- b"] by (simp_all add: c_limits pos_imp_zdiv_nonneg_iff)
  show ?thesis using assms c q short_quot_int32 [OF q]
    by (auto simp: stbi__mul2shorts_valid_def c_div_def)
qed

theorem stbi__mul2shorts_valid_both_negative_witness:
  "stbi__mul2shorts_valid (-200) (-200) = Some True \<and> (-200) * (-200) > SHRT_MAX \<and>
   stbi__mul2shorts_valid (-2) (-2) = Some False"
  using stbi__mul2shorts_valid_both_negative [of "-200" "-200"]
    stbi__mul2shorts_valid_both_negative [of "-2" "-2"]
  by (simp add: c_limits)


text \<open>
  C34: after any sequence of calls to the two setters, the flag a load reads is the
  last thread-local value once the thread-local setter has been called (in this sequence
  or before it), and the last global value otherwise: a call of the thread-local setter
  shadows every later global one.
\<close>

theorem flip_effective:
  "stbi__vertically_flip_on_load (fold apply_flip_call cs g) =
     (if flip_set g \<noteq> 0 \<or> thread_values cs \<noteq> []
      then last (flip_local g # thread_values cs) else last (flip_global g # global_values cs))"
proof (induction cs arbitrary: g)
  case Nil
  then show ?case by (simp add: stbi__vertically_flip_on_load_def thread_values_def global_values_def)
next
  case (Cons c cs)
  show ?case
  proof (cases c)
    case (SetFlip v)
    with Cons.IH [of "stbi_set_flip_vertically_on_load v g"] show ?thesis
      by (simp add: stbi_set_flip_vertically_on_load_def thread_values_def global_values_def)
  next
    case (SetFlipThread v)
    with Cons.IH [of "stbi_set_flip_vertically_on_load_thread v g"] show ?thesis
      by (simp add: stbi_set_flip_vertically_on_load_thread_def thread_values_def global_values_def)
  qed
qed

theorem flip_effective_witness:
  "stbi__vertically_flip_on_load
     (fold apply_flip_call [SetFlip 1, SetFlipThread 0, SetFlip 1]
        \<lparr>g_failure_reason = None, flip_global = 0, flip_local = 0, flip_set = 0,
         heap = \<lparr>next_addr = 0, blocks = Map.empty\<rparr>\<rparr>) = 0"
  using flip_effective [of "[SetFlip 1, SetFlipThread 0, SetFlip 1]"
      "\<lparr>g_failure_reason = None, flip_global = 0, flip_local = 0, flip_set = 0,
        heap = \<lparr>next_addr = 0, blocks = Map.empty\<rparr>\<rparr>"]
  by (simp add: thread_values_def global_values_def)

text \<open>Rewinding a memory context after any reads restores the context as started.\<close>

lemma rewind_start_mem:
  "stbi__rewind ((stbi__start_mem buffer len s)\<lparr>img_buffer := p, img_buffer_end := q\<rparr>) =
     stbi__start_mem buffer len s"
  by (simp add: stbi__rewind_def stbi__start_mem_def)

section \<open>The rotate macro\<close>

lemma and_31_eq_mod: "(k::int) AND 31 = k mod 32"
proof -
  have "k AND mask 5 = k mod 2 ^ 5" by (simp only: take_bit_eq_mask [symmetric] take_bit_eq_mod)
  moreover have "(mask 5 :: int) = 31" by (simp add: mask_eq_exp_minus_1)
  ultimately show ?thesis by simp
qed

text \<open>For a rotation by \<open>0 \<le> y < 32\<close>, the right shift of the macro is by \<open>(32 - y) mod 32\<close>.\<close>

lemma lrot_shift_amounts:
  assumes "0 \<le> y" "y < 32"
  shows "nat ((- y) AND 31) = (32 - nat y) mod 32"
  using assms by (cases "y = 0") (simp_all add: and_31_eq_mod zmod_zminus1_eq_if nat_diff_distrib)

text \<open>
  C32: where it is defined (\<open>0 \<le> y < 32\<close>), the portable \<^verbatim>\<open>stbi_lrot(x,y)\<close> is
  the 32-bit left rotation of \<open>x\<close> by \<open>y\<close> (also at \<open>y = 0\<close>, where the right shift
  is by \<open>0\<close> and the two halves coincide), the operation \<^verbatim>\<open>_lrotl\<close> performs on MSVC.
\<close>

theorem stbi_lrot_rotl:
  assumes "0 \<le> y" "y < 32"
  shows "stbi_lrot x y = Some (word_rotl (nat y) x)"
proof -
  define n where "n = nat y"
  have n: "n < 32" "nat ((- y) AND 31) = (32 - n) mod 32"
    using assms lrot_shift_amounts [OF assms] by (simp_all add: n_def)
  have "push_bit n x OR drop_bit ((32 - n) mod 32) x = word_rotl n x"
  proof (cases "n = 0")
    case True
    show ?thesis by (rule bit_word_eqI) (simp add: True bit_word_rotl_iff)
  next
    case False
    show ?thesis
    proof (rule bit_word_eqI)
      fix i assume i: "i < LENGTH(32)"
      have m: "(32 - n) mod 32 = 32 - n" using False by simp
      have lhs: "bit (push_bit n x OR drop_bit ((32 - n) mod 32) x) i \<longleftrightarrow>
                   (n \<le> i \<and> bit x (i - n)) \<or> bit x (32 - n + i)"
        unfolding m using i by (simp add: bit_or_iff bit_push_bit_iff bit_drop_bit_eq)
      show "bit (push_bit n x OR drop_bit ((32 - n) mod 32) x) i = bit (word_rotl n x) i"
      proof (cases "n \<le> i")
        case True
        have "(i + (32 - n)) mod 32 = i - n" using True i n(1) by (simp add: mod_if)
        moreover have "\<not> bit x (32 - n + i)" using True n(1) by (auto dest: bit_imp_le_length)
        ultimately show ?thesis using True i n(1) unfolding lhs by (simp add: bit_word_rotl_iff)
      next
        case False
        have "(i + (32 - n)) mod 32 = 32 - n + i" using False n(1) by simp
        then show ?thesis using False i n(1) unfolding lhs by (simp add: bit_word_rotl_iff)
      qed
    qed
  qed
  then show ?thesis using assms n by (simp add: stbi_lrot_def n_def)
qed

theorem stbi_lrot_rotl_witness:
  "stbi_lrot 0x80000001 1 = Some (word_rotl 1 0x80000001) \<and> stbi_lrot 0x80000001 1 = Some 3"
  using stbi_lrot_rotl [of 1 "0x80000001"] by (simp add: stbi_lrot_def)

section \<open>The stdio callbacks\<close>

lemma fgetc_EOF: "fst (fgetc f) = EOF \<longleftrightarrow> length (f_data f) \<le> f_pos f"
  by (simp add: fgetc_def EOF_def)

text \<open>
  C33: skipping \<open>n\<close> bytes of a file moves to the position \<open>n\<close> further on (when that is
  not before the start) without changing the data, and the peek-and-push-back of
  \<^verbatim>\<open>stbi__stdio_skip\<close> makes \<^verbatim>\<open>stbi__stdio_eof\<close> report the end of the file
  exactly when the new position is at or past the end (or the stream has an error).
\<close>

theorem stbi__stdio_skip_eof:
  assumes "0 \<le> int (f_pos f) + n"
  shows "f_data (stbi__stdio_skip f n) = f_data f \<and> f_pos (stbi__stdio_skip f n) = nat (int (f_pos f) + n) \<and>
         (stbi__stdio_eof (stbi__stdio_skip f n) = 1 \<longleftrightarrow> length (f_data f) \<le> nat (int (f_pos f) + n) \<or> f_error f)"
proof -
  define f1 where "f1 = f\<lparr>f_pos := nat (int (f_pos f) + n), f_eof := False\<rparr>"
  have s1: "fseek_cur n f = (0, f1)" using assms by (simp add: fseek_cur_def f1_def)
  show ?thesis
  proof (cases "f_pos f1 < length (f_data f1)")
    case True
    have "fgetc f1 = (int (f_data f1 ! f_pos f1), f1\<lparr>f_pos := Suc (f_pos f1)\<rparr>)"
      using True by (simp add: fgetc_def)
    moreover have "int (f_data f1 ! f_pos f1) \<noteq> EOF" by (simp add: EOF_def)
    ultimately have "stbi__stdio_skip f n = f1"
      using s1 by (simp add: stbi__stdio_skip_def ungetc_def f1_def)
    then show ?thesis using True by (simp add: f1_def stbi__stdio_eof_def)
  next
    case False
    then have "stbi__stdio_skip f n = f1\<lparr>f_eof := True\<rparr>"
      using s1 by (simp add: stbi__stdio_skip_def fgetc_def)
    then show ?thesis using False by (simp add: f1_def stbi__stdio_eof_def)
  qed
qed

theorem stbi__stdio_skip_eof_witness:
  "stbi__stdio_eof (stbi__stdio_skip \<lparr>f_data = [1, 2, 3], f_pos = 1, f_eof = False, f_error = False\<rparr> 2) = 1 \<and>
   stbi__stdio_eof (stbi__stdio_skip \<lparr>f_data = [1, 2, 3], f_pos = 1, f_eof = False, f_error = False\<rparr> 1) \<noteq> 1"
  using stbi__stdio_skip_eof [of "\<lparr>f_data = [1, 2, 3], f_pos = 1, f_eof = False, f_error = False\<rparr>" 2]
    stbi__stdio_skip_eof [of "\<lparr>f_data = [1, 2, 3], f_pos = 1, f_eof = False, f_error = False\<rparr>" 1]
  by simp

text \<open>\<^verbatim>\<open>stbi__stdio_read\<close> of a non-negative size returns what is left, up to the size.\<close>

lemma stbi__stdio_read_spec:
  assumes "0 \<le> sz" "sz \<le> INT_MAX"
  shows "stbi__stdio_read f sz =
     (let k = min (nat sz) (length (f_data f) - f_pos f)
      in (int k, take k (drop (f_pos f) (f_data f)), f\<lparr>f_pos := f_pos f + k, f_eof := (f_eof f \<or> k < nat sz)\<rparr>))"
proof -
  have "sz mod 2 ^ 64 = sz" using assms by (simp add: INT_MAX_def)
  then show ?thesis by (simp add: stbi__stdio_read_def fread_def Let_def)
qed

end
