(* ===== verification/GL_Resources.thy ===== *)
theory GL_Resources
  imports Render Mesh Stb_Image
begin

text \<open>
  The graphics resources of the program: the driver's object store, the texture loader of
  \<^verbatim>\<open>src/src/render/texture.cpp\<close>, the \<^verbatim>\<open>Shader\<close> class of
  \<^verbatim>\<open>src/src/render/shader.cpp\<close>, the GL half of \<^verbatim>\<open>buildMesh\<close>, the texture loading of
  \<^verbatim>\<open>CityScene::init\<close>, the destructor \<^verbatim>\<open>CityScene::~CityScene\<close>, and the tear-down at
  the end of \<^verbatim>\<open>main\<close>.

  OpenGL is not code of the repository; it enters through the parts of its specification
  the program relies on: object names come from a counter (so a generated name is unused
  and non-zero), a deleted name that is not an object is ignored, a shader deleted while
  attached is only flagged until its program goes, a program deleted while current is only
  flagged, a program links when a compiled vertex and a compiled fragment shader are
  attached, and destroying the window's context frees every object of it. A GL call made
  with no current context is undefined; the model records it as the error
  \<open>GL_NO_CONTEXT\<close> and leaves the objects alone. The compiler's verdict on a GLSL source
  is the driver's (\<open>glsl_ok\<close>). Vertex and index buffer contents, vertex attribute
  layouts and uniform declarations are not modelled: a location is the uniform's name.
\<close>

section \<open>The driver's object store\<close>

datatype shader_type = GL_VERTEX_SHADER | GL_FRAGMENT_SHADER

datatype tex_param = GL_TEXTURE_MIN_FILTER | GL_TEXTURE_MAG_FILTER | GL_TEXTURE_WRAP_S | GL_TEXTURE_WRAP_T

datatype tex_value = GL_LINEAR_MIPMAP_LINEAR | GL_LINEAR | GL_REPEAT

datatype gl_error = GL_NO_CONTEXT | GL_INVALID_OPERATION

datatype uniform_value = UMat4 "real list" | UVec3 vec3 | UFloat real | UInt int

record gl_texture =
  tex_image :: "(nat \<times> nat \<times> nat list) option"
  tex_mipmaps :: bool
  tex_params :: "tex_param \<rightharpoonup> tex_value"

record shader_obj =
  sh_type :: shader_type
  sh_source :: string
  sh_compiled :: bool
  sh_delete_pending :: bool

record program_obj =
  attached :: "nat list"
  linked :: bool
  uniforms :: "string \<rightharpoonup> uniform_value"
  prog_delete_pending :: bool

record gl_objects =
  has_context :: bool
  next_name :: nat
  textures :: "nat \<rightharpoonup> gl_texture"
  bound_tex :: nat
  vertex_arrays :: "nat set"
  buffers :: "nat set"
  shaders :: "nat \<rightharpoonup> shader_obj"
  programs :: "nat \<rightharpoonup> program_obj"
  current_program :: nat
  glsl_ok :: "shader_type \<Rightarrow> string \<Rightarrow> bool"
  gl_errors :: "gl_error list"
  cerr :: "string list"
  stb :: stbi_globals
  files :: "string \<rightharpoonup> image"

definition gl_call :: "(gl_objects \<Rightarrow> gl_objects) \<Rightarrow> gl_objects \<Rightarrow> gl_objects" where
  "gl_call f g = (if has_context g then f g else g\<lparr>gl_errors := gl_errors g @ [GL_NO_CONTEXT]\<rparr>)"

text \<open>\<^verbatim>\<open>glGen*\<close> and \<^verbatim>\<open>glCreate*\<close>: the next unused name; 0 without a context.\<close>

definition gl_gen :: "gl_objects \<Rightarrow> nat \<times> gl_objects" where
  "gl_gen g =
     (if has_context g then (Suc (next_name g), g\<lparr>next_name := Suc (next_name g)\<rparr>)
      else (0, g\<lparr>gl_errors := gl_errors g @ [GL_NO_CONTEXT]\<rparr>))"

definition empty_texture :: gl_texture where
  "empty_texture = \<lparr>tex_image = None, tex_mipmaps = False, tex_params = Map.empty\<rparr>"

definition glGenTextures :: "gl_objects \<Rightarrow> nat \<times> gl_objects" where
  "glGenTextures g =
     (let (t, g1) = gl_gen g in (t, if t = 0 then g1 else g1\<lparr>textures := (textures g1)(t \<mapsto> empty_texture)\<rparr>))"

definition glBindTexture :: "nat \<Rightarrow> gl_objects \<Rightarrow> gl_objects" where
  "glBindTexture t = gl_call (\<lambda>g. g\<lparr>bound_tex := t\<rparr>)"

definition update_bound_texture :: "(gl_texture \<Rightarrow> gl_texture) \<Rightarrow> gl_objects \<Rightarrow> gl_objects" where
  "update_bound_texture f =
     gl_call (\<lambda>g. case textures g (bound_tex g) of
                    None \<Rightarrow> g\<lparr>gl_errors := gl_errors g @ [GL_INVALID_OPERATION]\<rparr>
                  | Some t \<Rightarrow> g\<lparr>textures := (textures g)(bound_tex g \<mapsto> f t)\<rparr>)"

definition glTexImage2D :: "nat \<Rightarrow> nat \<Rightarrow> nat list \<Rightarrow> gl_objects \<Rightarrow> gl_objects" where
  "glTexImage2D w h data = update_bound_texture (\<lambda>t. t\<lparr>tex_image := Some (w, h, data)\<rparr>)"

definition glGenerateMipmap :: "gl_objects \<Rightarrow> gl_objects" where
  "glGenerateMipmap = update_bound_texture (\<lambda>t. t\<lparr>tex_mipmaps := True\<rparr>)"

definition glTexParameteri :: "tex_param \<Rightarrow> tex_value \<Rightarrow> gl_objects \<Rightarrow> gl_objects" where
  "glTexParameteri p v = update_bound_texture (\<lambda>t. t\<lparr>tex_params := (tex_params t)(p \<mapsto> v)\<rparr>)"

definition glDeleteTextures :: "nat \<Rightarrow> gl_objects \<Rightarrow> gl_objects" where
  "glDeleteTextures t =
     gl_call (\<lambda>g. if t \<in> dom (textures g)
                  then g\<lparr>textures := (textures g)(t := None),
                         bound_tex := (if bound_tex g = t then 0 else bound_tex g)\<rparr>
                  else g)"

definition glGenVertexArrays :: "gl_objects \<Rightarrow> nat \<times> gl_objects" where
  "glGenVertexArrays g =
     (let (v, g1) = gl_gen g in (v, if v = 0 then g1 else g1\<lparr>vertex_arrays := insert v (vertex_arrays g1)\<rparr>))"

definition glGenBuffers :: "gl_objects \<Rightarrow> nat \<times> gl_objects" where
  "glGenBuffers g =
     (let (b, g1) = gl_gen g in (b, if b = 0 then g1 else g1\<lparr>buffers := insert b (buffers g1)\<rparr>))"

definition glDeleteVertexArrays :: "nat \<Rightarrow> gl_objects \<Rightarrow> gl_objects" where
  "glDeleteVertexArrays v = gl_call (\<lambda>g. g\<lparr>vertex_arrays := vertex_arrays g - {v}\<rparr>)"

definition glDeleteBuffers :: "nat \<Rightarrow> gl_objects \<Rightarrow> gl_objects" where
  "glDeleteBuffers b = gl_call (\<lambda>g. g\<lparr>buffers := buffers g - {b}\<rparr>)"

definition glCreateShader :: "shader_type \<Rightarrow> gl_objects \<Rightarrow> nat \<times> gl_objects" where
  "glCreateShader ty g =
     (let (s, g1) = gl_gen g
      in (s, if s = 0 then g1
             else g1\<lparr>shaders := (shaders g1)(s \<mapsto> \<lparr>sh_type = ty, sh_source = [], sh_compiled = False,
                                                   sh_delete_pending = False\<rparr>)\<rparr>))"

definition update_shader :: "nat \<Rightarrow> (shader_obj \<Rightarrow> shader_obj) \<Rightarrow> gl_objects \<Rightarrow> gl_objects" where
  "update_shader s f =
     gl_call (\<lambda>g. case shaders g s of
                    None \<Rightarrow> g\<lparr>gl_errors := gl_errors g @ [GL_INVALID_OPERATION]\<rparr>
                  | Some ob \<Rightarrow> g\<lparr>shaders := (shaders g)(s \<mapsto> f ob)\<rparr>)"

definition glShaderSource :: "nat \<Rightarrow> string \<Rightarrow> gl_objects \<Rightarrow> gl_objects" where
  "glShaderSource s src = update_shader s (\<lambda>ob. ob\<lparr>sh_source := src\<rparr>)"

definition glCompileShader :: "nat \<Rightarrow> gl_objects \<Rightarrow> gl_objects" where
  "glCompileShader s g = update_shader s (\<lambda>ob. ob\<lparr>sh_compiled := glsl_ok g (sh_type ob) (sh_source ob)\<rparr>) g"

text \<open>\<^verbatim>\<open>glGetShaderiv(s, GL_COMPILE_STATUS, &ok)\<close>.\<close>

definition compile_status :: "nat \<Rightarrow> gl_objects \<Rightarrow> bool" where
  "compile_status s g = (has_context g \<and> (case shaders g s of Some ob \<Rightarrow> sh_compiled ob | None \<Rightarrow> False))"

definition is_attached :: "gl_objects \<Rightarrow> nat \<Rightarrow> bool" where
  "is_attached g s = (\<exists>p \<in> ran (programs g). s \<in> set (attached p))"

definition glDeleteShader :: "nat \<Rightarrow> gl_objects \<Rightarrow> gl_objects" where
  "glDeleteShader s =
     gl_call (\<lambda>g. case shaders g s of
                    None \<Rightarrow> g
                  | Some ob \<Rightarrow> if is_attached g s
                              then g\<lparr>shaders := (shaders g)(s \<mapsto> ob\<lparr>sh_delete_pending := True\<rparr>)\<rparr>
                              else g\<lparr>shaders := (shaders g)(s := None)\<rparr>)"

definition glCreateProgram :: "gl_objects \<Rightarrow> nat \<times> gl_objects" where
  "glCreateProgram g =
     (let (p, g1) = gl_gen g
      in (p, if p = 0 then g1
             else g1\<lparr>programs := (programs g1)(p \<mapsto> \<lparr>attached = [], linked = False, uniforms = Map.empty,
                                                     prog_delete_pending = False\<rparr>)\<rparr>))"

definition update_program :: "nat \<Rightarrow> (program_obj \<Rightarrow> program_obj) \<Rightarrow> gl_objects \<Rightarrow> gl_objects" where
  "update_program p f =
     gl_call (\<lambda>g. case programs g p of
                    None \<Rightarrow> g\<lparr>gl_errors := gl_errors g @ [GL_INVALID_OPERATION]\<rparr>
                  | Some ob \<Rightarrow> g\<lparr>programs := (programs g)(p \<mapsto> f ob)\<rparr>)"

definition glAttachShader :: "nat \<Rightarrow> nat \<Rightarrow> gl_objects \<Rightarrow> gl_objects" where
  "glAttachShader p s g =
     (if s \<in> dom (shaders g) then update_program p (\<lambda>ob. ob\<lparr>attached := attached ob @ [s]\<rparr>) g
      else gl_call (\<lambda>g. g\<lparr>gl_errors := gl_errors g @ [GL_INVALID_OPERATION]\<rparr>) g)"

text \<open>A program links when every attached shader compiled and both stages are present.\<close>

definition link_ok :: "gl_objects \<Rightarrow> nat list \<Rightarrow> bool" where
  "link_ok g ss =
     (list_all (\<lambda>s. case shaders g s of Some ob \<Rightarrow> sh_compiled ob | None \<Rightarrow> False) ss \<and>
      (\<exists>s \<in> set ss. map_option sh_type (shaders g s) = Some GL_VERTEX_SHADER) \<and>
      (\<exists>s \<in> set ss. map_option sh_type (shaders g s) = Some GL_FRAGMENT_SHADER))"

definition glLinkProgram :: "nat \<Rightarrow> gl_objects \<Rightarrow> gl_objects" where
  "glLinkProgram p g = update_program p (\<lambda>ob. ob\<lparr>linked := link_ok g (attached ob)\<rparr>) g"

definition link_status :: "nat \<Rightarrow> gl_objects \<Rightarrow> bool" where
  "link_status p g = (has_context g \<and> (case programs g p of Some ob \<Rightarrow> linked ob | None \<Rightarrow> False))"

text \<open>
  \<^verbatim>\<open>glDeleteProgram\<close>: a current program is only flagged; otherwise it goes, and with
  it every attached shader already flagged for deletion.
\<close>

definition glDeleteProgram :: "nat \<Rightarrow> gl_objects \<Rightarrow> gl_objects" where
  "glDeleteProgram p =
     gl_call (\<lambda>g. case programs g p of
                    None \<Rightarrow> g
                  | Some ob \<Rightarrow>
                      if current_program g = p
                      then g\<lparr>programs := (programs g)(p \<mapsto> ob\<lparr>prog_delete_pending := True\<rparr>)\<rparr>
                      else g\<lparr>programs := (programs g)(p := None),
                             shaders := (\<lambda>s. if s \<in> set (attached ob) \<and>
                                                 map_option sh_delete_pending (shaders g s) = Some True
                                              then None else shaders g s)\<rparr>)"

definition glUseProgram :: "nat \<Rightarrow> gl_objects \<Rightarrow> gl_objects" where
  "glUseProgram p =
     gl_call (\<lambda>g. if map_option linked (programs g p) = Some True
                  then g\<lparr>current_program := p\<rparr>
                  else g\<lparr>gl_errors := gl_errors g @ [GL_INVALID_OPERATION]\<rparr>)"

definition glGetUniformLocation :: "nat \<Rightarrow> string \<Rightarrow> gl_objects \<Rightarrow> string option" where
  "glGetUniformLocation p name g =
     (if has_context g \<and> map_option linked (programs g p) = Some True then Some name else None)"

text \<open>\<^verbatim>\<open>glUniform*\<close>: sets the uniform of the current program; location -1 is ignored.\<close>

definition glUniform :: "string option \<Rightarrow> uniform_value \<Rightarrow> gl_objects \<Rightarrow> gl_objects" where
  "glUniform loc v =
     gl_call (\<lambda>g. if current_program g = 0 then g\<lparr>gl_errors := gl_errors g @ [GL_INVALID_OPERATION]\<rparr>
                  else case loc of
                         None \<Rightarrow> g
                       | Some name \<Rightarrow>
                           (case programs g (current_program g) of
                              None \<Rightarrow> g
                            | Some ob \<Rightarrow> g\<lparr>programs := (programs g)(current_program g \<mapsto>
                                                          ob\<lparr>uniforms := (uniforms ob)(name \<mapsto> v)\<rparr>)\<rparr>))"

text \<open>
  Destroying the window destroys its context and every object in it; later GL calls have
  no context.
\<close>

definition glfwDestroyWindow :: "gl_objects \<Rightarrow> gl_objects" where
  "glfwDestroyWindow g =
     g\<lparr>has_context := False, textures := Map.empty, bound_tex := 0, vertex_arrays := {}, buffers := {},
       shaders := Map.empty, programs := Map.empty, current_program := 0\<rparr>"

definition glfwTerminate :: "gl_objects \<Rightarrow> gl_objects" where
  "glfwTerminate g = g\<lparr>has_context := False\<rparr>"


section \<open>Textures: \<^verbatim>\<open>loadTexture\<close>\<close>

definition std_tex_params :: "tex_param \<rightharpoonup> tex_value" where
  "std_tex_params = [GL_TEXTURE_MIN_FILTER \<mapsto> GL_LINEAR_MIPMAP_LINEAR, GL_TEXTURE_MAG_FILTER \<mapsto> GL_LINEAR,
                     GL_TEXTURE_WRAP_S \<mapsto> GL_REPEAT, GL_TEXTURE_WRAP_T \<mapsto> GL_REPEAT]"

text \<open>Lines 13--21 of \<^verbatim>\<open>loadTexture\<close>: a new texture object holding the pixels.\<close>

definition upload_texture :: "nat \<Rightarrow> nat \<Rightarrow> nat list \<Rightarrow> gl_objects \<Rightarrow> nat \<times> gl_objects" where
  "upload_texture w h data g =
     (let (tex, g3) = glGenTextures g;
          g4 = glBindTexture tex g3;
          g5 = glTexImage2D w h data g4;
          g6 = glGenerateMipmap g5;
          g7 = glTexParameteri GL_TEXTURE_MIN_FILTER GL_LINEAR_MIPMAP_LINEAR g6;
          g8 = glTexParameteri GL_TEXTURE_MAG_FILTER GL_LINEAR g7;
          g9 = glTexParameteri GL_TEXTURE_WRAP_S GL_REPEAT g8
      in (tex, glTexParameteri GL_TEXTURE_WRAP_T GL_REPEAT g9))"

definition loadTexture :: "string \<Rightarrow> gl_objects \<Rightarrow> nat \<times> gl_objects" where
  "loadTexture path g0 =
     (let g1 = g0\<lparr>stb := stbi_set_flip_vertically_on_load 1 (stb g0)\<rparr>;
          (r, st) = stbi_load (files g1) path (stb g1);
          (data, w, h, comp) = r;
          g2 = g1\<lparr>stb := st\<rparr>
      in if data = 0 then (0, g2\<lparr>cerr := cerr g2 @ [''Failed to load texture: '' @ path]\<rparr>)
         else
           (let (tex, g10) = upload_texture w h (the (blocks (heap (stb g2)) data)) g2
            in (tex, g10\<lparr>stb := stbi_image_free data (stb g10)\<rparr>)))"

section \<open>Shaders: the class \<^verbatim>\<open>Shader\<close>\<close>

record shader =
  shader_id :: nat

text \<open>The default constructor \<^verbatim>\<open>Shader() {}\<close> leaves \<^verbatim>\<open>id = 0\<close>.\<close>

definition Shader_default :: shader where
  "Shader_default = \<lparr>shader_id = 0\<rparr>"

definition compile :: "shader_type \<Rightarrow> string \<Rightarrow> gl_objects \<Rightarrow> nat \<times> gl_objects" where
  "compile ty src g =
     (let (s, g1) = glCreateShader ty g;
          g2 = glShaderSource s src g1;
          g3 = glCompileShader s g2
      in (s, if \<not> compile_status s g3 then g3\<lparr>cerr := cerr g3 @ [''Shader compile error: '']\<rparr> else g3))"

definition Shader :: "string \<Rightarrow> string \<Rightarrow> gl_objects \<Rightarrow> shader \<times> gl_objects" where
  "Shader vsrc fsrc g =
     (let (vs, g1) = compile GL_VERTEX_SHADER vsrc g;
          (fs, g2) = compile GL_FRAGMENT_SHADER fsrc g1;
          (pid, g3) = glCreateProgram g2;
          g4 = glAttachShader pid vs g3;
          g5 = glAttachShader pid fs g4;
          g6 = glLinkProgram pid g5;
          g7 = (if \<not> link_status pid g6 then g6\<lparr>cerr := cerr g6 @ [''Shader link error: '']\<rparr> else g6);
          g8 = glDeleteShader vs g7;
          g9 = glDeleteShader fs g8
      in (\<lparr>shader_id = pid\<rparr>, g9))"

definition Shader_destroy :: "shader \<Rightarrow> gl_objects \<Rightarrow> gl_objects" where
  "Shader_destroy sh g = (if shader_id sh \<noteq> 0 then glDeleteProgram (shader_id sh) g else g)"

definition use :: "shader \<Rightarrow> gl_objects \<Rightarrow> gl_objects" where
  "use sh = glUseProgram (shader_id sh)"

definition setMat4 :: "shader \<Rightarrow> string \<Rightarrow> real list \<Rightarrow> gl_objects \<Rightarrow> gl_objects" where
  "setMat4 sh name m g = glUniform (glGetUniformLocation (shader_id sh) name g) (UMat4 m) g"

definition setVec3 :: "shader \<Rightarrow> string \<Rightarrow> vec3 \<Rightarrow> gl_objects \<Rightarrow> gl_objects" where
  "setVec3 sh name v g = glUniform (glGetUniformLocation (shader_id sh) name g) (UVec3 v) g"

definition setFloat :: "shader \<Rightarrow> string \<Rightarrow> real \<Rightarrow> gl_objects \<Rightarrow> gl_objects" where
  "setFloat sh name v g = glUniform (glGetUniformLocation (shader_id sh) name g) (UFloat v) g"

definition setInt :: "shader \<Rightarrow> string \<Rightarrow> int \<Rightarrow> gl_objects \<Rightarrow> gl_objects" where
  "setInt sh name v g = glUniform (glGetUniformLocation (shader_id sh) name g) (UInt v) g"

section \<open>Scene resources: meshes, textures, destructor\<close>

text \<open>The handles of \<^verbatim>\<open>struct Mesh\<close>.\<close>

record gl_mesh =
  vao :: nat
  vbo :: nat
  ebo :: nat
  elem_count :: nat

text \<open>The GL half of \<^verbatim>\<open>buildMesh\<close>: three names, the element count.\<close>

definition buildMesh_gl :: "nat \<Rightarrow> gl_objects \<Rightarrow> gl_mesh \<times> gl_objects" where
  "buildMesh_gl n g =
     (let (va, g1) = glGenVertexArrays g;
          (vb, g2) = glGenBuffers g1;
          (eb, g3) = glGenBuffers g2
      in (\<lparr>vao = va, vbo = vb, ebo = eb, elem_count = n\<rparr>, g3))"

record scene_gl =
  cubeMesh :: gl_mesh
  quadMesh :: gl_mesh
  pondMesh :: gl_mesh
  scene_tex :: textures

text \<open>The texture loads of \<^verbatim>\<open>CityScene::init\<close>, with the skyscraper fallback.\<close>

definition load_scene_textures :: "gl_objects \<Rightarrow> textures \<times> gl_objects" where
  "load_scene_textures g =
     (let (b, g1) = loadTexture ''assets/building.jpg'' g;
          (t, g2) = loadTexture ''assets/tower.png'' g1;
          (s, g3) = loadTexture ''assets/skyscraper.jpg'' g2;
          s' = (if s = 0 then b else s);
          (r, g4) = loadTexture ''assets/road.jpg'' g3;
          (p, g5) = loadTexture ''assets/pond.jpg'' g4
      in (\<lparr>buildingTex = b, towerTex = t, skyscraperTex = s', roadTex = r, pondTex = p\<rparr>, g5))"

text \<open>
  The GL part of \<^verbatim>\<open>init\<close> in its order: cube and quad meshes, (layout), the pond fan of
  64 segments, the textures.
\<close>

definition init_gl :: "gl_objects \<Rightarrow> scene_gl \<times> gl_objects" where
  "init_gl g =
     (let (cube, g1) = buildMesh_gl (length (indices makeCube)) g;
          (quad, g2) = buildMesh_gl (length (indices makeQuadXZ)) g1;
          (pond, g3) = buildMesh_gl (3 * 64) g2;
          (tx, g4) = load_scene_textures g3
      in (\<lparr>cubeMesh = cube, quadMesh = quad, pondMesh = pond, scene_tex = tx\<rparr>, g4))"

definition delete_mesh :: "gl_mesh \<Rightarrow> gl_objects \<Rightarrow> gl_objects" where
  "delete_mesh m g =
     (if vao m \<noteq> 0 then glDeleteBuffers (ebo m) (glDeleteBuffers (vbo m) (glDeleteVertexArrays (vao m) g))
      else g)"

definition delete_tex :: "nat \<Rightarrow> gl_objects \<Rightarrow> gl_objects" where
  "delete_tex t g = (if t \<noteq> 0 then glDeleteTextures t g else g)"

definition CityScene_destroy :: "scene_gl \<Rightarrow> gl_objects \<Rightarrow> gl_objects" where
  "CityScene_destroy sg g =
     (let tx = scene_tex sg
      in delete_tex (pondTex tx) (delete_tex (roadTex tx) (delete_tex (skyscraperTex tx)
           (delete_tex (towerTex tx) (delete_tex (buildingTex tx)
             (delete_mesh (pondMesh sg) (delete_mesh (quadMesh sg) (delete_mesh (cubeMesh sg) g))))))))"

section \<open>The life of the GL objects in \<^verbatim>\<open>main\<close>\<close>

text \<open>
  \<^verbatim>\<open>main\<close> builds the shader, then the scene; after the loop it destroys the window and
  terminates GLFW, and only then, at \<^verbatim>\<open>return 0\<close>, run the destructors of its locals in
  reverse order of construction: \<^verbatim>\<open>scene\<close>, then \<^verbatim>\<open>shader\<close>.
\<close>

definition main_teardown :: "shader \<Rightarrow> scene_gl \<Rightarrow> gl_objects \<Rightarrow> gl_objects" where
  "main_teardown sh sg g = Shader_destroy sh (CityScene_destroy sg (glfwTerminate (glfwDestroyWindow g)))"

definition main_gl :: "string \<Rightarrow> string \<Rightarrow> gl_objects \<Rightarrow> gl_objects" where
  "main_gl vsrc fsrc g =
     (let (sh, g1) = Shader vsrc fsrc g;
          (sg, g2) = init_gl g1
      in main_teardown sh sg g2)"


section \<open>Well-formed object stores\<close>

text \<open>
  Every name in use is non-zero and at most the last one handed out, the current program
  too, and every heap block lies below the next address: what makes a generated name or
  address fresh.
\<close>

definition names_below :: "nat set \<Rightarrow> nat \<Rightarrow> bool" where
  "names_below A n \<longleftrightarrow> (\<forall>x\<in>A. 0 < x \<and> x \<le> n)"

definition gl_wf :: "gl_objects \<Rightarrow> bool" where
  "gl_wf g \<longleftrightarrow> names_below (dom (textures g)) (next_name g) \<and> names_below (vertex_arrays g) (next_name g) \<and>
     names_below (buffers g) (next_name g) \<and> names_below (dom (shaders g)) (next_name g) \<and>
     names_below (dom (programs g)) (next_name g) \<and> current_program g \<le> next_name g \<and>
     names_below (dom (blocks (heap (stb g)))) (next_addr (heap (stb g)))"

text \<open>\<open>g'\<close> differs from \<open>g\<close> at most on the texture names \<open>H\<close>, all generated after \<open>g\<close>.\<close>

definition tex_fresh_ext :: "gl_objects \<Rightarrow> gl_objects \<Rightarrow> nat set \<Rightarrow> bool" where
  "tex_fresh_ext g g' H \<longleftrightarrow> next_name g \<le> next_name g' \<and> (\<forall>h\<in>H. next_name g < h) \<and>
     (\<forall>n. n \<notin> H \<longrightarrow> textures g' n = textures g n)"

text \<open>A store with a context and no objects, over the given files, for the examples.\<close>

definition demo_gl :: "(string \<rightharpoonup> image) \<Rightarrow> gl_objects" where
  "demo_gl fs =
     \<lparr>has_context = True, next_name = 0, textures = Map.empty, bound_tex = 0, vertex_arrays = {}, buffers = {},
      shaders = Map.empty, programs = Map.empty, current_program = 0, glsl_ok = (\<lambda>_ _. True),
      gl_errors = [], cerr = [],
      stb = \<lparr>g_failure_reason = None, flip_global = 0, flip_local = 0, flip_set = 0,
             heap = \<lparr>next_addr = 0, blocks = Map.empty\<rparr>\<rparr>,
      files = fs\<rparr>"

definition demo_image :: image where
  "demo_image = \<lparr>im_w = 1, im_h = 1, im_comp = 3, im_rgb = [255, 255, 255]\<rparr>"

section \<open>Properties\<close>


lemma loadTexture_None:
  assumes "files g path = None"
  shows "loadTexture path g =
           (0, g\<lparr>stb := (stb g)\<lparr>g_failure_reason := Some ''can't fopen'', flip_global := 1\<rparr>,
                 cerr := cerr g @ [''Failed to load texture: '' @ path]\<rparr>)"
  using assms
  by (simp add: loadTexture_def stbi_load_def stbi__errpuc_def stbi__err_def stbi_set_flip_vertically_on_load_def)

lemma update_bound_texture_ctx:
  "has_context g \<Longrightarrow> textures g (bound_tex g) = Some t \<Longrightarrow>
   update_bound_texture f g = g\<lparr>textures := (textures g)(bound_tex g \<mapsto> f t)\<rparr>"
  by (simp add: update_bound_texture_def gl_call_def)

lemma upload_texture_ctx:
  assumes "has_context g"
  shows "upload_texture w h data g =
           (Suc (next_name g),
            g\<lparr>next_name := Suc (next_name g),
              textures := (textures g)(Suc (next_name g) \<mapsto>
                \<lparr>tex_image = Some (w, h, data), tex_mipmaps = True, tex_params = std_tex_params\<rparr>),
              bound_tex := Suc (next_name g)\<rparr>)"
proof -
  let ?t = "Suc (next_name g)"
  define g4 where "g4 = g\<lparr>next_name := ?t, textures := (textures g)(?t \<mapsto> empty_texture), bound_tex := ?t\<rparr>"
  have gen: "glBindTexture ?t (snd (glGenTextures g)) = g4" "fst (glGenTextures g) = ?t"
    using assms by (simp_all add: glGenTextures_def gl_gen_def glBindTexture_def gl_call_def g4_def)
  have c4: "has_context g4" "bound_tex g4 = ?t" using assms by (simp_all add: g4_def)
  let ?f = "\<lambda>t. t\<lparr>tex_image := Some (w, h, data)\<rparr>"
  have "glTexParameteri GL_TEXTURE_WRAP_T GL_REPEAT (glTexParameteri GL_TEXTURE_WRAP_S GL_REPEAT
          (glTexParameteri GL_TEXTURE_MAG_FILTER GL_LINEAR (glTexParameteri GL_TEXTURE_MIN_FILTER GL_LINEAR_MIPMAP_LINEAR
            (glGenerateMipmap (glTexImage2D w h data g4))))) =
        g4\<lparr>textures := (textures g4)(?t \<mapsto>
                \<lparr>tex_image = Some (w, h, data), tex_mipmaps = True, tex_params = std_tex_params\<rparr>)\<rparr>"
    using c4 by (simp add: glTexParameteri_def glGenerateMipmap_def glTexImage2D_def update_bound_texture_ctx
        g4_def empty_texture_def std_tex_params_def)
  then show ?thesis
    using gen by (simp add: upload_texture_def Let_def split_beta g4_def)
qed


lemma loadTexture_found:
  assumes "has_context g" "files g path = Some im"
  shows "loadTexture path g =
           (Suc (next_name g),
            g\<lparr>next_name := Suc (next_name g),
              textures := (textures g)(Suc (next_name g) \<mapsto>
                \<lparr>tex_image = Some (im_w im, im_h im, im_rgb im), tex_mipmaps = True, tex_params = std_tex_params\<rparr>),
              bound_tex := Suc (next_name g),
              stb := (stb g)\<lparr>flip_global := 1,
                heap := \<lparr>next_addr = Suc (next_addr (heap (stb g))),
                         blocks = (blocks (heap (stb g)))(Suc (next_addr (heap (stb g))) := None)\<rparr>\<rparr>\<rparr>)"
  using assms
  by (simp add: loadTexture_def stbi_load_def stbi__malloc_def malloc_def stbi_image_free_def free_def
      stbi_set_flip_vertically_on_load_def upload_texture_ctx)


lemma names_below_mono: "names_below A n \<Longrightarrow> n \<le> m \<Longrightarrow> names_below A m"
  by (auto simp: names_below_def)

lemma names_below_fresh: "names_below A n \<Longrightarrow> Suc n \<notin> A \<and> 0 \<notin> A"
  by (auto simp: names_below_def)

lemma names_below_None: "names_below (dom m) k \<Longrightarrow> k < n \<Longrightarrow> m n = None"
  unfolding names_below_def by (meson domIff not_le)

lemma names_below_insert_iff: "names_below (insert a A) m \<longleftrightarrow> 0 < a \<and> a \<le> m \<and> names_below A m"
  by (simp add: names_below_def)

lemma names_below_insert: "names_below A n \<Longrightarrow> names_below (insert (Suc n) A) (Suc n)"
  by (auto simp: names_below_def)

lemma names_below_subset: "names_below A n \<Longrightarrow> B \<subseteq> A \<Longrightarrow> names_below B n"
  by (auto simp: names_below_def)

lemma gl_wf_textures_fresh: "gl_wf g \<Longrightarrow> textures g (Suc (next_name g)) = None \<and> textures g 0 = None"
  using names_below_fresh [of "dom (textures g)" "next_name g"] by (auto simp: gl_wf_def)

lemma blocks_free_fresh:
  "names_below (dom (blocks h)) (next_addr h) \<Longrightarrow> (blocks h)(Suc (next_addr h) := None) = blocks h"
  using names_below_fresh [of "dom (blocks h)" "next_addr h"] by (auto simp: fun_eq_iff)

lemma loadTexture_found_wf:
  assumes "has_context g" "gl_wf g" "files g path = Some im"
  shows "gl_wf (snd (loadTexture path g))"
proof -
  have n: "next_name g \<le> Suc (next_name g)" "next_addr (heap (stb g)) \<le> Suc (next_addr (heap (stb g)))" by simp_all
  from assms(2) show ?thesis
    using names_below_insert [of "dom (textures g)" "next_name g"]
      names_below_subset [of "dom (blocks (heap (stb g)))" "next_addr (heap (stb g))"]
    by (auto simp: loadTexture_found [OF assms(1,3)] gl_wf_def blocks_free_fresh
        intro: names_below_mono [OF _ n(1)] names_below_mono [OF _ n(2)])
qed

text \<open>
  C21: a texture file that loads gives a fresh non-zero texture name holding the image's
  RGB pixels with mipmaps and the four filtering and wrapping parameters; no other
  texture changes, the decoder's pixel block is freed (the C heap is as before), the
  flip flag is set for the load, and the object store stays well formed.
\<close>

theorem loadTexture_loads:
  assumes "has_context g" "gl_wf g" "files g path = Some im" "loadTexture path g = (t, g')"
  shows "t \<noteq> 0 \<and> textures g t = None \<and>
         textures g' = (textures g)(t \<mapsto>
           \<lparr>tex_image = Some (im_w im, im_h im, im_rgb im), tex_mipmaps = True, tex_params = std_tex_params\<rparr>) \<and>
         blocks (heap (stb g')) = blocks (heap (stb g)) \<and> flip_global (stb g') = 1 \<and> gl_wf g'"
proof -
  have eq: "(t, g') = loadTexture path g" using assms(4) by simp
  have wf': "gl_wf g'" using loadTexture_found_wf [OF assms(1-3)] assms(4) by simp
  have "names_below (dom (blocks (heap (stb g)))) (next_addr (heap (stb g)))"
    using assms(2) by (simp add: gl_wf_def)
  with eq wf' gl_wf_textures_fresh [OF assms(2)] show ?thesis
    by (simp add: loadTexture_found [OF assms(1,3)] blocks_free_fresh)
qed


lemma tex_fresh_ext_trans:
  "tex_fresh_ext g g1 H1 \<Longrightarrow> tex_fresh_ext g1 g2 H2 \<Longrightarrow> tex_fresh_ext g g2 (H1 \<union> H2)"
  by (auto simp: tex_fresh_ext_def)

lemma tex_fresh_ext_keeps: "tex_fresh_ext g g' H \<Longrightarrow> h \<le> next_name g \<Longrightarrow> textures g' h = textures g h"
  unfolding tex_fresh_ext_def by (meson leD)

lemma tex_fresh_ext_live:
  "tex_fresh_ext g g' H \<Longrightarrow> h \<in> dom (textures g) \<and> h \<le> next_name g \<Longrightarrow> h \<in> dom (textures g')"
  using tex_fresh_ext_keeps [of g g' H h] by (simp add: domIff)

lemma loadTexture_step:
  assumes "has_context g" "gl_wf g" "loadTexture p g = (t, g')"
  shows "has_context g' \<and> gl_wf g' \<and> files g' = files g \<and> tex_fresh_ext g g' ({t} - {0}) \<and>
         (t = 0 \<longleftrightarrow> files g p = None) \<and> (t \<noteq> 0 \<longrightarrow> t \<in> dom (textures g') \<and> t \<le> next_name g') \<and>
         vertex_arrays g' = vertex_arrays g \<and> buffers g' = buffers g \<and> shaders g' = shaders g \<and>
         programs g' = programs g \<and> current_program g' = current_program g \<and> gl_errors g' = gl_errors g"
proof (cases "files g p")
  case None
  with assms(3) have "t = 0" "g' = g\<lparr>stb := (stb g)\<lparr>g_failure_reason := Some ''can't fopen'', flip_global := 1\<rparr>,
                 cerr := cerr g @ [''Failed to load texture: '' @ p]\<rparr>"
    by (simp_all add: loadTexture_None)
  with assms(1,2) None show ?thesis by (simp add: gl_wf_def tex_fresh_ext_def)
next
  case (Some im)
  have wf: "gl_wf g'" using loadTexture_found_wf [OF assms(1,2) Some] assms(3) by simp
  from assms(3) have "(t, g') = loadTexture p g" by simp
  with wf assms(1) Some show ?thesis
    by (simp add: loadTexture_found tex_fresh_ext_def)
qed

lemma delete_tex_textures:
  "has_context g \<Longrightarrow> textures (delete_tex h g) = (if h = 0 then textures g else (textures g)(h := None)) \<and>
     has_context (delete_tex h g) \<and> vertex_arrays (delete_tex h g) = vertex_arrays g \<and>
     buffers (delete_tex h g) = buffers g"
  by (auto simp: delete_tex_def glDeleteTextures_def gl_call_def)

lemma load_scene_textures_ext:
  assumes "has_context g" "gl_wf g" "load_scene_textures g = (tx, g')"
  shows "has_context g' \<and> gl_wf g' \<and> files g' = files g \<and>
         tex_fresh_ext g g' ({buildingTex tx, towerTex tx, skyscraperTex tx, roadTex tx, pondTex tx} - {0}) \<and>
         list_all (\<lambda>t. t = 0 \<or> t \<in> dom (textures g'))
           [buildingTex tx, towerTex tx, skyscraperTex tx, roadTex tx, pondTex tx] \<and>
         (buildingTex tx = 0 \<longleftrightarrow> files g ''assets/building.jpg'' = None) \<and>
         (towerTex tx = 0 \<longleftrightarrow> files g ''assets/tower.png'' = None) \<and>
         (skyscraperTex tx = 0 \<longleftrightarrow> files g ''assets/skyscraper.jpg'' = None \<and> files g ''assets/building.jpg'' = None) \<and>
         (roadTex tx = 0 \<longleftrightarrow> files g ''assets/road.jpg'' = None) \<and>
         (pondTex tx = 0 \<longleftrightarrow> files g ''assets/pond.jpg'' = None) \<and>
         vertex_arrays g' = vertex_arrays g \<and> buffers g' = buffers g \<and> shaders g' = shaders g \<and>
         programs g' = programs g \<and> current_program g' = current_program g \<and> gl_errors g' = gl_errors g"
proof -
  obtain b g1 where 1: "loadTexture ''assets/building.jpg'' g = (b, g1)" by (cases "loadTexture ''assets/building.jpg'' g")
  note s1 = loadTexture_step [OF assms(1,2) 1]
  obtain t g2 where 2: "loadTexture ''assets/tower.png'' g1 = (t, g2)" by (cases "loadTexture ''assets/tower.png'' g1")
  note s2 = loadTexture_step [OF s1 [THEN conjunct1] s1 [THEN conjunct2, THEN conjunct1] 2]
  obtain s g3 where 3: "loadTexture ''assets/skyscraper.jpg'' g2 = (s, g3)" by (cases "loadTexture ''assets/skyscraper.jpg'' g2")
  note s3 = loadTexture_step [OF s2 [THEN conjunct1] s2 [THEN conjunct2, THEN conjunct1] 3]
  obtain r g4 where 4: "loadTexture ''assets/road.jpg'' g3 = (r, g4)" by (cases "loadTexture ''assets/road.jpg'' g3")
  note s4 = loadTexture_step [OF s3 [THEN conjunct1] s3 [THEN conjunct2, THEN conjunct1] 4]
  obtain p g5 where 5: "loadTexture ''assets/pond.jpg'' g4 = (p, g5)" by (cases "loadTexture ''assets/pond.jpg'' g4")
  note s5 = loadTexture_step [OF s4 [THEN conjunct1] s4 [THEN conjunct2, THEN conjunct1] 5]
  have tx: "tx = \<lparr>buildingTex = b, towerTex = t, skyscraperTex = (if s = 0 then b else s), roadTex = r, pondTex = p\<rparr>"
    and g': "g' = g5"
    using assms(3) 1 2 3 4 5 by (simp_all add: load_scene_textures_def)
  have ext: "tex_fresh_ext g g5 (({b} - {0}) \<union> ({t} - {0}) \<union> ({s} - {0}) \<union> ({r} - {0}) \<union> ({p} - {0}))"
    using s1 s2 s3 s4 s5 by (blast intro: tex_fresh_ext_trans)
  have H: "({b} - {0}) \<union> ({t} - {0}) \<union> ({s} - {0}) \<union> ({r} - {0}) \<union> ({p} - {0}) =
           {b, t, if s = 0 then b else s, r, p} - {0}" by auto
  have e45: "tex_fresh_ext g4 g5 ({p} - {0})" using s5 by simp
  have e35: "tex_fresh_ext g3 g5 (({r} - {0}) \<union> ({p} - {0}))" using s4 e45 by (blast intro: tex_fresh_ext_trans)
  have e25: "tex_fresh_ext g2 g5 (({s} - {0}) \<union> (({r} - {0}) \<union> ({p} - {0})))"
    using s3 e35 by (blast intro: tex_fresh_ext_trans)
  have e15: "tex_fresh_ext g1 g5 (({t} - {0}) \<union> (({s} - {0}) \<union> (({r} - {0}) \<union> ({p} - {0}))))"
    using s2 e25 by (blast intro: tex_fresh_ext_trans)
  have lb: "b \<noteq> 0 \<Longrightarrow> b \<in> dom (textures g5)"
    by (intro tex_fresh_ext_live [OF e15]) (use s1 in blast)
  have lt: "t \<noteq> 0 \<Longrightarrow> t \<in> dom (textures g5)"
    by (intro tex_fresh_ext_live [OF e25]) (use s2 in blast)
  have ls: "s \<noteq> 0 \<Longrightarrow> s \<in> dom (textures g5)"
    by (intro tex_fresh_ext_live [OF e35]) (use s3 in blast)
  have lr: "r \<noteq> 0 \<Longrightarrow> r \<in> dom (textures g5)"
    by (intro tex_fresh_ext_live [OF e45]) (use s4 in blast)
  have lp: "p \<noteq> 0 \<Longrightarrow> p \<in> dom (textures g5)" using s5 by blast
  have f: "files g4 = files g" "files g3 = files g" "files g2 = files g" "files g1 = files g"
    using s1 s2 s3 s4 by simp_all
  have z: "(b = 0) = (files g ''assets/building.jpg'' = None)" "(t = 0) = (files g ''assets/tower.png'' = None)"
    "(s = 0) = (files g ''assets/skyscraper.jpg'' = None)" "(r = 0) = (files g ''assets/road.jpg'' = None)"
    "(p = 0) = (files g ''assets/pond.jpg'' = None)"
    using s1 s2 s3 s4 s5 f by simp_all
  have o: "has_context g5" "gl_wf g5" "files g5 = files g" "vertex_arrays g5 = vertex_arrays g"
    "buffers g5 = buffers g" "shaders g5 = shaders g" "programs g5 = programs g"
    "current_program g5 = current_program g" "gl_errors g5 = gl_errors g"
    using s1 s2 s3 s4 s5 by simp_all
  have sky: "((if s = 0 then b else s) = 0) = (s = 0 \<and> b = 0)" by simp
  have live: "list_all (\<lambda>h. h = 0 \<or> h \<in> dom (textures g5)) [b, t, if s = 0 then b else s, r, p]"
    using lb lt ls lr lp by auto
  have ext': "tex_fresh_ext g g5 ({b, t, if s = 0 then b else s, r, p} - {0})" using ext H by simp
  show ?thesis unfolding tx g' using o ext' live by (simp add: z [symmetric] sky)
qed


lemma buildMesh_gl_ctx:
  assumes "has_context g"
  shows "buildMesh_gl n g =
           (\<lparr>vao = Suc (next_name g), vbo = Suc (Suc (next_name g)), ebo = Suc (Suc (Suc (next_name g))),
             elem_count = n\<rparr>,
            g\<lparr>next_name := Suc (Suc (Suc (next_name g))),
              vertex_arrays := insert (Suc (next_name g)) (vertex_arrays g),
              buffers := insert (Suc (Suc (Suc (next_name g)))) (insert (Suc (Suc (next_name g))) (buffers g))\<rparr>)"
  using assms by (simp add: buildMesh_gl_def glGenVertexArrays_def glGenBuffers_def gl_gen_def)

lemma buildMesh_gl_step:
  assumes "has_context g" "gl_wf g" "buildMesh_gl n g = (m, g')"
  shows "has_context g' \<and> gl_wf g' \<and> files g' = files g \<and> textures g' = textures g \<and>
         next_name g < vao m \<and> next_name g < vbo m \<and> next_name g < ebo m \<and> vao m \<noteq> 0 \<and>
         vertex_arrays g' = insert (vao m) (vertex_arrays g) \<and>
         buffers g' = insert (ebo m) (insert (vbo m) (buffers g)) \<and> next_name g \<le> next_name g' \<and>
         vao m \<le> next_name g' \<and> vbo m \<le> next_name g' \<and> ebo m \<le> next_name g' \<and>
         gl_errors g' = gl_errors g"
proof -
  have n: "next_name g \<le> Suc (Suc (Suc (next_name g)))" by simp
  have i1: "names_below (insert (Suc (next_name g)) (vertex_arrays g)) (Suc (Suc (Suc (next_name g))))"
    using assms(2) by (auto simp: gl_wf_def names_below_def)
  have i2: "names_below (insert (Suc (Suc (Suc (next_name g)))) (insert (Suc (Suc (next_name g))) (buffers g)))
              (Suc (Suc (Suc (next_name g))))"
    using assms(2) by (auto simp: gl_wf_def names_below_def)
  have "gl_wf g'"
    using assms(2,3) i1 i2 names_below_mono [OF _ n]
    by (auto simp: buildMesh_gl_ctx [OF assms(1)] gl_wf_def)
  with assms show ?thesis by (auto simp: buildMesh_gl_ctx [OF assms(1)])
qed

lemma delete_mesh_ctx:
  "has_context g \<Longrightarrow> vao m \<noteq> 0 \<Longrightarrow>
   delete_mesh m g = g\<lparr>vertex_arrays := vertex_arrays g - {vao m}, buffers := buffers g - {vbo m} - {ebo m}\<rparr>"
  by (simp add: delete_mesh_def glDeleteBuffers_def glDeleteVertexArrays_def gl_call_def)


lemma delete_tex_apply:
  "has_context g \<Longrightarrow> textures (delete_tex h g) n = (if n = h \<and> h \<noteq> 0 then None else textures g n)"
  using delete_tex_textures [of g h] by simp

lemma delete_tex_frame [simp]:
  "has_context g \<Longrightarrow> has_context (delete_tex h g) \<and> vertex_arrays (delete_tex h g) = vertex_arrays g \<and>
     buffers (delete_tex h g) = buffers g"
  using delete_tex_textures [of g h] by simp

lemma fold_delete_tex:
  "has_context g \<Longrightarrow> textures (fold delete_tex hs g) n = (if n \<in> set hs - {0} then None else textures g n)"
  by (induction hs arbitrary: g) (auto simp: delete_tex_apply)

lemma CityScene_destroy_fold:
  "CityScene_destroy sg g =
     fold delete_tex [buildingTex (scene_tex sg), towerTex (scene_tex sg), skyscraperTex (scene_tex sg),
                      roadTex (scene_tex sg), pondTex (scene_tex sg)]
       (delete_mesh (pondMesh sg) (delete_mesh (quadMesh sg) (delete_mesh (cubeMesh sg) g)))"
  by (simp add: CityScene_destroy_def Let_def)

text \<open>
  C20: the destructor releases exactly what \<^verbatim>\<open>init\<close> created: after
  \<^verbatim>\<open>~CityScene\<close> the textures, vertex arrays and buffers are those before \<^verbatim>\<open>init\<close>,
  whichever texture files were missing; the skyscraper fallback makes the destructor
  delete the building texture twice, which GL ignores.
\<close>

theorem scene_resources_released:
  assumes "has_context g" "gl_wf g" "init_gl g = (sg, g')"
  shows "textures (CityScene_destroy sg g') = textures g \<and>
         vertex_arrays (CityScene_destroy sg g') = vertex_arrays g \<and>
         buffers (CityScene_destroy sg g') = buffers g"
proof -
  obtain c g1 where 1: "buildMesh_gl (length (indices makeCube)) g = (c, g1)"
    by (cases "buildMesh_gl (length (indices makeCube)) g")
  note m1 = buildMesh_gl_step [OF assms(1,2) 1]
  obtain q g2 where 2: "buildMesh_gl (length (indices makeQuadXZ)) g1 = (q, g2)"
    by (cases "buildMesh_gl (length (indices makeQuadXZ)) g1")
  note m2 = buildMesh_gl_step [OF m1 [THEN conjunct1] m1 [THEN conjunct2, THEN conjunct1] 2]
  obtain p g3 where 3: "buildMesh_gl (3 * 64) g2 = (p, g3)" by (cases "buildMesh_gl (3 * 64) g2")
  note m3 = buildMesh_gl_step [OF m2 [THEN conjunct1] m2 [THEN conjunct2, THEN conjunct1] 3]
  obtain tx g4 where 4: "load_scene_textures g3 = (tx, g4)" by (cases "load_scene_textures g3")
  note t4 = load_scene_textures_ext [OF m3 [THEN conjunct1] m3 [THEN conjunct2, THEN conjunct1] 4]
  have sg: "sg = \<lparr>cubeMesh = c, quadMesh = q, pondMesh = p, scene_tex = tx\<rparr>" and g': "g' = g4"
    using assms(3) 1 2 3 4 by (simp_all add: init_gl_def)
  let ?H = "{buildingTex tx, towerTex tx, skyscraperTex tx, roadTex tx, pondTex tx} - {0}"
  define d where "d = delete_mesh p (delete_mesh q (delete_mesh c g4))"
  have ctx4: "has_context g4" using t4 by simp
  have d: "has_context d" "textures d = textures g4"
    "vertex_arrays d = vertex_arrays g4 - {vao c} - {vao q} - {vao p}"
    "buffers d = buffers g4 - {vbo c} - {ebo c} - {vbo q} - {ebo q} - {vbo p} - {ebo p}"
    using ctx4 m1 m2 m3 by (simp_all add: d_def delete_mesh_ctx)
  have destroy: "CityScene_destroy sg g' =
      delete_tex (pondTex tx) (delete_tex (roadTex tx) (delete_tex (skyscraperTex tx)
        (delete_tex (towerTex tx) (delete_tex (buildingTex tx) d))))"
    by (simp add: CityScene_destroy_def sg g' d_def)
  have fold: "CityScene_destroy sg g' =
      fold delete_tex [buildingTex tx, towerTex tx, skyscraperTex tx, roadTex tx, pondTex tx] d"
    unfolding destroy by simp
  have tex_final: "textures (CityScene_destroy sg g') n = (if n \<in> ?H then None else textures g4 n)" for n
    using fold_delete_tex [OF d(1), of "[buildingTex tx, towerTex tx, skyscraperTex tx, roadTex tx, pondTex tx]" n] d(2)
    unfolding fold by (simp only: set_simps)
  have "gl_wf g3" using m3 by blast
  then have wf3: "names_below (dom (textures g3)) (next_name g3)" by (simp add: gl_wf_def)
  have ext: "tex_fresh_ext g3 g4 ?H" using t4 by simp
  have "textures (CityScene_destroy sg g') n = textures g3 n" for n
  proof (cases "n \<in> ?H")
    case True
    with ext have "next_name g3 < n" by (simp add: tex_fresh_ext_def)
    with wf3 have "textures g3 n = None" by (rule names_below_None)
    moreover have "textures (CityScene_destroy sg g') n = None"
      using tex_final [of n] by (simp only: if_P [OF True])
    ultimately show ?thesis by simp
  next
    case False
    have "textures (CityScene_destroy sg g') n = textures g4 n"
      using tex_final [of n] by (simp only: if_not_P [OF False])
    moreover have "textures g4 n = textures g3 n" using ext False unfolding tex_fresh_ext_def by blast
    ultimately show ?thesis by simp
  qed
  then have tx_eq: "textures (CityScene_destroy sg g') = textures g" using m1 m2 m3 by (simp add: fun_eq_iff)
  have va: "vertex_arrays g4 = insert (vao p) (insert (vao q) (insert (vao c) (vertex_arrays g)))"
    and bu: "buffers g4 = insert (ebo p) (insert (vbo p) (insert (ebo q) (insert (vbo q)
                            (insert (ebo c) (insert (vbo c) (buffers g))))))"
    using m1 m2 m3 t4 by simp_all
  have fresh: "vao c \<notin> vertex_arrays g" "vao q \<notin> vertex_arrays g" "vao p \<notin> vertex_arrays g"
    "vbo c \<notin> buffers g" "ebo c \<notin> buffers g" "vbo q \<notin> buffers g" "ebo q \<notin> buffers g"
    "vbo p \<notin> buffers g" "ebo p \<notin> buffers g"
    using assms(2) m1 m2 m3 by (auto simp: gl_wf_def names_below_def)
  have "vertex_arrays d = vertex_arrays g" "buffers d = buffers g"
    using fresh by (auto simp: d(3,4) va bu)
  moreover have "vertex_arrays (CityScene_destroy sg g') = vertex_arrays d \<and>
      buffers (CityScene_destroy sg g') = buffers d"
    using d(1) unfolding destroy by simp
  ultimately show ?thesis using tx_eq by simp
qed


lemma compile_ctx:
  assumes "has_context g"
  shows "compile ty src g =
           (Suc (next_name g),
            g\<lparr>next_name := Suc (next_name g),
              shaders := (shaders g)(Suc (next_name g) \<mapsto>
                \<lparr>sh_type = ty, sh_source = src, sh_compiled = glsl_ok g ty src, sh_delete_pending = False\<rparr>),
              cerr := cerr g @ (if glsl_ok g ty src then [] else [''Shader compile error: ''])\<rparr>)"
  using assms
  by (simp add: compile_def glCreateShader_def gl_gen_def glShaderSource_def glCompileShader_def update_shader_def
      gl_call_def compile_status_def)

lemma is_attached_I: "programs g p = Some P \<Longrightarrow> s \<in> set (attached P) \<Longrightarrow> is_attached g s"
  by (auto simp: is_attached_def ran_def)

lemma Shader_ctx:
  fixes vsrc fsrc :: string and g :: gl_objects
  assumes "has_context g"
  defines "n \<equiv> next_name g"
  defines "okv \<equiv> glsl_ok g GL_VERTEX_SHADER vsrc" and "okf \<equiv> glsl_ok g GL_FRAGMENT_SHADER fsrc"
  shows "Shader vsrc fsrc g =
           (\<lparr>shader_id = Suc (Suc (Suc n))\<rparr>,
            g\<lparr>next_name := Suc (Suc (Suc n)),
              shaders := (shaders g)(Suc n \<mapsto>
                  \<lparr>sh_type = GL_VERTEX_SHADER, sh_source = vsrc, sh_compiled = okv, sh_delete_pending = True\<rparr>,
                Suc (Suc n) \<mapsto>
                  \<lparr>sh_type = GL_FRAGMENT_SHADER, sh_source = fsrc, sh_compiled = okf, sh_delete_pending = True\<rparr>),
              programs := (programs g)(Suc (Suc (Suc n)) \<mapsto>
                  \<lparr>attached = [Suc n, Suc (Suc n)], linked = okv \<and> okf, uniforms = Map.empty,
                   prog_delete_pending = False\<rparr>),
              cerr := cerr g @ (if okv then [] else [''Shader compile error: '']) @
                               (if okf then [] else [''Shader compile error: '']) @
                               (if okv \<and> okf then [] else [''Shader link error: ''])\<rparr>)"
proof -
  define sv where "sv = \<lparr>sh_type = GL_VERTEX_SHADER, sh_source = vsrc, sh_compiled = okv, sh_delete_pending = False\<rparr>"
  define sf where "sf = \<lparr>sh_type = GL_FRAGMENT_SHADER, sh_source = fsrc, sh_compiled = okf, sh_delete_pending = False\<rparr>"
  define e1 where "e1 = (if okv then [] else [''Shader compile error: '']) @ (if okf then [] else [''Shader compile error: ''])"
  define g3 where "g3 = g\<lparr>next_name := Suc (Suc (Suc n)), shaders := (shaders g)(Suc n \<mapsto> sv, Suc (Suc n) \<mapsto> sf),
                         programs := (programs g)(Suc (Suc (Suc n)) \<mapsto> \<lparr>attached = [], linked = False, uniforms = Map.empty,
                                                          prog_delete_pending = False\<rparr>),
                         cerr := cerr g @ e1\<rparr>"
  have c1: "compile GL_VERTEX_SHADER vsrc g = (Suc n, g\<lparr>next_name := Suc n, shaders := (shaders g)(Suc n \<mapsto> sv),
              cerr := cerr g @ (if okv then [] else [''Shader compile error: ''])\<rparr>)"
    using assms(1) by (simp add: compile_ctx sv_def n_def okv_def)
  have c2: "compile GL_FRAGMENT_SHADER fsrc (g\<lparr>next_name := Suc n, shaders := (shaders g)(Suc n \<mapsto> sv),
              cerr := cerr g @ (if okv then [] else [''Shader compile error: ''])\<rparr>) =
            (Suc (Suc n), g\<lparr>next_name := Suc (Suc n), shaders := (shaders g)(Suc n \<mapsto> sv, Suc (Suc n) \<mapsto> sf),
              cerr := cerr g @ e1\<rparr>)"
    using assms(1) by (simp add: compile_ctx sf_def okf_def e1_def)
  have p3: "glCreateProgram (g\<lparr>next_name := Suc (Suc n), shaders := (shaders g)(Suc n \<mapsto> sv, Suc (Suc n) \<mapsto> sf),
              cerr := cerr g @ e1\<rparr>) = (Suc (Suc (Suc n)), g3)"
    using assms(1) by (simp add: glCreateProgram_def gl_gen_def g3_def)
  let ?P = "\<lparr>attached = [Suc n, Suc (Suc n)], linked = okv \<and> okf, uniforms = Map.empty, prog_delete_pending = False\<rparr>"
  define g6 where "g6 = g3\<lparr>programs := (programs g)(Suc (Suc (Suc n)) \<mapsto> ?P)\<rparr>"
  have a6: "glLinkProgram (Suc (Suc (Suc n))) (glAttachShader (Suc (Suc (Suc n))) (Suc (Suc n)) (glAttachShader (Suc (Suc (Suc n))) (Suc n) g3)) = g6"
    using assms(1) by (simp add: glLinkProgram_def glAttachShader_def update_program_def gl_call_def g3_def g6_def
        link_ok_def sv_def sf_def)
  have ls: "link_status (Suc (Suc (Suc n))) g6 = (okv \<and> okf)" using assms(1) by (simp add: link_status_def g6_def g3_def)
  have att: "programs g6 (Suc (Suc (Suc n))) = Some ?P" by (simp add: g6_def g3_def)
  define g7 where "g7 = g6\<lparr>cerr := cerr g6 @ (if okv \<and> okf then [] else [''Shader link error: ''])\<rparr>"
  have e7: "(if \<not> link_status (Suc (Suc (Suc n))) g6 then g6\<lparr>cerr := cerr g6 @ [''Shader link error: '']\<rparr> else g6) = g7"
    using ls by (simp add: g7_def)
  have att7: "programs g7 (Suc (Suc (Suc n))) = Some ?P" using att by (simp add: g7_def)
  have d1: "glDeleteShader (Suc n) g7 = g7\<lparr>shaders := (shaders g7)(Suc n \<mapsto> sv\<lparr>sh_delete_pending := True\<rparr>)\<rparr>"
    using assms(1) is_attached_I [OF att7, of "Suc n"]
    by (simp add: glDeleteShader_def gl_call_def g7_def g6_def g3_def)
  define g8 where "g8 = g7\<lparr>shaders := (shaders g7)(Suc n \<mapsto> sv\<lparr>sh_delete_pending := True\<rparr>)\<rparr>"
  have att8: "programs g8 (Suc (Suc (Suc n))) = Some ?P" using att7 by (simp add: g8_def)
  have d2: "glDeleteShader (Suc (Suc n)) g8 = g8\<lparr>shaders := (shaders g8)(Suc (Suc n) \<mapsto> sf\<lparr>sh_delete_pending := True\<rparr>)\<rparr>"
    using assms(1) is_attached_I [OF att8, of "Suc (Suc n)"]
    by (simp add: glDeleteShader_def gl_call_def g8_def g7_def g6_def g3_def)
  have "Shader vsrc fsrc g = (\<lparr>shader_id = Suc (Suc (Suc n))\<rparr>,
          g8\<lparr>shaders := (shaders g8)(Suc (Suc n) \<mapsto> sf\<lparr>sh_delete_pending := True\<rparr>)\<rparr>)"
    unfolding Shader_def Let_def c1 prod.case c2 p3 a6 e7 d1 g8_def [symmetric] d2 by (rule refl)
  then show ?thesis
    by (simp add: g8_def g7_def g6_def g3_def e1_def sv_def sf_def fun_upd_twist)
qed


text \<open>
  C24: the \<^verbatim>\<open>Shader\<close> constructor creates a fresh non-zero program that links exactly
  when both sources compile, reports each failure on \<^verbatim>\<open>std::cerr\<close> and carries on, and
  together with the destructor leaves no shader or program object behind.
\<close>

theorem Shader_lifecycle:
  assumes "has_context g" "gl_wf g" "Shader vsrc fsrc g = (sh, g1)"
  shows "shader_id sh \<noteq> 0 \<and> programs g (shader_id sh) = None \<and>
         link_status (shader_id sh) g1 = (glsl_ok g GL_VERTEX_SHADER vsrc \<and> glsl_ok g GL_FRAGMENT_SHADER fsrc) \<and>
         cerr g1 = cerr g @ (if glsl_ok g GL_VERTEX_SHADER vsrc then [] else [''Shader compile error: '']) @
                            (if glsl_ok g GL_FRAGMENT_SHADER fsrc then [] else [''Shader compile error: '']) @
                            (if glsl_ok g GL_VERTEX_SHADER vsrc \<and> glsl_ok g GL_FRAGMENT_SHADER fsrc then []
                             else [''Shader link error: '']) \<and>
         shaders (Shader_destroy sh g1) = shaders g \<and> programs (Shader_destroy sh g1) = programs g"
proof -
  let ?n = "next_name g"
  have wf: "names_below (dom (shaders g)) ?n" "names_below (dom (programs g)) ?n" "current_program g \<le> ?n"
    using assms(2) by (simp_all add: gl_wf_def)
  have fresh: "shaders g (Suc ?n) = None" "shaders g (Suc (Suc ?n)) = None" "programs g (Suc (Suc (Suc ?n))) = None"
    using names_below_None [OF wf(1)] names_below_None [OF wf(2)] by simp_all
  have sh: "sh = \<lparr>shader_id = Suc (Suc (Suc ?n))\<rparr>" and g1: "g1 = snd (Shader vsrc fsrc g)"
    using assms(3) Shader_ctx [OF assms(1), of vsrc fsrc] by simp_all
  have cur: "current_program g \<noteq> Suc (Suc (Suc ?n))" using wf(3) by simp
  have ds: "shaders (Shader_destroy sh g1) x = shaders g x" for x
    using assms(1) fresh cur
    by (auto simp: sh g1 Shader_ctx Shader_destroy_def glDeleteProgram_def gl_call_def)
  have dp: "programs (Shader_destroy sh g1) x = programs g x" for x
    using assms(1) fresh cur
    by (auto simp: sh g1 Shader_ctx Shader_destroy_def glDeleteProgram_def gl_call_def)
  have rest: "shader_id sh \<noteq> 0 \<and> programs g (shader_id sh) = None \<and>
         link_status (shader_id sh) g1 = (glsl_ok g GL_VERTEX_SHADER vsrc \<and> glsl_ok g GL_FRAGMENT_SHADER fsrc) \<and>
         cerr g1 = cerr g @ (if glsl_ok g GL_VERTEX_SHADER vsrc then [] else [''Shader compile error: '']) @
                            (if glsl_ok g GL_FRAGMENT_SHADER fsrc then [] else [''Shader compile error: '']) @
                            (if glsl_ok g GL_VERTEX_SHADER vsrc \<and> glsl_ok g GL_FRAGMENT_SHADER fsrc then []
                             else [''Shader link error: ''])"
    using assms(1) fresh by (simp add: sh g1 Shader_ctx link_status_def split del: if_split)
  with ds dp show ?thesis by (simp add: fun_eq_iff)
qed

lemma gl_call_nc: "\<not> has_context g \<Longrightarrow> gl_call f g = g\<lparr>gl_errors := gl_errors g @ [GL_NO_CONTEXT]\<rparr>"
  by (simp add: gl_call_def)

lemma delete_mesh_nc:
  "\<not> has_context g \<Longrightarrow> vao m \<noteq> 0 \<Longrightarrow>
   delete_mesh m g = g\<lparr>gl_errors := gl_errors g @ [GL_NO_CONTEXT, GL_NO_CONTEXT, GL_NO_CONTEXT]\<rparr>"
  by (simp add: delete_mesh_def glDeleteBuffers_def glDeleteVertexArrays_def gl_call_nc)

lemma delete_tex_nc:
  "\<not> has_context g \<Longrightarrow>
   delete_tex h g = (if h = 0 then g else g\<lparr>gl_errors := gl_errors g @ [GL_NO_CONTEXT]\<rparr>)"
  by (simp add: delete_tex_def glDeleteTextures_def gl_call_nc)

lemma fold_delete_tex_nc:
  "\<not> has_context g \<Longrightarrow>
   fold delete_tex hs g = g\<lparr>gl_errors := gl_errors g @ replicate (length (filter (\<lambda>h. h \<noteq> 0) hs)) GL_NO_CONTEXT\<rparr>"
  by (induction hs arbitrary: g) (simp_all add: delete_tex_nc replicate_app_Cons_same)


lemma Shader_step:
  assumes "has_context g" "gl_wf g" "Shader vsrc fsrc g = (sh, g1)"
  shows "has_context g1 \<and> gl_wf g1 \<and> gl_errors g1 = gl_errors g \<and> shader_id sh \<noteq> 0"
proof -
  let ?n = "next_name g"
  have n: "?n \<le> Suc (Suc (Suc ?n))" by simp
  have sh: "sh = \<lparr>shader_id = Suc (Suc (Suc ?n))\<rparr>" and g1: "g1 = snd (Shader vsrc fsrc g)"
    using assms(3) Shader_ctx [OF assms(1), of vsrc fsrc] by simp_all
  have w: "names_below (dom (textures g)) (Suc (Suc (Suc ?n)))" "names_below (vertex_arrays g) (Suc (Suc (Suc ?n)))"
    "names_below (buffers g) (Suc (Suc (Suc ?n)))" "names_below (dom (shaders g)) (Suc (Suc (Suc ?n)))"
    "names_below (dom (programs g)) (Suc (Suc (Suc ?n)))" "current_program g \<le> Suc (Suc (Suc ?n))"
    "names_below (dom (blocks (heap (stb g)))) (next_addr (heap (stb g)))"
    using assms(2) names_below_mono [OF _ n] by (simp_all add: gl_wf_def)
  then show ?thesis
    using assms(1) by (simp add: sh g1 Shader_ctx gl_wf_def names_below_insert_iff)
qed

lemma init_gl_step:
  assumes "has_context g" "gl_wf g" "init_gl g = (sg, g')"
  shows "has_context g' \<and> gl_errors g' = gl_errors g \<and>
         vao (cubeMesh sg) \<noteq> 0 \<and> vao (quadMesh sg) \<noteq> 0 \<and> vao (pondMesh sg) \<noteq> 0"
proof -
  obtain c g1 where 1: "buildMesh_gl (length (indices makeCube)) g = (c, g1)"
    by (cases "buildMesh_gl (length (indices makeCube)) g")
  note m1 = buildMesh_gl_step [OF assms(1,2) 1]
  obtain q g2 where 2: "buildMesh_gl (length (indices makeQuadXZ)) g1 = (q, g2)"
    by (cases "buildMesh_gl (length (indices makeQuadXZ)) g1")
  note m2 = buildMesh_gl_step [OF m1 [THEN conjunct1] m1 [THEN conjunct2, THEN conjunct1] 2]
  obtain p g3 where 3: "buildMesh_gl (3 * 64) g2 = (p, g3)" by (cases "buildMesh_gl (3 * 64) g2")
  note m3 = buildMesh_gl_step [OF m2 [THEN conjunct1] m2 [THEN conjunct2, THEN conjunct1] 3]
  obtain tx g4 where 4: "load_scene_textures g3 = (tx, g4)" by (cases "load_scene_textures g3")
  note t4 = load_scene_textures_ext [OF m3 [THEN conjunct1] m3 [THEN conjunct2, THEN conjunct1] 4]
  have sg: "sg = \<lparr>cubeMesh = c, quadMesh = q, pondMesh = p, scene_tex = tx\<rparr>" and g': "g' = g4"
    using assms(3) 1 2 3 4 by (simp_all add: init_gl_def)
  show ?thesis using m1 m2 m3 t4 by (simp add: sg g')
qed

text \<open>
  C25: \<^verbatim>\<open>main\<close> destroys the window and terminates GLFW before the destructors of
  \<^verbatim>\<open>scene\<close> and \<^verbatim>\<open>shader\<close> run at \<^verbatim>\<open>return 0\<close>: every one of their GL calls (at
  least ten: three per mesh, one per loaded texture, one for the program) is made with no
  current context.
\<close>

theorem main_teardown_without_context:
  assumes "has_context g" "gl_wf g"
  shows "\<exists>k. 10 \<le> k \<and> gl_errors (main_gl vsrc fsrc g) = gl_errors g @ replicate k GL_NO_CONTEXT"
proof -
  obtain sh g1 where 1: "Shader vsrc fsrc g = (sh, g1)" by (cases "Shader vsrc fsrc g")
  note s1 = Shader_step [OF assms 1]
  obtain sg g2 where 2: "init_gl g1 = (sg, g2)" by (cases "init_gl g1")
  note s2 = init_gl_step [OF s1 [THEN conjunct1] s1 [THEN conjunct2, THEN conjunct1] 2]
  let ?hs = "[buildingTex (scene_tex sg), towerTex (scene_tex sg), skyscraperTex (scene_tex sg),
              roadTex (scene_tex sg), pondTex (scene_tex sg)]"
  define d where "d = glfwTerminate (glfwDestroyWindow g2)"
  have nc: "\<not> has_context d" by (simp add: d_def glfwTerminate_def glfwDestroyWindow_def)
  have ed: "gl_errors d = gl_errors g" using s1 s2 by (simp add: d_def glfwTerminate_def glfwDestroyWindow_def)
  have cd: "CityScene_destroy sg d =
      d\<lparr>gl_errors := gl_errors d @ replicate 9 GL_NO_CONTEXT @
                      replicate (length (filter (\<lambda>h. h \<noteq> 0) ?hs)) GL_NO_CONTEXT\<rparr>"
    unfolding CityScene_destroy_fold
    by (subst fold_delete_tex_nc) (use nc s2 in \<open>simp_all add: delete_mesh_nc numeral_eq_Suc\<close>)
  have "main_gl vsrc fsrc g = Shader_destroy sh (CityScene_destroy sg d)"
    using 1 2 by (simp add: main_gl_def main_teardown_def d_def)
  then have "gl_errors (main_gl vsrc fsrc g) =
      gl_errors g @ replicate (10 + length (filter (\<lambda>h. h \<noteq> 0) ?hs)) GL_NO_CONTEXT"
    using nc s1 ed by (simp add: cd Shader_destroy_def glDeleteProgram_def gl_call_nc numeral_eq_Suc)
  then show ?thesis by (intro exI [of _ "10 + length (filter (\<lambda>h. h \<noteq> 0) ?hs)"]) simp
qed


text \<open>
  C22: a missing texture file is reported and degrades to nothing: the loader returns the
  null handle 0, no GL object and no heap block changes, the decoder's failure reason is
  set and the path is logged on \<^verbatim>\<open>std::cerr\<close>.
\<close>

theorem loadTexture_missing:
  assumes "files g path = None" "loadTexture path g = (t, g')"
  shows "t = 0 \<and> textures g' = textures g \<and> vertex_arrays g' = vertex_arrays g \<and> buffers g' = buffers g \<and>
         shaders g' = shaders g \<and> programs g' = programs g \<and> blocks (heap (stb g')) = blocks (heap (stb g)) \<and>
         stbi_failure_reason (stb g') = Some ''can't fopen'' \<and>
         cerr g' = cerr g @ [''Failed to load texture: '' @ path]"
proof -
  have "(t, g') = (0, g\<lparr>stb := (stb g)\<lparr>g_failure_reason := Some ''can't fopen'', flip_global := 1\<rparr>,
                 cerr := cerr g @ [''Failed to load texture: '' @ path]\<rparr>)"
    using assms by (simp add: loadTexture_None)
  then show ?thesis by (simp add: stbi_failure_reason_def)
qed

text \<open>
  C23: what \<^verbatim>\<open>render\<close> draws a building with after \<^verbatim>\<open>init\<close>'s loads: the flat
  colour (\<^verbatim>\<open>useTexture = 0\<close>) exactly when its texture file is missing (for a
  skyscraper, when the building texture it falls back to is missing too), and otherwise a
  texture object that exists.
\<close>

theorem render_texture_fallback:
  assumes "has_context g" "gl_wf g" "load_scene_textures g = (tx, g')"
  shows "(tex_flag (building_texture tx ty) = 0 \<longleftrightarrow>
            (if ty = 0 then files g ''assets/skyscraper.jpg'' = None \<and> files g ''assets/building.jpg'' = None
             else if ty = 1 then files g ''assets/tower.png'' = None
             else files g ''assets/building.jpg'' = None)) \<and>
         (building_texture tx ty = 0 \<or> building_texture tx ty \<in> dom (textures g'))"
proof -
  note e = load_scene_textures_ext [OF assms]
  have z: "(buildingTex tx = 0) = (files g ''assets/building.jpg'' = None)"
    "(towerTex tx = 0) = (files g ''assets/tower.png'' = None)"
    "(skyscraperTex tx = 0) = (files g ''assets/skyscraper.jpg'' = None \<and> files g ''assets/building.jpg'' = None)"
    using e by blast+
  have l: "list_all (\<lambda>t. t = 0 \<or> t \<in> dom (textures g'))
             [buildingTex tx, towerTex tx, skyscraperTex tx, roadTex tx, pondTex tx]"
    using e by blast
  show ?thesis
  proof (cases "ty = 0")
    case True
    then show ?thesis using z l by (simp add: building_texture_def tex_flag_def)
  next
    case False
    then show ?thesis using z l by (cases "ty = 1") (simp_all add: building_texture_def tex_flag_def)
  qed
qed

section \<open>Examples\<close>

lemma demo_gl_simps:
  "has_context (demo_gl fs)" "gl_wf (demo_gl fs)" "next_name (demo_gl fs) = 0" "textures (demo_gl fs) = Map.empty"
  "programs (demo_gl fs) = Map.empty" "gl_errors (demo_gl fs) = []" "cerr (demo_gl fs) = []"
  "glsl_ok (demo_gl fs) = (\<lambda>_ _. True)" "files (demo_gl fs) = fs"
  by (simp_all add: demo_gl_def gl_wf_def names_below_def)

theorem main_teardown_without_context_witness:
  "\<exists>k. 10 \<le> k \<and> gl_errors (main_gl ''v'' ''f'' (demo_gl Map.empty)) = replicate k GL_NO_CONTEXT"
  using main_teardown_without_context [OF demo_gl_simps(1,2), of "''v''" "''f''" Map.empty]
  by (simp only: demo_gl_simps append_Nil)

theorem loadTexture_missing_witness:
  "fst (loadTexture ''assets/road.jpg'' (demo_gl Map.empty)) = 0 \<and>
   cerr (snd (loadTexture ''assets/road.jpg'' (demo_gl Map.empty))) = [''Failed to load texture: assets/road.jpg'']"
proof -
  have f: "files (demo_gl Map.empty) ''assets/road.jpg'' = None" by (simp add: demo_gl_simps)
  show ?thesis using loadTexture_missing [OF f prod.collapse [symmetric]] by (simp add: demo_gl_simps)
qed

theorem loadTexture_loads_witness:
  "fst (loadTexture ''assets/road.jpg'' (demo_gl [''assets/road.jpg'' \<mapsto> demo_image])) = 1 \<and>
   textures (snd (loadTexture ''assets/road.jpg'' (demo_gl [''assets/road.jpg'' \<mapsto> demo_image]))) 1 =
     Some \<lparr>tex_image = Some (1, 1, [255, 255, 255]), tex_mipmaps = True, tex_params = std_tex_params\<rparr>"
proof -
  have f: "files (demo_gl [''assets/road.jpg'' \<mapsto> demo_image]) ''assets/road.jpg'' = Some demo_image"
    by (simp add: demo_gl_simps)
  have t: "fst (loadTexture ''assets/road.jpg'' (demo_gl [''assets/road.jpg'' \<mapsto> demo_image])) = 1"
    using loadTexture_found [OF demo_gl_simps(1) f] by (simp add: demo_gl_simps)
  show ?thesis
    using loadTexture_loads [OF demo_gl_simps(1,2) f prod.collapse [symmetric]] t
    by (simp add: demo_gl_simps demo_image_def)
qed

theorem scene_resources_released_witness:
  "textures (CityScene_destroy (fst (init_gl (demo_gl [''assets/building.jpg'' \<mapsto> demo_image])))
     (snd (init_gl (demo_gl [''assets/building.jpg'' \<mapsto> demo_image])))) = Map.empty"
  using scene_resources_released [OF demo_gl_simps(1,2) prod.collapse [symmetric], of "[''assets/building.jpg'' \<mapsto> demo_image]"]
  by (simp only: demo_gl_simps)

theorem Shader_lifecycle_witness:
  "link_status 3 (snd (Shader ''v'' ''f'' (demo_gl Map.empty))) \<and>
   programs (Shader_destroy (fst (Shader ''v'' ''f'' (demo_gl Map.empty))) (snd (Shader ''v'' ''f'' (demo_gl Map.empty)))) =
     Map.empty"
proof -
  have i: "shader_id (fst (Shader ''v'' ''f'' (demo_gl Map.empty))) = 3"
    using Shader_ctx [OF demo_gl_simps(1), of "''v''" "''f''"] by (simp add: demo_gl_simps)
  show ?thesis
    using Shader_lifecycle [OF demo_gl_simps(1,2) prod.collapse [symmetric], of "''v''" "''f''" Map.empty] i
    by (simp add: demo_gl_simps)
qed

theorem render_texture_fallback_witness:
  "tex_flag (building_texture (fst (load_scene_textures (demo_gl [''assets/building.jpg'' \<mapsto> demo_image]))) 0) = 1"
proof -
  have "tex_flag (building_texture (fst (load_scene_textures (demo_gl [''assets/building.jpg'' \<mapsto> demo_image]))) 0) \<noteq> 0"
    using render_texture_fallback [OF demo_gl_simps(1,2) prod.collapse [symmetric], of "[''assets/building.jpg'' \<mapsto> demo_image]" 0]
    by (simp add: demo_gl_simps)
  then show ?thesis by (simp add: tex_flag_def split: if_splits)
qed

end
