(* ===== verification/Shading.thy ===== *)
theory Shading
  imports Camera "HOL-Library.Monad_Syntax"
begin

text \<open>
  The fragment shader of \<^verbatim>\<open>src/src/main.cpp\<close> (the GLSL source \<^verbatim>\<open>fragmentSrc\<close>):
  the colour one fragment gets from the base colour or the texel, an ambient term, a
  Lambert diffuse term and a Blinn-Phong specular highlight. GLSL's \<^verbatim>\<open>normalize\<close> is
  \<open>normalize_vec\<close> of the camera theory, undefined (\<open>None\<close>) on the zero vector; the
  sampled texel \<^verbatim>\<open>texture(tex, vUV).rgb\<close> is a parameter. The lemmas show the
  colour never leaves \<open>[0, 0.95]\<close> in any channel, so the night lighting never
  saturates. Floats are reals: in single precision the three coefficients sum to a value a
  rounding step above 0.95, still far below 1.
\<close>

definition vadd :: "vec3 \<Rightarrow> vec3 \<Rightarrow> vec3" where
  "vadd a b = (case a of (a1, a2, a3) \<Rightarrow> case b of (b1, b2, b3) \<Rightarrow> (a1 + b1, a2 + b2, a3 + b3))"

text \<open>
  \<^verbatim>\<open>main()\<close> of the fragment shader, for the interpolated normal and position, the
  uniforms \<^verbatim>\<open>lightPos\<close>, \<^verbatim>\<open>viewPos\<close>, \<^verbatim>\<open>baseColor\<close> and \<^verbatim>\<open>useTexture\<close>, and
  the texel; the result is the RGB of \<^verbatim>\<open>FragColor\<close> (its alpha is 1).
\<close>

definition fragment_main :: "vec3 \<Rightarrow> vec3 \<Rightarrow> vec3 \<Rightarrow> vec3 \<Rightarrow> vec3 \<Rightarrow> real \<Rightarrow> vec3 \<Rightarrow> vec3 option" where
  "fragment_main vNormal vFragPos lightPos viewPos baseColor useTexture texel = do {
     N \<leftarrow> normalize_vec vNormal;
     L \<leftarrow> normalize_vec (vsub lightPos vFragPos);
     let diff = max (dot N L) 0;
     let color = (if useTexture > 0.5 then texel else baseColor);
     let ambient = vscale 0.15 color;
     let diffuse = vscale (diff * 0.6) color;
     viewDir \<leftarrow> normalize_vec (vsub viewPos vFragPos);
     H \<leftarrow> normalize_vec (vadd L viewDir);
     let spec = (max (dot N H) 0) ^ 16;
     let specular = (0.2 * spec, 0.2 * spec, 0.2 * spec);
     Some (vadd (vadd ambient diffuse) specular)
   }"

text \<open>A colour with every channel in \<open>[0, 1]\<close>, as textures and the program's base colours are.\<close>

definition unit_color :: "vec3 \<Rightarrow> bool" where
  "unit_color c \<longleftrightarrow>
     0 \<le> fst c \<and> fst c \<le> 1 \<and> 0 \<le> fst (snd c) \<and> fst (snd c) \<le> 1 \<and> 0 \<le> snd (snd c) \<and> snd (snd c) \<le> 1"

section \<open>Bounds of the lighting\<close>

lemma dot_self_nonneg: "0 \<le> dot a a"
  by (cases a) (simp add: dot_def)

text \<open>Cauchy-Schwarz for unit vectors, from the cross product identity.\<close>

lemma dot_unit_le:
  assumes "dot a a = 1" "dot b b = 1"
  shows "dot a b \<le> 1"
proof -
  have "(dot a b)\<^sup>2 \<le> 1"
    using dot_cross_cross [of a b] dot_self_nonneg [of "cross a b"] assms by simp
  then show ?thesis by (simp add: abs_square_le_1)
qed

lemma normalize_vec_unit: "normalize_vec v = Some w \<Longrightarrow> dot w w = 1"
  using normalize_vec_Some [of v] by (cases "dot v v = 0") (auto simp: normalize_vec_def)

text \<open>One channel: ambient and diffuse scale the colour, the highlight adds at most 0.2.\<close>

lemma channel_bounds:
  fixes c d s :: real
  assumes "0 \<le> c" "c \<le> 1" "0 \<le> d" "d \<le> 1" "0 \<le> s" "s \<le> 1"
  shows "0 \<le> c * 0.15 + c * (d * 0.6) + 0.2 * s \<and> c * 0.15 + c * (d * 0.6) + 0.2 * s \<le> 0.95"
proof -
  have "c * d \<le> 1" using assms by (simp add: mult_le_one)
  moreover have "0 \<le> c * d" using assms by simp
  ultimately show ?thesis using assms by (simp add: algebra_simps)
qed


text \<open>
  C26: whenever the shader produces a colour from a base colour and a texel with channels
  in \<open>[0, 1]\<close>, every channel of the fragment colour lies in \<open>[0, 0.95]\<close>: the ambient
  term is 0.15 of the colour, the diffuse term at most 0.6 of it and the highlight at
  most 0.2, so the night lighting never clips at white.
\<close>

theorem fragment_main_bounds:
  assumes "unit_color baseColor" "unit_color texel"
    and "fragment_main vNormal vFragPos lightPos viewPos baseColor useTexture texel = Some c"
  shows "0 \<le> fst c \<and> fst c \<le> 0.95 \<and> 0 \<le> fst (snd c) \<and> fst (snd c) \<le> 0.95 \<and>
         0 \<le> snd (snd c) \<and> snd (snd c) \<le> 0.95"
proof -
  define col where "col = (if useTexture > 0.5 then texel else baseColor)"
  obtain N L V H where n: "normalize_vec vNormal = Some N" "normalize_vec (vsub lightPos vFragPos) = Some L"
      "normalize_vec (vsub viewPos vFragPos) = Some V" "normalize_vec (vadd L V) = Some H"
    and c: "c = vadd (vadd (vscale 0.15 col) (vscale (max (dot N L) 0 * 0.6) col))
                 (0.2 * (max (dot N H) 0) ^ 16, 0.2 * (max (dot N H) 0) ^ 16, 0.2 * (max (dot N H) 0) ^ 16)"
    using assms(3) by (auto simp: fragment_main_def col_def Let_def split: Option.bind_splits)
  have uc: "unit_color col" using assms(1,2) by (simp add: col_def)
  have d: "0 \<le> max (dot N L) 0" "max (dot N L) 0 \<le> 1"
    using dot_unit_le [OF normalize_vec_unit [OF n(1)] normalize_vec_unit [OF n(2)]] by simp_all
  have s: "0 \<le> (max (dot N H) 0) ^ 16" "(max (dot N H) 0) ^ 16 \<le> 1"
    using dot_unit_le [OF normalize_vec_unit [OF n(1)] normalize_vec_unit [OF n(4)]] by (simp_all add: power_le_one)
  obtain c1 c2 c3 where col: "col = (c1, c2, c3)" by (cases col) auto
  have "0 \<le> c1" "c1 \<le> 1" "0 \<le> c2" "c2 \<le> 1" "0 \<le> c3" "c3 \<le> 1" using uc by (simp_all add: unit_color_def col)
  note b = channel_bounds [OF this(1,2) d s] channel_bounds [OF this(3,4) d s] channel_bounds [OF this(5,6) d s]
  show ?thesis using b by (simp add: c col vadd_def vscale_def)
qed

theorem fragment_main_bounds_witness:
  "unit_color (1, 1, 1) \<and> unit_color (0, 0, 0) \<and>
   fragment_main (0, 1, 0) (0, 0, 0) (0, 1, 0) (1, 0, 0) (1, 1, 1) 0 (0, 0, 0) =
     Some (the (fragment_main (0, 1, 0) (0, 0, 0) (0, 1, 0) (1, 0, 0) (1, 1, 1) 0 (0, 0, 0))) \<and>
   fst (the (fragment_main (0, 1, 0) (0, 0, 0) (0, 1, 0) (1, 0, 0) (1, 1, 1) 0 (0, 0, 0))) \<le> 0.95"
proof -
  have u: "unit_color (1, 1, 1)" "unit_color (0, 0, 0)" by (simp_all add: unit_color_def)
  have e: "fragment_main (0, 1, 0) (0, 0, 0) (0, 1, 0) (1, 0, 0) (1, 1, 1) 0 (0, 0, 0) =
     Some (the (fragment_main (0, 1, 0) (0, 0, 0) (0, 1, 0) (1, 0, 0) (1, 1, 1) 0 (0, 0, 0)))"
    by (simp add: fragment_main_def normalize_vec_def vsub_def vadd_def dot_def vscale_def Let_def)
  show ?thesis using u e fragment_main_bounds [OF u e] by simp
qed

end
