(* ===== verification/Main_Program.thy ===== *)
theory Main_Program
  imports App GL_Resources
begin

text \<open>
  The whole of \<^verbatim>\<open>main\<close> in \<^verbatim>\<open>src/src/main.cpp\<close>: the start-up of GLFW, the window
  and GLEW with its three early exits, the shader, the prompts, \<^verbatim>\<open>CityScene::init\<close>
  with its result check, the render loop that runs until the window is asked to close,
  and the tear-down. The platform's answers (whether \<^verbatim>\<open>glfwInit\<close>,
  \<^verbatim>\<open>glfwCreateWindow\<close> and \<^verbatim>\<open>glewInit\<close> succeed) are parameters; the user's
  input is the list of answers of the prompts and the window events, polled in
  batches, one batch per iteration of the loop. Console output on \<^verbatim>\<open>std::cout\<close> is
  not modelled; messages on \<^verbatim>\<open>std::cerr\<close> go to the \<open>cerr\<close> log of the GL model.
\<close>

section \<open>Start-up\<close>

record platform =
  glfwInit_ok :: bool
  window_ok :: bool
  glewInit_ok :: bool

text \<open>
  The process: whether GLFW is initialised and the window exists, whether the three
  input callbacks are installed, whether depth testing is on, and the driver's objects.
\<close>

record process =
  glfw_live :: bool
  window_live :: bool
  callbacks_set :: bool
  depth_test :: bool
  gl :: gl_objects

definition report :: "string \<Rightarrow> process \<Rightarrow> process" where
  "report msg s = s\<lparr>gl := (gl s)\<lparr>cerr := cerr (gl s) @ [msg]\<rparr>\<rparr>"

text \<open>
  Lines 86 to 107 of \<^verbatim>\<open>main\<close>: \<open>Inl (code, state)\<close> is an early \<^verbatim>\<open>return\<close>,
  \<open>Inr state\<close> the state in which the program goes on. \<^verbatim>\<open>glfwMakeContextCurrent\<close>
  makes the window's context current; the three \<^verbatim>\<open>glfwSet*Callback\<close> calls install
  the callbacks that \<open>poll_event\<close> dispatches to.
\<close>

definition main_startup :: "platform \<Rightarrow> process \<Rightarrow> (int \<times> process) + process" where
  "main_startup p s =
     (if \<not> glfwInit_ok p then Inl (- 1, report ''GLFW init failed'' s)
      else
        let s1 = s\<lparr>glfw_live := True\<rparr> in
        if \<not> window_ok p then
          (let s2 = report ''Window create failed'' s1
           in Inl (- 1, s2\<lparr>glfw_live := False, gl := glfwTerminate (gl s2)\<rparr>))
        else
          let s2 = s1\<lparr>window_live := True, gl := (gl s1)\<lparr>has_context := True\<rparr>, callbacks_set := True\<rparr> in
          if \<not> glewInit_ok p then Inl (- 1, report ''GLEW init failed'' s2)
          else Inr (s2\<lparr>depth_test := True\<rparr>))"

section \<open>\<^verbatim>\<open>CityScene::init\<close> as \<^verbatim>\<open>main\<close> calls it\<close>

text \<open>
  Both halves of \<^verbatim>\<open>CityScene::init\<close>, the layout (\<open>main_scene\<close>) and the meshes and
  textures (\<open>init_gl\<close>), and its result, which is \<^verbatim>\<open>true\<close> on every path.
\<close>

definition CityScene_init ::
  "'s rng \<Rightarrow> 's \<Rightarrow> city_config \<Rightarrow> gl_objects \<Rightarrow> (bool \<times> 's city_scene \<times> scene_gl \<times> gl_objects) option" where
  "CityScene_init R st cfg g =
     (case main_scene R st cfg of
        None \<Rightarrow> None
      | Some scn \<Rightarrow> (let (sg, g') = init_gl g in Some (True, scn, sg, g')))"

section \<open>The render loop\<close>

text \<open>
  The events GLFW delivers while polling: the three the program has callbacks for, key
  presses (the program installs no key callback) and the request to close the window,
  which sets the flag \<^verbatim>\<open>glfwWindowShouldClose\<close> reads.
\<close>

datatype win_event = CursorMove real real | ButtonEvent int int | ScrollInput real | KeyPress int | CloseRequest

fun poll_event :: "win_event \<Rightarrow> bool \<times> 's app_state \<Rightarrow> bool \<times> 's app_state" where
  "poll_event (CursorMove x y) (cl, a) = (cl, cursor_cb x y a)"
| "poll_event (ButtonEvent b act) (cl, a) = (cl, mouse_button_cb b act a)"
| "poll_event (ScrollInput y) (cl, a) = (cl, scroll_cb y a)"
| "poll_event (KeyPress k) (cl, a) = (cl, a)"
| "poll_event CloseRequest (cl, a) = (True, a)"

text \<open>The uniforms and bindings before the first frame.\<close>

definition gl_state0 :: gl_state where
  "gl_state0 = \<lparr>u_model = identity_xform, u_color = (0, 0, 0), u_useTexture = 0, u_tex = 0, u_view = None,
                 u_viewPos = (0, 0, 0), bound_texture = 0, bound_vao = None, draws = []\<rparr>"

text \<open>
  \<^verbatim>\<open>while (!glfwWindowShouldClose(win)) { glfwPollEvents(); ... }\<close>: an iteration polls
  one batch of events, clears the frame (the draw log starts empty), updates camera and
  scene and renders; the rendered frames are collected. The loop ends when a close
  request has been polled; if the input ends first the program keeps rendering forever,
  which is \<open>None\<close>.
\<close>

fun main_loop ::
  "textures \<Rightarrow> win_event list list \<Rightarrow> bool \<Rightarrow> 's app_state \<Rightarrow> gl_state \<Rightarrow> gl_state list \<Rightarrow>
   ('s app_state \<times> gl_state list) option" where
  "main_loop tx bs True a gs frs = Some (a, frs)"
| "main_loop tx [] False a gs frs = None"
| "main_loop tx (b # bs) False a gs frs =
     (let (cl, a1) = fold poll_event b (False, a);
          a2 = frame a1;
          gs' = render (scene a2) tx (cam a2) (gs\<lparr>draws := []\<rparr>)
      in main_loop tx bs cl a2 gs' (frs @ [gs']))"

section \<open>\<^verbatim>\<open>main\<close>\<close>

text \<open>
  The run of \<^verbatim>\<open>main\<close>: \<open>Some (exit code, final process, rendered frames)\<close>, or
  \<open>None\<close> when the program does not return (a prompt that never gets a valid answer, or a
  window that is never closed). After the loop, \<^verbatim>\<open>glfwDestroyWindow\<close>,
  \<^verbatim>\<open>glfwTerminate\<close> and the destructors run (\<open>main_teardown\<close>); when
  \<^verbatim>\<open>init\<close> fails, only the destructors of the scene and the shader run.
\<close>

definition main_run ::
  "platform \<Rightarrow> string \<Rightarrow> string \<Rightarrow> (nat \<Rightarrow> real) \<Rightarrow> int list \<Rightarrow> real list \<Rightarrow> 's rng \<Rightarrow> 's \<Rightarrow>
   win_event list list \<Rightarrow> process \<Rightarrow> (int \<times> process \<times> gl_state list) option" where
  "main_run p vsrc fsrc u is rs R st bs s =
     (case main_startup p s of
        Inl (c, s') \<Rightarrow> Some (c, s', [])
      | Inr s1 \<Rightarrow>
          (let (sh, g1) = Shader vsrc fsrc (gl s1) in
           case read_config u is rs of
             None \<Rightarrow> None
           | Some cfg \<Rightarrow>
               (case CityScene_init R st cfg g1 of
                  None \<Rightarrow> None
                | Some (ok, scn, sg, g2) \<Rightarrow>
                    if \<not> ok then
                      (let s2 = report ''Scene init failed'' (s1\<lparr>gl := g2\<rparr>)
                       in Some (- 1, s2\<lparr>gl := Shader_destroy sh (CityScene_destroy sg (gl s2))\<rparr>, []))
                    else
                      (case main_loop (scene_tex sg) bs False (app_start scn) gl_state0 [] of
                         None \<Rightarrow> None
                       | Some (a, frs) \<Rightarrow>
                           Some (0, s1\<lparr>window_live := False, glfw_live := False, gl := main_teardown sh sg g2\<rparr>, frs)))))"


section \<open>Start-up: the exits\<close>

lemma main_startup_Inr:
  "main_startup p s = Inr s' \<longleftrightarrow>
     glfwInit_ok p \<and> window_ok p \<and> glewInit_ok p \<and>
     s' = s\<lparr>glfw_live := True, window_live := True, gl := (gl s)\<lparr>has_context := True\<rparr>, callbacks_set := True,
            depth_test := True\<rparr>"
  by (auto simp: main_startup_def Let_def)

lemma main_startup_Inl:
  "main_startup p s = Inl (c, s') \<Longrightarrow> c = - 1 \<and> \<not> (glfwInit_ok p \<and> window_ok p \<and> glewInit_ok p)"
  by (auto simp: main_startup_def Let_def split: if_splits)

lemma report_fields [simp]:
  "glfw_live (report m s) = glfw_live s" "window_live (report m s) = window_live s"
  "has_context (gl (report m s)) = has_context (gl s)" "cerr (gl (report m s)) = cerr (gl s) @ [m]"
  by (simp_all add: report_def)

text \<open>
  C15: an early exit of the start-up returns -1 with one message on \<^verbatim>\<open>std::cerr\<close> naming
  the step that failed; it leaves GLFW initialised and the window open exactly when the
  step that failed is \<^verbatim>\<open>glewInit\<close>: unlike the window failure, which calls
  \<^verbatim>\<open>glfwTerminate\<close>, the GLEW failure returns without destroying the window or
  terminating GLFW.
\<close>

theorem main_startup_cleanup:
  assumes "main_startup p s = Inl (c, s')" "\<not> glfw_live s" "\<not> window_live s"
  shows "c = - 1 \<and>
         cerr (gl s') = cerr (gl s) @ [if \<not> glfwInit_ok p then ''GLFW init failed''
                                       else if \<not> window_ok p then ''Window create failed'' else ''GLEW init failed''] \<and>
         (glfw_live s' \<longleftrightarrow> glfwInit_ok p \<and> window_ok p) \<and> (window_live s' \<longleftrightarrow> glfwInit_ok p \<and> window_ok p)"
  using assms by (auto simp: main_startup_def Let_def glfwTerminate_def split: if_splits)

section \<open>The render loop: termination and the frames\<close>

lemma fold_poll_close: "fst (fold poll_event b (cl, a)) \<longleftrightarrow> cl \<or> CloseRequest \<in> set b"
proof (induction b arbitrary: cl a)
  case Nil
  then show ?case by simp
next
  case (Cons e b)
  then show ?case by (cases e) simp_all
qed

lemma main_loop_closed [simp]: "main_loop tx bs True a gs frs = Some (a, frs)"
  by (cases bs) simp_all

lemma main_loop_returns:
  "main_loop tx bs False a gs frs \<noteq> None \<longleftrightarrow> CloseRequest \<in> set (concat bs)"
proof (induction bs arbitrary: a gs frs)
  case Nil
  then show ?case by simp
next
  case (Cons b bs)
  obtain cl a1 where f: "fold poll_event b (False, a) = (cl, a1)" by (cases "fold poll_event b (False, a)")
  have "cl \<longleftrightarrow> CloseRequest \<in> set b" using fold_poll_close [of b False a] f by simp
  then show ?case using Cons.IH f by (cases cl) (simp_all add: Let_def)
qed

text \<open>
  C16: the render loop returns exactly when a request to close the window is among the
  polled events; key presses, the Escape key that the controls banner announces as
  "Exit" included, never end it, since no key callback is installed.
\<close>

theorem main_loop_closes:
  "main_loop tx bs False a gs frs \<noteq> None \<longleftrightarrow> CloseRequest \<in> set (concat bs)"
  by (rule main_loop_returns)

lemma fold_poll_reach: "app_reach s0 a \<Longrightarrow> app_reach s0 (snd (fold poll_event b (cl, a)))"
proof (induction b arbitrary: cl a)
  case Nil
  then show ?case by simp
next
  case (Cons e b)
  have "app_reach s0 (snd (poll_event e (cl, a)))"
  proof (cases e)
    case (CursorMove x y)
    then show ?thesis using app_reach.step [OF Cons.prems, of "CursorPos x y"] by simp
  next
    case (ButtonEvent b act)
    then show ?thesis using app_reach.step [OF Cons.prems, of "MouseButton b act"] by simp
  next
    case (ScrollInput y)
    then show ?thesis using app_reach.step [OF Cons.prems, of "ScrollEvent y"] by simp
  qed (use Cons.prems in simp_all)
  then show ?case using Cons.IH [of "snd (poll_event e (cl, a))" "fst (poll_event e (cl, a))"] by simp
qed

text \<open>Every frame the loop renders is drawn with the view of a camera in the invariant.\<close>

lemma main_loop_frames:
  assumes "app_reach s0 a" "main_loop tx bs cl a gs frs = Some (a', frs')"
  shows "\<exists>new. frs' = frs @ new \<and>
           (\<forall>fr \<in> set new. \<exists>c. camera_inv c \<and> target c = (0, 0, 0) \<and>
              u_view fr = viewMatrix c \<and> u_viewPos fr = position c)"
  using assms
proof (induction bs arbitrary: cl a gs frs)
  case Nil
  then show ?case by (cases cl) simp_all
next
  case (Cons b bs)
  show ?case
  proof (cases cl)
    case True
    then show ?thesis using Cons.prems by simp
  next
    case False
    obtain cl' a1 where f: "fold poll_event b (False, a) = (cl', a1)" by (cases "fold poll_event b (False, a)")
    define a2 where "a2 = frame a1"
    define gs' where "gs' = render (scene a2) tx (cam a2) (gs\<lparr>draws := []\<rparr>)"
    have r1: "app_reach s0 a1" using fold_poll_reach [OF Cons.prems(1), of b False] f by simp
    have r2: "app_reach s0 a2" using app_reach.step [OF r1, of Frame] by (simp add: a2_def)
    have inv: "camera_inv (cam a2) \<and> target (cam a2) = (0, 0, 0)"
      using app_reach_inv [OF r2] by (simp add: app_inv_def)
    have v: "u_view gs' = viewMatrix (cam a2) \<and> u_viewPos gs' = position (cam a2)"
      unfolding gs'_def by (rule render_view)
    have "main_loop tx bs cl' a2 gs' (frs @ [gs']) = Some (a', frs')"
      using Cons.prems(2) False f by (simp add: a2_def gs'_def Let_def)
    from Cons.IH [OF r2 this] obtain new where
      "frs' = (frs @ [gs']) @ new"
      "\<forall>fr \<in> set new. \<exists>c. camera_inv c \<and> target c = (0, 0, 0) \<and> u_view fr = viewMatrix c \<and> u_viewPos fr = position c"
      by blast
    then show ?thesis using inv v by (intro exI [of _ "gs' # new"]) auto
  qed
qed

text \<open>
  C12: in every frame the render loop draws, the view uniform is a defined (NaN-free)
  rigid motion: its rotation part is orthonormal, it takes the eye position sent as
  \<^verbatim>\<open>viewPos\<close> to the origin, and it puts the world origin, which the camera always
  targets, straight ahead at a distance between 5 and 150.
\<close>

theorem rendered_view_rigid:
  assumes "main_loop tx bs False (app_start s0) gl_state0 [] = Some (a, frs)" "fr \<in> set frs"
  shows "\<exists>M. u_view fr = Some M \<and> rotation_part_orthonormal M \<and> mat_apply M (u_viewPos fr) = (0, 0, 0) \<and>
             (\<exists>d. 5 \<le> d \<and> d \<le> 150 \<and> mat_apply M (0, 0, 0) = (0, 0, - d))"
proof -
  obtain c where c: "camera_inv c" "target c = (0, 0, 0)" "u_view fr = viewMatrix c" "u_viewPos fr = position c"
    using main_loop_frames [OF app_reach.start assms(1)] assms(2) by auto
  obtain M where "viewMatrix c = Some M" "mat_apply M (position c) = (0, 0, 0)"
    "mat_apply M (target c) = (0, 0, - distance c)" "rotation_part_orthonormal M"
    using viewMatrix_rigid [OF c(1)] by blast
  moreover have "5 \<le> distance c \<and> distance c \<le> 150" using c(1) by (simp add: camera_inv_def)
  ultimately show ?thesis using c by auto
qed

section \<open>The whole run\<close>

lemma main_scene_Some: "\<exists>s'. main_scene R st cfg = Some s'"
  using init_inv [of R st "citySize cfg" "numBuildings cfg" "buildingStyle cfg" "towerWidth cfg"
      "towerHeight cfg" "buildingWidth cfg" "buildingHeight cfg" "skyscraperWidth cfg"
      "skyscraperHeight cfg" "pondRadius cfg" "numSkyscrapers cfg" "numTowers cfg" "numOfficeBuildings cfg"]
  unfolding main_scene_def by blast

lemma CityScene_init_True: "\<exists>scn sg g'. CityScene_init R st cfg g = Some (True, scn, sg, g')"
proof -
  obtain scn where "main_scene R st cfg = Some scn" using main_scene_Some [of R st cfg] by blast
  then show ?thesis by (simp add: CityScene_init_def split: prod.splits)
qed

text \<open>The run after a successful start-up, unfolded up to the render loop.\<close>

lemma main_run_started:
  assumes "main_startup p s = Inr s1" "Shader vsrc fsrc (gl s1) = (sh, g1)"
    "CityScene_init R st cfg g1 = Some (True, scn, sg, g2)" "read_config u is rs = Some cfg"
  shows "main_run p vsrc fsrc u is rs R st bs s =
           map_option (\<lambda>(a, frs). (0, s1\<lparr>window_live := False, glfw_live := False, gl := main_teardown sh sg g2\<rparr>, frs))
             (main_loop (scene_tex sg) bs False (app_start scn) gl_state0 [])"
  using assms by (simp add: main_run_def split: option.splits)


text \<open>
  C2: \<^verbatim>\<open>main\<close> returns 0 only after a successful start-up, with the window destroyed
  and GLFW terminated, and returns -1 only when a start-up step failed: the
  \<^verbatim>\<open>Scene init failed\<close> exit is dead code, because \<^verbatim>\<open>CityScene::init\<close> returns
  \<^verbatim>\<open>true\<close> on every path.
\<close>

theorem main_run_exit_codes:
  assumes "main_run p vsrc fsrc u is rs R st bs s = Some (c, s', frs)"
  shows "(c = 0 \<and> glfwInit_ok p \<and> window_ok p \<and> glewInit_ok p \<and> \<not> window_live s' \<and> \<not> glfw_live s') \<or>
         (c = - 1 \<and> \<not> (glfwInit_ok p \<and> window_ok p \<and> glewInit_ok p))"
proof (cases "main_startup p s")
  case (Inl r)
  then show ?thesis using assms main_startup_Inl [of p s "fst r" "snd r"] by (simp add: main_run_def split: prod.splits)
next
  case (Inr s1)
  obtain sh g1 where sh: "Shader vsrc fsrc (gl s1) = (sh, g1)" by (cases "Shader vsrc fsrc (gl s1)")
  obtain cfg where cfg: "read_config u is rs = Some cfg"
    using assms Inr sh by (cases "read_config u is rs") (simp_all add: main_run_def)
  obtain scn sg g2 where ci: "CityScene_init R st cfg g1 = Some (True, scn, sg, g2)"
    using CityScene_init_True [of R st cfg g1] by blast
  show ?thesis
    using assms main_run_started [OF Inr sh ci cfg, of bs] main_startup_Inr [of p s s1] Inr
    by (auto split: option.splits)
qed

text \<open>
  C3: once the start-up succeeds, \<^verbatim>\<open>main\<close> returns if and only if the prompts get valid
  answers and the window is eventually asked to close; otherwise it runs forever
  (prompting again, or rendering).
\<close>

theorem main_run_terminates:
  assumes "glfwInit_ok p" "window_ok p" "glewInit_ok p"
  shows "main_run p vsrc fsrc u is rs R st bs s = None \<longleftrightarrow>
           read_config u is rs = None \<or> CloseRequest \<notin> set (concat bs)"
proof -
  define s1 where "s1 = s\<lparr>glfw_live := True, window_live := True, gl := (gl s)\<lparr>has_context := True\<rparr>,
                            callbacks_set := True, depth_test := True\<rparr>"
  have st: "main_startup p s = Inr s1" using assms main_startup_Inr [of p s s1] by (simp add: s1_def)
  obtain sh g1 where sh: "Shader vsrc fsrc (gl s1) = (sh, g1)" by (cases "Shader vsrc fsrc (gl s1)")
  show ?thesis
  proof (cases "read_config u is rs")
    case None
    then show ?thesis using st sh by (simp add: main_run_def)
  next
    case (Some cfg)
    obtain scn sg g2 where ci: "CityScene_init R st cfg g1 = Some (True, scn, sg, g2)"
      using CityScene_init_True [of R st cfg g1] by blast
    show ?thesis
      using main_run_started [OF st sh ci Some, of bs]
        main_loop_returns [of "scene_tex sg" bs "app_start scn" gl_state0 "[]"] Some
      by (cases "main_loop (scene_tex sg) bs False (app_start scn) gl_state0 []") auto
  qed
qed

section \<open>Examples\<close>

theorem main_startup_cleanup_witness:
  "main_startup \<lparr>glfwInit_ok = True, window_ok = True, glewInit_ok = False\<rparr>
     \<lparr>glfw_live = False, window_live = False, callbacks_set = False, depth_test = False, gl = demo_gl Map.empty\<rparr> =
     Inl (- 1, snd (projl (main_startup \<lparr>glfwInit_ok = True, window_ok = True, glewInit_ok = False\<rparr>
       \<lparr>glfw_live = False, window_live = False, callbacks_set = False, depth_test = False, gl = demo_gl Map.empty\<rparr>))) \<and>
   glfw_live (snd (projl (main_startup \<lparr>glfwInit_ok = True, window_ok = True, glewInit_ok = False\<rparr>
       \<lparr>glfw_live = False, window_live = False, callbacks_set = False, depth_test = False, gl = demo_gl Map.empty\<rparr>))) \<and>
   window_live (snd (projl (main_startup \<lparr>glfwInit_ok = True, window_ok = True, glewInit_ok = False\<rparr>
       \<lparr>glfw_live = False, window_live = False, callbacks_set = False, depth_test = False, gl = demo_gl Map.empty\<rparr>)))"
proof -
  let ?p = "\<lparr>glfwInit_ok = True, window_ok = True, glewInit_ok = False\<rparr>"
  let ?s = "\<lparr>glfw_live = False, window_live = False, callbacks_set = False, depth_test = False, gl = demo_gl Map.empty\<rparr>"
  have e: "main_startup ?p ?s = Inl (- 1, snd (projl (main_startup ?p ?s)))"
    by (simp add: main_startup_def Let_def)
  show ?thesis using e main_startup_cleanup [OF e] by simp
qed

theorem rendered_view_rigid_witness:
  "main_loop \<lparr>buildingTex = 1, towerTex = 2, skyscraperTex = 3, roadTex = 4, pondTex = 5\<rparr> [[CloseRequest]] False
     (app_start (CityScene (0::int))) gl_state0 [] =
     Some (frame (app_start (CityScene (0::int))),
           [render (scene (frame (app_start (CityScene (0::int)))))
              \<lparr>buildingTex = 1, towerTex = 2, skyscraperTex = 3, roadTex = 4, pondTex = 5\<rparr>
              (cam (frame (app_start (CityScene (0::int))))) (gl_state0\<lparr>draws := []\<rparr>)]) \<and>
   (\<exists>M. u_view (render (scene (frame (app_start (CityScene (0::int)))))
              \<lparr>buildingTex = 1, towerTex = 2, skyscraperTex = 3, roadTex = 4, pondTex = 5\<rparr>
              (cam (frame (app_start (CityScene (0::int))))) (gl_state0\<lparr>draws := []\<rparr>)) = Some M \<and>
        rotation_part_orthonormal M)"
proof -
  let ?tx = "\<lparr>buildingTex = 1, towerTex = 2, skyscraperTex = 3, roadTex = 4, pondTex = 5\<rparr>"
  let ?a = "frame (app_start (CityScene (0::int)))"
  let ?fr = "render (scene ?a) ?tx (cam ?a) (gl_state0\<lparr>draws := []\<rparr>)"
  have e: "main_loop ?tx [[CloseRequest]] False (app_start (CityScene (0::int))) gl_state0 [] = Some (?a, [?fr])"
    by (simp add: Let_def)
  show ?thesis using e rendered_view_rigid [OF e, of ?fr] by auto
qed

theorem main_run_exit_codes_witness:
  "main_run \<lparr>glfwInit_ok = False, window_ok = True, glewInit_ok = True\<rparr> ''v'' ''f'' (\<lambda>_. 0) [] [] sample_rng 0 []
     \<lparr>glfw_live = False, window_live = False, callbacks_set = False, depth_test = False, gl = demo_gl Map.empty\<rparr> =
   Some (- 1, report ''GLFW init failed''
     \<lparr>glfw_live = False, window_live = False, callbacks_set = False, depth_test = False, gl = demo_gl Map.empty\<rparr>, []) \<and>
   \<not> (glfwInit_ok \<lparr>glfwInit_ok = False, window_ok = True, glewInit_ok = True\<rparr>)"
proof -
  let ?p = "\<lparr>glfwInit_ok = False, window_ok = True, glewInit_ok = True\<rparr>"
  let ?s = "\<lparr>glfw_live = False, window_live = False, callbacks_set = False, depth_test = False, gl = demo_gl Map.empty\<rparr>"
  have e: "main_run ?p ''v'' ''f'' (\<lambda>_. 0) [] [] sample_rng 0 [] ?s = Some (- 1, report ''GLFW init failed'' ?s, [])"
    by (simp add: main_run_def main_startup_def)
  show ?thesis using e main_run_exit_codes [OF e] by simp
qed

theorem main_run_terminates_witness:
  "glfwInit_ok \<lparr>glfwInit_ok = True, window_ok = True, glewInit_ok = True\<rparr> \<and>
   main_run \<lparr>glfwInit_ok = True, window_ok = True, glewInit_ok = True\<rparr> ''v'' ''f'' (\<lambda>_. 0)
     [2, 3, 2, 3, 4] [4, 50, 2, 20, 3, 30, 8] sample_rng 0 [[KeyPress 256]]
     \<lparr>glfw_live = False, window_live = False, callbacks_set = False, depth_test = False, gl = demo_gl Map.empty\<rparr> = None"
  using main_run_terminates [of "\<lparr>glfwInit_ok = True, window_ok = True, glewInit_ok = True\<rparr>" "''v''" "''f''" "\<lambda>_. 0"
      "[2, 3, 2, 3, 4]" "[4, 50, 2, 20, 3, 30, 8]" sample_rng 0 "[[KeyPress 256]]"
      "\<lparr>glfw_live = False, window_live = False, callbacks_set = False, depth_test = False, gl = demo_gl Map.empty\<rparr>"]
  by simp

end
