(* ===== verification/Spec2Isabelle.thy ===== *)
theory Spec2Isabelle
  imports Raster_Line Raster_Circle Occupancy Scene Layout Camera Render Mesh App Stb_Image GL_Resources
    Shading Main_Program
begin

text \<open>
  \<^bold>\<open>A verification library for the procedural night-city generator.\<close>

  The program (C++, under \<^verbatim>\<open>src/src\<close>, with the vendored \<^verbatim>\<open>src/include/stb_image.h\<close>)
  asks the user for a city configuration (\<^verbatim>\<open>main.cpp\<close>), builds a grid city
  (\<^verbatim>\<open>scene/city_scene.cpp\<close>) and renders it with OpenGL through an orbit camera
  (\<^verbatim>\<open>render/camera.cpp\<close>), a shader (\<^verbatim>\<open>render/shader.cpp\<close>, with the GLSL sources
  in \<^verbatim>\<open>main.cpp\<close>), textures (\<^verbatim>\<open>render/texture.cpp\<close>, decoding through stb_image)
  and prebuilt meshes (\<^verbatim>\<open>meshes/mesh.cpp\<close>). Its core is the layout engine: an
  occupancy grid of booleans, random placement of buildings and trees with collision tests
  against that grid, street lamps along the roads, a car and a pond, with roads rasterised
  by the line algorithm of \<^verbatim>\<open>algorithms/algorithms.cpp\<close>. \<^verbatim>\<open>main\<close> starts GLFW,
  the window and GLEW, builds the shader, passes the validated configuration to
  \<^verbatim>\<open>CityScene::init\<close>, which generates the layout, creates the meshes and loads the
  textures; its loop polls mouse, scroll and window events, updates the camera and the
  scene and renders once per frame until the window is closed; at the end it destroys the
  window and the destructors release the GL objects. The theories model these parts as a
  shallow embedding.

  \<^bold>\<open>Theories and what they model.\<close>

  \<^item> \<open>Prelude\<close>: C++ truncating division and remainder (\<open>cdiv\<close>, \<open>cmod\<close>), signed
    32-bit \<^verbatim>\<open>int\<close> operations with overflow as \<open>None\<close> (\<open>c_int\<close>, \<open>c_add\<close>,
    \<open>c_sub\<close>, \<open>c_mul\<close>, \<open>c_abs\<close>), the cell type, lemmas on folds (invariants and frames), integer ranges, quotients and pairwise
    disjoint lists shared by the components.

  \<^item> \<open>Raster_Line\<close> models \<^verbatim>\<open>bresenhamLine\<close>. Its \<^verbatim>\<open>while (true)\<close> loop is
    \<open>bresenham_loop\<close>, a \<open>partial_function (option)\<close>: \<open>None\<close> would be a loop that
    never returns. The loop is refined to \<open>bres_walk\<close>, a terminating walk in the first
    quadrant with the measure \<open>(DX - a) + (DY - b)\<close>, mirrored back by \<open>to_octant\<close>;
    from this the loop returns for all inputs with the right end points (C7), produces
    8-connected distinct cells (C8) and \<open>max |dx| |dy| + 1\<close> of them (lemma). The same
    function at 32 bits, \<open>bresenhamLine32\<close> with the loop \<open>bresenham_loop32\<close>, never
    overflows and returns the same cells for end points below \<open>2^28\<close> in magnitude (C40),
    which justifies the unbounded model.

  \<^item> \<open>Raster_Circle\<close> models \<^verbatim>\<open>midpointCircle\<close>: the loop locals are the record
    \<open>midpoint_state\<close>, one iteration is \<open>midpoint_step\<close>, the eight pushes are
    \<open>octant8\<close>, and the loop is \<open>circle_loop\<close> with the measure \<open>x - y + 1\<close>. An invariant
    relating \<open>err\<close> to \<open>x\<^sup>2 + y\<^sup>2 - r\<^sup>2\<close> gives the distance band of the spec for
    \<open>r \<ge> 1\<close> (C37); lemmas give the cardinal points, symmetry, the point count and the
    degenerate radii. Its integers are unbounded: no 32-bit bound is proved (the shifts
    overflow from \<open>r = 2^30\<close>), and the program never calls it.

  \<^item> \<open>Occupancy\<close> models the grid of \<^verbatim>\<open>CityScene\<close> (\<^verbatim>\<open>gridSize\<close>,
    \<^verbatim>\<open>occupiedGrid\<close>) as the extensible record \<open>occupancy\<close>, and
    \<^verbatim>\<open>isGridCellFree\<close> and \<^verbatim>\<open>markGridCells\<close> over it. The abstraction \<open>occ\<close>
    reads the grid as a set of reserved cells; \<open>reserve\<close> and \<open>free_abs\<close> are the
    abstract operations, and the code refines them (C9). Collision avoidance (C10) follows,
    and lemmas show the reserved square no longer free and reserving idempotent.

  \<^item> \<open>Scene\<close> holds the data of \<^verbatim>\<open>city_scene.h\<close>: \<open>city_config\<close>
    (\<^verbatim>\<open>CityConfig\<close>), \<open>city_scene\<close> (the placement members, extending
    \<open>occupancy\<close>), the default constructor \<open>CityScene\<close>, the building-type choice
    \<open>choose_type\<close> (its rescan \<open>count_types\<close> shown equal to counting) and
    \<open>getFuturisticHeight\<close>. The C library's \<^verbatim>\<open>srand\<close>/\<^verbatim>\<open>rand\<close> are not code of the
    repository: they enter as the interface record \<open>rng\<close>, whose state is the field
    \<open>rng_state\<close> of the scene, as libc keeps it in a hidden global. Every theorem holds
    for every generator; \<open>sample_rng\<close> (the ISO C reference generator) only instantiates
    the examples.

  \<^item> \<open>Layout\<close> models every function of the layout engine, in source order:
    \<open>find_spot\<close> (the bounded attempt loops), \<open>place_building\<close> and
    \<open>placeBuildingsRandomly\<close>, \<open>place_tree\<close> and \<open>placeTrees\<close>, \<open>stride6\<close>,
    \<open>try_lamp\<close>, \<open>lamp_pair_h\<close>, \<open>lamp_pair_v\<close> and \<open>placeStreetLamps\<close>,
    \<open>placeRandomCar\<close>, \<open>mark_roads\<close>, \<open>mark_pond\<close>, \<open>generateFuturisticLayout\<close>
    (in the option monad, since it calls the line rasteriser) and the layout part of
    \<open>init\<close>. Each is state passing over the scene record; the loops are folds over the
    index ranges the C++ loops visit. The invariant \<open>layout_inv\<close> says the grid is
    well-formed, the roads are reserved, and the footprints of buildings (5x5), trees (3x3)
    and lamps (1x1) lie in the grid, are reserved, avoid the roads and are pairwise
    disjoint; every phase preserves it (lemma \<open>init_inv\<close>). Proved: the exact road cells
    (C4), building types and heights by style and quota (C5), reproducibility independent
    of the incoming generator state (C6), the lamps beside the roads (C18, against the
    spec-level predicate \<open>lamp_spot\<close>), the building type codes and heights (C19), the pond
    reservation (C38) and the pond covering a road for radii of 8 or more (C39, a defect);
    lemmas give the reseeding of the tree phase, the car on the road and the lamp stride.

  \<^item> \<open>Camera\<close> models \<^verbatim>\<open>Camera\<close>: its members as a record, each method as a function,
    and \<^verbatim>\<open>viewMatrix\<close> as \<^verbatim>\<open>glm::lookAt\<close> computes it from GLM's vector operations
    (\<open>vsub\<close>, \<open>dot\<close>, \<open>cross\<close>, \<open>normalize_vec\<close>; GLM is not code of the repository,
    and a NaN matrix is \<open>None\<close>). Lemmas: the clamps of mouse and scroll input, the eye at
    \<^verbatim>\<open>distance\<close> from the target never looking straight up or down, and under the camera
    invariant a defined, rigid view matrix that takes the eye to the origin and the target
    to the negative \<open>z\<close> axis (\<open>viewMatrix_rigid\<close>).

  \<^item> \<open>Render\<close> models \<^verbatim>\<open>cellToWorld\<close>, \<^verbatim>\<open>getFuturisticColor\<close> (never called),
    \<^verbatim>\<open>update\<close> (\<open>cityScene_update\<close>) and \<^verbatim>\<open>render\<close>: the shader uniforms (view
    matrix and eye included), bound texture and vertex array as the record \<open>gl_state\<close>,
    each \<^verbatim>\<open>glDrawElements\<close> appending the state it draws with to a log. The log is shown
    equal to the pure draw list \<open>render_spec\<close> (lemma \<open>render_draws\<close>); from it each
    building's draw (C35), the number of draws and the rotation of the vertical road's
    quads.

  \<^item> \<open>Shading\<close> models the fragment shader (\<^verbatim>\<open>fragmentSrc\<close> of \<^verbatim>\<open>main.cpp\<close>):
    ambient, Lambert diffuse and Blinn-Phong terms; every channel of its colour stays in
    \<open>[0, 0.95]\<close> for colours in \<open>[0, 1]\<close> (C26).

  \<^item> \<open>Mesh\<close> models the vertex and index buffers of \<^verbatim>\<open>makeCube\<close>,
    \<^verbatim>\<open>makeQuadXZ\<close> and \<^verbatim>\<open>makeCircleFan\<close>: all three are well formed, every index
    within the vertex buffer, for every segment count (C36); the fan's ring lies on its
    circle.

  \<^item> \<open>App\<close> models the prompts and callbacks of \<^verbatim>\<open>main.cpp\<close>: the validated prompts
    (\<open>read_ranged\<close>, one \<^verbatim>\<open>do ... while\<close> prompt; \<open>read_counts\<close>, \<open>read_dims\<close>,
    \<open>read_config\<close>), the call of \<^verbatim>\<open>init\<close> (\<open>main_scene\<close>), and the event handling:
    the globals as \<open>app_state\<close>, the callbacks \<open>cursor_cb\<close>, \<open>mouse_button_cb\<close>,
    \<open>scroll_cb\<close> and one loop iteration \<open>frame\<close>, dispatched by \<open>handle_event\<close>; the
    reachable states are the inductive \<open>app_reach\<close>. Proved: every accepted configuration
    yields a safe layout (C1, composing prompts, init and the layout engine), the prompts'
    never returning when no valid answer remains (C14), the round trip from a valid
    configuration through the answers a user types for it (\<open>int_answers\<close>,
    \<open>real_answers\<close>) back to the same configuration (C17), the loop invariant of camera
    and scene (C11, by rule induction), and that from every reachable state a button press,
    a cursor move and a scroll steer the camera to any allowed pitch and distance (C13).

  \<^item> \<open>Stb_Image\<close> models what the vendored \<^verbatim>\<open>stb_image.h\<close> defines: the rotate macro
    \<open>stbi_lrot\<close> on \<open>32 word\<close>, the read context (\<open>stbi__start_mem\<close>,
    \<open>stbi__start_callbacks\<close>, \<open>stbi__rewind\<close>), the stdio callbacks over a model
    \<open>c_file\<close> of a C stream (\<open>stbi__stdio_read\<close>, \<open>stbi__stdio_skip\<close>,
    \<open>stbi__stdio_eof\<close>, \<open>stbi__start_file\<close>), the failure reason, \<open>stbi__malloc\<close> and
    \<open>stbi_image_free\<close> over a block heap, the overflow checks \<open>stbi__*sizes_valid\<close>,
    \<open>stbi__malloc_mad*\<close>, \<open>stbi__addints_valid\<close>, \<open>stbi__mul2shorts_valid\<close>, and the
    flip flag with its thread-local override. C \<^verbatim>\<open>int\<close> arithmetic is \<open>int option\<close>,
    \<open>None\<close> for signed overflow or division by zero (undefined behaviour), so "no
    overflow" is the theorem that a check returns \<open>Some\<close>. Proved: the size checks never
    overflow and equal the reference \<open>sizes_fit\<close> (C27); \<open>stbi__malloc_mad3\<close> allocates
    exactly the checked size or returns \<^verbatim>\<open>NULL\<close> (C28); \<open>stbi__addints_valid\<close> is exact
    (C31); \<open>stbi__mul2shorts_valid\<close> is exact for mixed signs (C30) and wrong for two
    negative operands (C29, a defect); \<open>stbi_lrot\<close> is \<open>word_rotl\<close> (C32, by bit
    extensionality); skipping keeps the end-of-file report exact (C33); the effective flip
    flag after any sequence of setter calls (C34).

  \<^item> \<open>GL_Resources\<close> models the GPU resources: OpenGL's object store as the record
    \<open>gl_objects\<close> (from the GL specification: generated names, deferred deletion of
    attached shaders and current programs, the link rule, objects freed with the context,
    calls without a context recorded as \<open>GL_NO_CONTEXT\<close>), \<^verbatim>\<open>loadTexture\<close>, the class
    \<^verbatim>\<open>Shader\<close>, the GL half of \<^verbatim>\<open>buildMesh\<close>, the GL part of \<^verbatim>\<open>init\<close>
    (\<open>init_gl\<close>, with the skyscraper fallback in \<open>load_scene_textures\<close>),
    \<^verbatim>\<open>~CityScene\<close> (\<open>CityScene_destroy\<close>) and the end of \<^verbatim>\<open>main\<close>
    (\<open>main_teardown\<close>, \<open>main_gl\<close>). The invariant \<open>gl_wf\<close> keeps every name below the
    next one handed out. Proved: the destructor releases exactly what \<^verbatim>\<open>init\<close> created
    (C20); a texture load that succeeds (C21) and one that fails (C22); render's flat-colour
    fallback (C23, composing the loads with \<open>Render\<close>); the shader's life cycle (C24);
    and that the destructors run after the context is gone (C25, a defect).

  \<^item> \<open>Main_Program\<close> composes the whole of \<^verbatim>\<open>main\<close> (\<open>main_run\<close>): the start-up
    \<open>main_startup\<close> with its three early exits (the platform's answers to
    \<^verbatim>\<open>glfwInit\<close>, \<^verbatim>\<open>glfwCreateWindow\<close> and \<^verbatim>\<open>glewInit\<close> are the parameter
    \<open>platform\<close>), the shader, the prompts, \<^verbatim>\<open>CityScene::init\<close> with its result check
    (\<open>CityScene_init\<close>), the render loop \<open>main_loop\<close> over batches of polled window
    events (\<open>poll_event\<close> dispatching to the callbacks of \<open>App\<close>, rendering with
    \<open>Render\<close>) and the tear-down of \<open>GL_Resources\<close>. Proved: the exit codes, with the
    \<^verbatim>\<open>Scene init failed\<close> exit unreachable (C2); \<^verbatim>\<open>main\<close> returns exactly when the
    prompts are answered and the window is closed (C3); every rendered frame has a
    rigid, NaN-free view (C12, composing the loop invariant with \<open>viewMatrix_rigid\<close>);
    which start-up failure leaves the window open (C15, a defect); and that only a close
    request, never a key, ends the loop (C16).

  \<^bold>\<open>Bounds and fuel.\<close> No fuel is used. The placement loops are bounded by the source's
  own attempt counts (100 and 50), so they are structural recursions. The line loop is a
  \<open>partial_function\<close> proved to return for all inputs; the circle loop and the lamp stride
  are \<open>function\<close>s with measures. A loop that may spin forever on user input (a prompt,
  or the render loop waiting for a close request) is a structural recursion over the
  finite input, \<open>None\<close> standing for the spin; C3 and C16 prove exactly when it returns.
  The 32-bit equivalence of C40 is stated for coordinates of magnitude below \<open>2^28\<close>,
  which covers every grid the program builds (at most 100); the stb_image checks are proved for
  all 32-bit inputs. Floats are reals throughout: rounding is not modelled.

  \<^bold>\<open>Not modelled.\<close> The GL calls that only set pipeline state (buffer uploads, vertex
  attribute pointers, viewport, clear), the projection matrix (\<^verbatim>\<open>glm::perspective\<close>
  and the viewport aspect it reads), the vertex shader (model and normal matrices and the
  projection), the compiler's verdict on the GLSL sources (a parameter \<open>glsl_ok\<close> of the
  driver), the image decoders of stb_image (declared in the header but defined nowhere in
  the repository: \<^verbatim>\<open>stbi_load\<close> is modelled from its contract),
  \<^verbatim>\<open>stbi__refill_buffer\<close> (declared only; a parameter of
  \<open>stbi__start_callbacks\<close>), the header's preprocessor configuration (SIMD detection,
  allocator macros), the GLFW window hints and monitor query, console output on
  \<^verbatim>\<open>std::cout\<close>, and the city-name prompt of \<^verbatim>\<open>main\<close> (its answer is only printed).
\<close>

end
